(* ===== verification/Prelude.thy ===== *)
theory Prelude
  imports Main "HOL-Library.Word" "HOL-Library.Code_Target_Nat"
begin

text \<open>
  Shared vocabulary of the console's model: JavaScript strings as sequences of
  UTF-16 code units, \<open>String.prototype.trim\<close>, \<open>slice\<close>, \<open>split\<close>-like helpers,
  indexed iteration over arrays (\<open>forEach\<close>/\<open>map\<close>/\<open>filter\<close> with an index argument),
  and the named collections of facts the component theories rewrite with.

  \<^item> \<open>js_eval\<close> unfolds string literals into code units, for closed evaluations;
  \<^item> \<open>js_trim\<close> holds the facts about \<open>trim\<close> that the form serializers need;
  \<^item> \<open>idx_simps\<close> holds the facts about indexed iteration.
\<close>

named_theorems js_eval \<open>literals and character classes, for evaluating closed terms\<close>
named_theorems js_trim \<open>facts about trim\<close>
named_theorems idx_simps \<open>facts about indexed iteration\<close>

section \<open>Strings\<close>

type_synonym jchar = "16 word"
type_synonym jstring = "jchar list"

text \<open>A UUID is a string in the published contract, and nothing in the console parses one.\<close>
type_synonym uuid = jstring

text \<open>An ASCII literal of the source, as code units.\<close>
definition js :: "string \<Rightarrow> jstring" where
  "js s = map of_char s"

lemma js_simps [js_eval]: "js [] = []" "js (c # s) = of_char c # js s"
  by (simp_all add: js_def)

lemma unat_of_char: "unat (of_char x :: jchar) = of_char x"
proof -
  have "(of_char x :: nat) < 2 ^ 16"
    by (rule order_less_trans [OF nat_of_char_less_256]) simp
  then have "unat (of_nat (of_char x) :: jchar) = of_char x"
    by (simp add: unat_of_nat take_bit_nat_eq_self)
  then show ?thesis by (simp add: of_nat_of_char)
qed

lemma of_char_jchar_inject [simp]: "(of_char c :: jchar) = of_char d \<longleftrightarrow> c = d"
proof
  assume "(of_char c :: jchar) = of_char d"
  then have "(of_char c :: nat) = of_char d"
    by (metis unat_of_char)
  then show "c = d" by simp
qed simp

lemma js_inject [simp]: "js s = js t \<longleftrightarrow> s = t"
  by (simp add: js_def inj_map_eq_map inj_def)

lemma js_eq_Nil [simp]: "js s = [] \<longleftrightarrow> s = []" "[] = js s \<longleftrightarrow> s = []"
  by (auto simp: js_def)

lemma js_append: "js (s @ t) = js s @ js t"
  by (simp add: js_def)

lemma length_js [simp]: "length (js s) = length s"
  by (simp add: js_def)

text \<open>The em dash of the console's messages.\<close>
definition em_dash :: jstring where "em_dash = [0x2014]"

section \<open>Trimming\<close>

text \<open>
  The code points \<open>String.prototype.trim\<close> removes: WhiteSpace and LineTerminator of
  ECMA-262. All of them are single code units.
\<close>
definition is_space :: "jchar \<Rightarrow> bool" where
  "is_space c \<longleftrightarrow>
     c \<in> {9, 10, 11, 12, 13, 32, 0xA0, 0x1680, 0x2028, 0x2029, 0x202F, 0x205F, 0x3000, 0xFEFF}
     \<or> (0x2000 \<le> c \<and> c \<le> 0x200A)"

declare is_space_def [js_eval]

definition trim_start :: "jstring \<Rightarrow> jstring" where
  "trim_start s = dropWhile is_space s"

definition trim :: "jstring \<Rightarrow> jstring" where
  "trim s = rev (dropWhile is_space (rev (trim_start s)))"

declare trim_start_def [js_eval] trim_def [js_eval]

lemma trim_Nil [simp]: "trim [] = []"
  by (simp add: trim_def trim_start_def)

lemma trim_eq_Nil: "trim s = [] \<longleftrightarrow> (\<forall>c\<in>set s. is_space c)"
proof -
  have "dropWhile is_space (rev (dropWhile is_space s)) = []
      \<longleftrightarrow> (\<forall>c\<in>set (dropWhile is_space s). is_space c)"
    by simp
  also have "\<dots> \<longleftrightarrow> (\<forall>c\<in>set s. is_space c)"
    by (induction s) auto
  finally show ?thesis by (simp add: trim_def trim_start_def)
qed

text \<open>A string is its own trimming exactly when neither end is white space.\<close>
lemma trim_id [js_trim]:
  assumes "s \<noteq> []" and "\<not> is_space (hd s)" and "\<not> is_space (last s)"
  shows "trim s = s"
proof -
  have "dropWhile is_space s = s"
    using assms(1,2) by (cases s) auto
  moreover have "dropWhile is_space (rev s) = rev s"
    using assms(1,3) by (metis dropWhile_eq_self_iff hd_rev)
  ultimately show ?thesis by (simp add: trim_def trim_start_def)
qed

lemma trim_ends:
  assumes "trim s \<noteq> []"
  shows "\<not> is_space (hd (trim s))" and "\<not> is_space (last (trim s))"
proof -
  let ?u = "dropWhile is_space s"
  let ?v = "dropWhile is_space (rev ?u)"
  from assms have v: "?v \<noteq> []" by (simp add: trim_def trim_start_def)
  then show "\<not> is_space (last (trim s))"
    by (simp add: trim_def trim_start_def last_rev hd_dropWhile)
  obtain w where w: "rev ?u = w @ ?v"
    using takeWhile_dropWhile_id [of is_space "rev ?u"] by metis
  then have "?u = rev ?v @ rev w"
    by (metis rev_append rev_rev_ident)
  with v have "hd ?u = hd (rev ?v)"
    by (metis hd_append rev_is_Nil_conv)
  moreover from \<open>?u = rev ?v @ rev w\<close> v have "?u \<noteq> []"
    by (metis append_is_Nil_conv rev_is_Nil_conv)
  ultimately show "\<not> is_space (hd (trim s))"
    using hd_dropWhile [of is_space s] by (metis trim_def trim_start_def)
qed

lemma trim_trim [simp]: "trim (trim s) = trim s"
proof (cases "trim s = []")
  case True
  then show ?thesis by simp
next
  case False
  then show ?thesis by (intro trim_id trim_ends)
qed

text \<open>Literals are trimmed as character lists, which the simplifier evaluates quickly.\<close>
definition blank_char :: "char \<Rightarrow> bool" where
  "blank_char c \<longleftrightarrow> c \<in> set [CHR 0x09, CHR 0x0A, CHR 0x0B, CHR 0x0C, CHR 0x0D, CHR '' '', CHR 0xA0]"

definition strip :: "string \<Rightarrow> string" where
  "strip s = rev (dropWhile blank_char (rev (dropWhile blank_char s)))"

lemma is_space_of_char [js_eval]: "is_space (of_char c) \<longleftrightarrow> blank_char c"
proof -
  let ?w = "of_char c :: jchar" and ?n = "of_char c :: nat"
  note n = unat_of_char [of c]
  have small: "?n < 256" by (rule nat_of_char_less_256)
  have word: "?w = v \<longleftrightarrow> ?n = unat v" "v \<le> ?w \<longleftrightarrow> unat v \<le> ?n" for v
    by (simp_all only: word_unat_eq_iff word_le_nat_alt n)
  have char: "c = d \<longleftrightarrow> ?n = of_char d" for d
    by simp
  have "blank_char c \<longleftrightarrow> ?n \<in> {9, 10, 11, 12, 13, 32, 160}"
    unfolding blank_char_def list.set insert_iff empty_iff char by (simp del: of_char_eq_iff)
  moreover have "is_space ?w \<longleftrightarrow> ?n \<in> {9, 10, 11, 12, 13, 32, 160}"
    unfolding is_space_def insert_iff empty_iff word using small by (auto simp del: nat_of_char_less_256)
  ultimately show ?thesis by blast
qed

lemma trim_js [js_trim]: "trim (js s) = js (strip s)"
proof -
  have "dropWhile is_space (js t) = js (dropWhile blank_char t)" for t
    by (induction t) (simp_all add: js_def is_space_of_char)
  then show ?thesis
    by (simp add: trim_def trim_start_def strip_def js_def rev_map)
qed

section \<open>Indexed iteration\<close>

text \<open>\<open>xs.map((x, i) => f i x)\<close>, counting from \<open>k\<close>.\<close>
fun map_idx :: "nat \<Rightarrow> (nat \<Rightarrow> 'a \<Rightarrow> 'b) \<Rightarrow> 'a list \<Rightarrow> 'b list" where
  "map_idx k f [] = []"
| "map_idx k f (x # xs) = f k x # map_idx (Suc k) f xs"

text \<open>\<open>xs.filter((_, i) => i !== n)\<close>: every element but the one at index \<open>n\<close>.\<close>
definition remove_at :: "nat \<Rightarrow> 'a list \<Rightarrow> 'a list" where
  "remove_at n xs = take n xs @ drop (Suc n) xs"

text \<open>\<open>xs.map((x, i) => (i === n ? f x : x))\<close>.\<close>
definition update_at :: "nat \<Rightarrow> ('a \<Rightarrow> 'a) \<Rightarrow> 'a list \<Rightarrow> 'a list" where
  "update_at n f xs = map_idx 0 (\<lambda>i x. if i = n then f x else x) xs"

lemma length_map_idx [simp]: "length (map_idx k f xs) = length xs"
  by (induction xs arbitrary: k) auto

lemma nth_map_idx [simp]: "i < length xs \<Longrightarrow> map_idx k f xs ! i = f (k + i) (xs ! i)"
  by (induction xs arbitrary: k i) (auto simp: nth_Cons split: nat.split)

lemma map_map_idx: "map g (map_idx k f xs) = map_idx k (\<lambda>i x. g (f i x)) xs"
  by (induction xs arbitrary: k) auto

lemma map_idx_const: "map_idx k (\<lambda>_. f) xs = map f xs"
  by (induction xs arbitrary: k) auto

lemma mem_concat_map_idx:
  "p \<in> set (concat (map_idx k f xs)) \<longleftrightarrow> (\<exists>i<length xs. p \<in> set (f (k + i) (xs ! i)))"
proof (induction xs arbitrary: k)
  case Nil
  then show ?case by simp
next
  case (Cons x xs)
  then show ?case
    by (auto simp: less_Suc_eq_0_disj)
qed

lemma mem_concat_map_idx_0:
  "p \<in> set (concat (map_idx 0 f xs)) \<longleftrightarrow> (\<exists>i<length xs. p \<in> set (f i (xs ! i)))"
  by (simp only: mem_concat_map_idx add_0)

lemma map_concat_map_idx: "map g (concat (map_idx 0 f xs)) = concat (map_idx 0 (\<lambda>i x. map g (f i x)) xs)"
  by (simp add: map_concat map_map_idx)

lemma distinct_map_eqD:
  "distinct (map f xs) \<Longrightarrow> x \<in> set xs \<Longrightarrow> y \<in> set xs \<Longrightarrow> f x = f y \<Longrightarrow> x = y"
  by (simp add: distinct_map inj_on_def)

text \<open>Blocks that carry their own index never overlap.\<close>
lemma distinct_concat_map_idx:
  assumes "\<And>i. i < length xs \<Longrightarrow> distinct (f (k + i) (xs ! i))"
    and "\<And>i x. i < length xs \<Longrightarrow> x \<in> set (f (k + i) (xs ! i)) \<Longrightarrow> key x = k + i"
  shows "distinct (concat (map_idx k f xs))
       \<and> (\<forall>x\<in>set (concat (map_idx k f xs)). k \<le> key x)"
  using assms
proof (induction xs arbitrary: k)
  case Nil
  then show ?case by simp
next
  case (Cons y ys)
  have tl: "distinct (concat (map_idx (Suc k) f ys)) \<and> (\<forall>x\<in>set (concat (map_idx (Suc k) f ys)). Suc k \<le> key x)"
  proof (rule Cons.IH)
    fix i x assume "i < length ys"
    then show "distinct (f (Suc k + i) (ys ! i))" using Cons.prems(1) [of "Suc i"] by simp
    assume "x \<in> set (f (Suc k + i) (ys ! i))"
    then show "key x = Suc k + i" using \<open>i < length ys\<close> Cons.prems(2) [of "Suc i" x] by simp
  qed
  have hd: "distinct (f k y)" "\<And>x. x \<in> set (f k y) \<Longrightarrow> key x = k"
    using Cons.prems(1) [of 0] Cons.prems(2) [of 0] by auto
  have disjoint: "set (f k y) \<inter> set (concat (map_idx (Suc k) f ys)) = {}"
  proof (rule ccontr)
    assume "\<not> ?thesis"
    then obtain x where "x \<in> set (f k y)" "x \<in> set (concat (map_idx (Suc k) f ys))" by blast
    with hd(2) [of x] tl show False by fastforce
  qed
  have "\<forall>x\<in>set (f k y) \<union> set (concat (map_idx (Suc k) f ys)). k \<le> key x"
    using hd(2) tl by fastforce
  with tl hd(1) disjoint show ?case
    by (simp only: map_idx.simps concat.simps distinct_append set_append)
qed

lemma length_update_at [simp]: "length (update_at n f xs) = length xs"
  by (simp add: update_at_def)

lemma nth_update_at [idx_simps]:
  "i < length xs \<Longrightarrow> update_at n f xs ! i = (if i = n then f (xs ! i) else xs ! i)"
  by (simp add: update_at_def)

lemma update_at_list_update: "update_at n f xs = (if n < length xs then xs[n := f (xs ! n)] else xs)"
  by (rule nth_equalityI) (auto simp: idx_simps nth_list_update)

lemma map_update_at [idx_simps]: "(\<And>x. g (f x) = g x) \<Longrightarrow> map g (update_at n f xs) = map g xs"
  by (rule nth_equalityI) (auto simp: idx_simps)

lemma set_update_at: "x \<in> set (update_at n f xs) \<Longrightarrow> x \<in> set xs \<or> (\<exists>y\<in>set xs. x = f y)"
  by (fastforce simp: in_set_conv_nth idx_simps split: if_splits)

lemma set_remove_at: "set (remove_at n xs) \<subseteq> set xs"
  by (auto simp: remove_at_def dest: in_set_takeD in_set_dropD)

lemma map_remove_at [idx_simps]: "map g (remove_at n xs) = remove_at n (map g xs)"
  by (simp add: remove_at_def take_map drop_map)

lemma distinct_remove_at: "distinct xs \<Longrightarrow> distinct (remove_at n xs)"
  using set_take_disj_set_drop_if_distinct [of xs n "Suc n"]
  by (auto simp: remove_at_def)

lemma length_remove_at [simp]: "n < length xs \<Longrightarrow> length (remove_at n xs) = length xs - 1"
  by (simp add: remove_at_def)

text \<open>In an array without repeats, removing an index removes its value and nothing else.\<close>
lemma set_remove_at_distinct:
  assumes "distinct xs" and "n < length xs"
  shows "set (remove_at n xs) = set xs - {xs ! n}"
proof -
  have split: "xs = take n xs @ xs ! n # drop (Suc n) xs"
    using assms(2) by (rule id_take_nth_drop)
  have "set xs = insert (xs ! n) (set (remove_at n xs))"
    by (subst (1) split) (auto simp: remove_at_def)
  moreover have "xs ! n \<notin> set (remove_at n xs)"
  proof -
    have "distinct (take n xs @ xs ! n # drop (Suc n) xs)"
      using assms(1) split by simp
    then show ?thesis by (simp add: remove_at_def)
  qed
  ultimately show ?thesis by auto
qed

text \<open>\<open>xs.find(p)\<close>: the first element that satisfies the predicate, or \<open>undefined\<close>.\<close>
abbreviation find_first :: "('a \<Rightarrow> bool) \<Rightarrow> 'a list \<Rightarrow> 'a option" where
  "find_first \<equiv> List.find"

lemma find_SomeD: "List.find q xs = Some x \<Longrightarrow> x \<in> set xs \<and> q x"
  by (induction xs) (auto split: if_splits)

text \<open>\<open>x ?? d\<close> on an optional value.\<close>
definition or_else :: "'a option \<Rightarrow> 'a \<Rightarrow> 'a" where
  "or_else x d = (case x of None \<Rightarrow> d | Some v \<Rightarrow> v)"

lemma or_else_simps [simp]: "or_else None d = d" "or_else (Some v) d = v"
  by (simp_all add: or_else_def)

text \<open>The empty string stands for "not picked yet"; the contract uses \<open>null\<close>.\<close>
definition null_if_blank :: "jstring \<Rightarrow> jstring option" where
  "null_if_blank s = (if s = [] then None else Some s)"

lemma null_if_blank_simps [simp]:
  "null_if_blank [] = None" "s \<noteq> [] \<Longrightarrow> null_if_blank s = Some s"
  by (simp_all add: null_if_blank_def)

lemma null_if_blank_eq_None [simp]: "null_if_blank s = None \<longleftrightarrow> s = []"
  by (simp add: null_if_blank_def)

end
