(* ===== verification/Numbers.thy ===== *)
theory Numbers
  imports Prelude "HOL-Library.Log_Nat"
begin

text \<open>
  The numbers of the console: decimal text, \<open>Number.parseInt(s, 10)\<close>,
  \<open>String(n)\<close> and the number tokens of JSON.

  \<^item> \<open>number\<close> is a JavaScript Number restricted to integral values (all the console
    ever computes with), with \<open>NaN\<close> and the infinities; \<open>round_int\<close> is binary64
    rounding of an integer, the identity up to \<open>2 ^ 53\<close>. The two zeros are identified:
    the console prints and compares them alike.
  \<^item> \<open>dec\<close> is the value of a JSON number token, \<open>m * 10 ^ e\<close> in lowest terms. It is the
    token's exact decimal value; binary64 holds it exactly enough to print it back
    unchanged for up to 15 significant digits. The console never computes with these
    (they occur only inside opaque metadata, evidence and payloads).
\<close>

section \<open>Decimal digits\<close>

fun digits :: "nat \<Rightarrow> nat list" where
  "digits n = (if n < 10 then [n] else digits (n div 10) @ [n mod 10])"

declare digits.simps [simp del]

definition digits_val :: "nat list \<Rightarrow> nat" where
  "digits_val ds = foldl (\<lambda>a d. 10 * a + d) 0 ds"

definition digit_char :: "nat \<Rightarrow> jchar" where
  "digit_char d = of_nat (48 + d)"

definition is_digit :: "jchar \<Rightarrow> bool" where
  "is_digit c \<longleftrightarrow> 48 \<le> c \<and> c \<le> 57"

definition digit_of :: "jchar \<Rightarrow> nat" where
  "digit_of c = unat c - 48"

declare digit_char_def [js_eval] is_digit_def [js_eval] digit_of_def [js_eval]

definition nat_text :: "nat \<Rightarrow> jstring" where
  "nat_text n = map digit_char (digits n)"

definition text_val :: "jstring \<Rightarrow> nat" where
  "text_val s = digits_val (map digit_of s)"

lemma digits_val_Nil [simp]: "digits_val [] = 0"
  by (simp add: digits_val_def)

lemma digits_val_snoc [simp]: "digits_val (ds @ [d]) = 10 * digits_val ds + d"
  by (simp add: digits_val_def)

lemma digits_val_append:
  "digits_val (xs @ ys) = digits_val xs * 10 ^ length ys + digits_val ys"
  by (induction ys rule: rev_induct) (simp_all flip: append_assoc add: algebra_simps)

lemma digits_val_zeros [simp]: "digits_val (replicate n 0) = 0"
  by (induction n) (simp_all add: replicate_append_same [symmetric])

lemma digits_val_digits [simp]: "digits_val (digits n) = n"
proof (induction n rule: digits.induct)
  case (1 n)
  then show ?case by (subst digits.simps) (auto simp: digits_val_def)
qed

lemma digits_small: "d \<in> set (digits n) \<Longrightarrow> d < 10"
proof (induction n rule: digits.induct)
  case (1 n)
  then show ?case
    by (subst (asm) (2) digits.simps) (auto split: if_splits)
qed

lemma digits_nonempty [simp]: "digits n \<noteq> []"
  by (subst digits.simps) simp

lemma hd_digits: "0 < n \<Longrightarrow> hd (digits n) \<noteq> 0"
proof (induction n rule: digits.induct)
  case (1 n)
  show ?case
  proof (cases "n < 10")
    case True
    with 1 show ?thesis by (subst digits.simps) simp
  next
    case False
    with 1 have "hd (digits (n div 10)) \<noteq> 0" by simp
    with False show ?thesis by (subst digits.simps) simp
  qed
qed

lemma digits_0 [simp]: "digits 0 = [0]"
  by (subst digits.simps) simp

text \<open>Multiplying by a power of ten appends zeros.\<close>
lemma digits_times_10: "0 < n \<Longrightarrow> digits (10 * n) = digits n @ [0]"
  by (subst digits.simps) simp

lemma digits_shift: "0 < n \<Longrightarrow> digits (n * 10 ^ j) = digits n @ replicate j 0"
proof (induction j)
  case 0
  then show ?case by simp
next
  case (Suc j)
  have "digits (n * 10 ^ Suc j) = digits (10 * (n * 10 ^ j))"
    by (simp add: ac_simps)
  also have "\<dots> = digits (n * 10 ^ j) @ [0]"
    using Suc.prems by (intro digits_times_10) simp
  finally show ?case
    using Suc by (simp add: replicate_append_same)
qed

lemma digits_length_bound: "n < 10 ^ k \<Longrightarrow> 0 < k \<Longrightarrow> length (digits n) \<le> k"
proof (induction n arbitrary: k rule: digits.induct)
  case (1 n)
  show ?case
  proof (cases "n < 10")
    case True
    with "1.prems" show ?thesis by (subst digits.simps) simp
  next
    case False
    with "1.prems" obtain j where k: "k = Suc j" and "0 < j"
      by (cases k; cases "k - 1") auto
    with "1.prems" have "n div 10 < 10 ^ j" by auto
    with 1 False \<open>0 < j\<close> have "length (digits (n div 10)) \<le> j" by simp
    with False k show ?thesis by (subst digits.simps) simp
  qed
qed

subsection \<open>Digits as text\<close>

lemma unat_digit_char: "d < 10 \<Longrightarrow> unat (digit_char d) = 48 + d"
proof -
  assume "d < 10"
  then have "unat (of_nat (48 + d) :: jchar) = 48 + d"
    by (simp add: unat_of_nat take_bit_nat_eq_self del: of_nat_add)
  then show ?thesis by (simp only: digit_char_def)
qed

lemma digit_of_char [simp]: "d < 10 \<Longrightarrow> digit_of (digit_char d) = d"
  by (simp add: digit_of_def unat_digit_char)

lemma is_digit_char [simp]: "d < 10 \<Longrightarrow> is_digit (digit_char d)"
  by (simp add: is_digit_def word_le_nat_alt unat_digit_char)

lemma digit_char_eq_0 [simp]: "d < 10 \<Longrightarrow> digit_char d = 48 \<longleftrightarrow> d = 0"
  by (metis (no_types, opaque_lifting) digit_char_def digit_of_char add_0_right of_nat_numeral
      zero_less_numeral)

lemma text_val_digits [simp]: "(\<And>d. d \<in> set ds \<Longrightarrow> d < 10) \<Longrightarrow> text_val (map digit_char ds) = digits_val ds"
proof -
  assume "\<And>d. d \<in> set ds \<Longrightarrow> d < 10"
  then have "map digit_of (map digit_char ds) = ds"
    by (simp add: map_idI)
  then show ?thesis by (simp add: text_val_def)
qed

lemma text_val_nat_text [simp]: "text_val (nat_text n) = n"
  by (simp add: nat_text_def digits_small)

lemma nat_text_digits: "c \<in> set (nat_text n) \<Longrightarrow> is_digit c"
  by (auto simp: nat_text_def dest: digits_small)

lemma nat_text_nonempty [simp]: "nat_text n \<noteq> []"
  by (simp add: nat_text_def)

lemma nat_text_inject [simp]: "nat_text m = nat_text n \<longleftrightarrow> m = n"
  by (metis text_val_nat_text)

lemma is_digit_not_space: "is_digit c \<Longrightarrow> \<not> is_space c"
  unfolding is_digit_def is_space_def by (auto simp: word_le_nat_alt)

section \<open>Numbers\<close>

datatype number = NaN | Infinity (negative: bool) | Fin int

text \<open>Round half to even to 53 significant bits, overflowing to an infinity.\<close>
definition round_nat :: "nat \<Rightarrow> nat" where
  "round_nat a =
     (if a \<le> 2 ^ 53 then a
      else let k = floorlog 2 a - 53; q = a div 2 ^ k; r = a mod 2 ^ k
           in (if 2 ^ k < 2 * r \<or> (2 * r = 2 ^ k \<and> odd q) then q + 1 else q) * 2 ^ k)"

definition round_int :: "int \<Rightarrow> number" where
  "round_int n =
     (let b = round_nat (nat \<bar>n\<bar>)
      in if 2 ^ 1024 \<le> b then Infinity (n < 0) else Fin (sgn n * int b))"

text \<open>The magnitudes at which integer arithmetic in binary64 is exact.\<close>
definition safe_int :: "int \<Rightarrow> bool" where
  "safe_int n \<longleftrightarrow> \<bar>n\<bar> \<le> 2 ^ 53"

lemma round_int_safe [simp]: "safe_int n \<Longrightarrow> round_int n = Fin n"
proof -
  assume "safe_int n"
  then have small: "nat \<bar>n\<bar> \<le> 2 ^ 53" by (simp add: safe_int_def nat_le_iff)
  also have "(2::nat) ^ 53 < 2 ^ 1024" by (rule power_strict_increasing) auto
  finally show ?thesis
    using small by (simp only: round_int_def round_nat_def Let_def if_True not_le [symmetric]
        if_False simp_thms int_nat_eq) (simp add: sgn_mult_abs)
qed

text \<open>\<open>a - b\<close> on integral Numbers, and the sign a sort comparator reads from it.\<close>
fun number_sub :: "number \<Rightarrow> number \<Rightarrow> number" where
  "number_sub NaN b = NaN"
| "number_sub a NaN = NaN"
| "number_sub (Infinity s) (Infinity t) = (if s = t then NaN else Infinity s)"
| "number_sub (Infinity s) (Fin b) = Infinity s"
| "number_sub (Fin a) (Infinity t) = Infinity (\<not> t)"
| "number_sub (Fin a) (Fin b) = round_int (a - b)"

text \<open>What \<open>sort\<close> makes of a comparator's result: its sign, with \<open>NaN\<close> read as a tie.\<close>
fun number_sign :: "number \<Rightarrow> int" where
  "number_sign NaN = 0"
| "number_sign (Infinity s) = (if s then -1 else 1)"
| "number_sign (Fin n) = sgn n"

lemma round_nat_pos: "0 < round_nat a \<longleftrightarrow> 0 < a"
proof (cases "a \<le> 2 ^ 53")
  case True
  then show ?thesis by (simp add: round_nat_def)
next
  case False
  let ?k = "floorlog 2 a - 53"
  from False have "a \<noteq> 0" by (intro notI) simp
  then have "2 ^ (floorlog 2 a - 1) \<le> a"
    using floorlog_bounds [of a 2] by simp
  moreover have "(2::nat) ^ ?k \<le> 2 ^ (floorlog 2 a - 1)"
    by (intro power_increasing) auto
  ultimately have "2 ^ ?k \<le> a" by linarith
  then have "0 < a div 2 ^ ?k" by (simp add: div_greater_zero_iff)
  with False \<open>a \<noteq> 0\<close> show ?thesis by (simp add: round_nat_def Let_def)
qed

lemma number_sign_round [simp]: "number_sign (round_int n) = sgn n"
proof -
  have "n \<noteq> 0 \<Longrightarrow> 0 < round_nat (nat \<bar>n\<bar>)"
    by (simp add: round_nat_pos)
  moreover have "round_nat 0 = 0" by (simp add: round_nat_def)
  ultimately show ?thesis
    by (cases n "0 :: int" rule: linorder_cases) (auto simp: round_int_def Let_def)
qed

end
