(* ===== verification/Decimals.thy ===== *)
theory Decimals
  imports Numbers
begin

text \<open>
  Decimal values \<open>m * 10 ^ e\<close> in lowest terms, the text \<open>Number::toString\<close> gives
  them (plain, fractional and exponent forms), the number tokens of the JSON grammar,
  and the round trip between the two. \<open>String(n)\<close> of an integral Number and
  \<open>Number.parseInt\<close> are here as well.
\<close>

section \<open>Decimal values\<close>

datatype dec = Dec (mantissa: int) (dexp: int)

definition dec_ok :: "dec \<Rightarrow> bool" where
  "dec_ok d \<longleftrightarrow> (if mantissa d = 0 then dexp d = 0 else mantissa d mod 10 \<noteq> 0)"

text \<open>Move trailing zeros of a mantissa into the exponent.\<close>
function strip_zeros :: "nat \<Rightarrow> nat \<Rightarrow> nat \<times> nat" where
  "strip_zeros m j = (if m = 0 \<or> m mod 10 \<noteq> 0 then (m, j) else strip_zeros (m div 10) (Suc j))"
  by pat_completeness auto
termination
  by (relation "measure fst") auto

declare strip_zeros.simps [simp del]

definition norm_dec :: "int \<Rightarrow> int \<Rightarrow> dec" where
  "norm_dec m e =
     (if m = 0 then Dec 0 0
      else case strip_zeros (nat \<bar>m\<bar>) 0 of (a, j) \<Rightarrow> Dec (sgn m * int a) (e + int j))"

lemma strip_zeros_last: "m mod 10 \<noteq> 0 \<Longrightarrow> strip_zeros m j = (m, j)"
  by (subst strip_zeros.simps) simp

lemma strip_zeros_times_10: "0 < m \<Longrightarrow> strip_zeros (10 * m) j = strip_zeros m (Suc j)"
  by (subst strip_zeros.simps) simp

lemma strip_zeros_shift: "0 < m \<Longrightarrow> strip_zeros (m * 10 ^ i) j = strip_zeros m (j + i)"
proof (induction i arbitrary: j)
  case 0
  then show ?case by simp
next
  case (Suc i)
  have "strip_zeros (m * 10 ^ Suc i) j = strip_zeros (10 * (m * 10 ^ i)) j"
    by (simp add: ac_simps)
  also have "\<dots> = strip_zeros (m * 10 ^ i) (Suc j)"
    using Suc.prems by (intro strip_zeros_times_10) simp
  finally show ?case using Suc by simp
qed

lemma strip_zeros_add:
  "strip_zeros m (j + i) = (fst (strip_zeros m j), snd (strip_zeros m j) + i)"
proof (induction m j rule: strip_zeros.induct)
  case (1 m j)
  then show ?case
    by (subst strip_zeros.simps, subst (2 3) strip_zeros.simps) (auto simp: add.commute)
qed

lemma strip_zeros_result:
  "0 < m \<Longrightarrow> fst (strip_zeros m j) mod 10 \<noteq> 0 \<and> 0 < fst (strip_zeros m j)"
proof (induction m j rule: strip_zeros.induct)
  case (1 m j)
  show ?case
  proof (cases "m mod 10 = 0")
    case True
    with 1 have "fst (strip_zeros (m div 10) (Suc j)) mod 10 \<noteq> 0
        \<and> 0 < fst (strip_zeros (m div 10) (Suc j))"
      by auto
    moreover have "strip_zeros m j = strip_zeros (m div 10) (Suc j)"
      using True "1.prems" by (subst strip_zeros.simps) simp
    ultimately show ?thesis by simp
  next
    case False
    with "1.prems" show ?thesis by (simp add: strip_zeros_last)
  qed
qed

lemma strip_zeros_value:
  "j \<le> snd (strip_zeros m j) \<and> m = fst (strip_zeros m j) * 10 ^ (snd (strip_zeros m j) - j)"
proof (induction m j rule: strip_zeros.induct)
  case (1 m j)
  show ?case
  proof (cases "m = 0 \<or> m mod 10 \<noteq> 0")
    case True
    then show ?thesis by (subst (1 2 3) strip_zeros.simps) simp
  next
    case False
    let ?r = "strip_zeros (m div 10) (Suc j)"
    have eq: "strip_zeros m j = ?r" using False by (subst strip_zeros.simps) simp
    from False 1 have le: "Suc j \<le> snd ?r" and val: "m div 10 = fst ?r * 10 ^ (snd ?r - Suc j)"
      by auto
    have "m = 10 * (m div 10)" using False by auto
    also have "\<dots> = fst ?r * (10 * 10 ^ (snd ?r - Suc j))" by (subst val) simp
    also have "10 * 10 ^ (snd ?r - Suc j) = 10 ^ (snd ?r - j)"
      using le by (metis Suc_diff_le Suc_leI diff_Suc_Suc le_imp_less_Suc power_Suc)
    finally show ?thesis using le eq by simp
  qed
qed

text \<open>Every normalised decimal is in lowest terms, and a value in lowest terms is itself.\<close>
lemma norm_dec_ok [simp]: "dec_ok (norm_dec m e)"
proof (cases "m = 0")
  case True
  then show ?thesis by (simp add: norm_dec_def dec_ok_def)
next
  case False
  obtain a j where aj: "strip_zeros (nat \<bar>m\<bar>) 0 = (a, j)" by (cases "strip_zeros (nat \<bar>m\<bar>) 0")
  with False have "a mod 10 \<noteq> 0" and "0 < a"
    using strip_zeros_result [of "nat \<bar>m\<bar>" 0] by auto
  then have "int a mod 10 \<noteq> 0" by presburger
  moreover have "- int a mod 10 \<noteq> 0" using \<open>a mod 10 \<noteq> 0\<close> by presburger
  ultimately show ?thesis
    using False aj \<open>0 < a\<close> by (auto simp: norm_dec_def dec_ok_def sgn_if)
qed

lemma norm_dec_id: "dec_ok d \<Longrightarrow> norm_dec (mantissa d) (dexp d) = d"
proof (cases d)
  case (Dec m e)
  assume ok: "dec_ok d"
  show ?thesis
  proof (cases "m = 0")
    case True
    with ok Dec show ?thesis by (simp add: norm_dec_def dec_ok_def)
  next
    case False
    with ok Dec have "m mod 10 \<noteq> 0" by (simp add: dec_ok_def)
    then have "\<not> 10 dvd m" by (simp add: dvd_eq_mod_eq_0)
    then have "\<not> 10 dvd \<bar>m\<bar>" by (simp only: dvd_abs_iff not_False_eq_True)
    moreover have "int (nat \<bar>m\<bar> mod 10) = \<bar>m\<bar> mod 10" by (simp add: zmod_int)
    ultimately have "nat \<bar>m\<bar> mod 10 \<noteq> 0" by (auto simp: dvd_eq_mod_eq_0)
    with False Dec show ?thesis
      by (simp add: norm_dec_def strip_zeros_last sgn_mult_abs)
  qed
qed

lemma norm_dec_shift: "norm_dec (m * 10 ^ j) e = norm_dec m (e + int j)"
proof (cases "m = 0")
  case True
  then show ?thesis by (simp add: norm_dec_def)
next
  case False
  have "nat \<bar>m * 10 ^ j\<bar> = nat \<bar>m\<bar> * 10 ^ j"
    by (simp add: abs_mult nat_mult_distrib nat_power_eq)
  moreover have "strip_zeros (nat \<bar>m\<bar> * 10 ^ j) 0 = strip_zeros (nat \<bar>m\<bar>) (0 + j)"
    using False by (simp add: strip_zeros_shift)
  ultimately show ?thesis
    using False strip_zeros_add [of "nat \<bar>m\<bar>" 0 j]
    by (simp add: norm_dec_def sgn_mult split: prod.split)
qed

section \<open>Number tokens\<close>

text \<open>
  The general shape of a token: sign, integer part, optional fraction, optional
  exponent. \<open>Number::toString\<close> chooses one by the position of the decimal point.
\<close>
definition number_form :: "bool \<Rightarrow> nat list \<Rightarrow> nat list \<Rightarrow> int option \<Rightarrow> jstring" where
  "number_form neg ip fp ex =
     (if neg then [45] else []) @ map digit_char ip
     @ (if fp = [] then [] else 46 # map digit_char fp)
     @ (case ex of None \<Rightarrow> []
        | Some x \<Rightarrow> 101 # (if x < 0 then 45 else 43) # nat_text (nat \<bar>x\<bar>))"

definition dec_text :: "dec \<Rightarrow> jstring" where
  "dec_text d =
     (if mantissa d = 0 then [48]
      else
        let neg = mantissa d < 0; ds = digits (nat \<bar>mantissa d\<bar>);
            k = int (length ds); n = k + dexp d
        in if k \<le> n \<and> n \<le> 21 then number_form neg (ds @ replicate (nat (n - k)) 0) [] None
           else if 0 < n \<and> n \<le> 21 then number_form neg (take (nat n) ds) (drop (nat n) ds) None
           else if - 6 < n \<and> n \<le> 0 then number_form neg [0] (replicate (nat (- n)) 0 @ ds) None
           else number_form neg [hd ds] (tl ds) (Some (n - 1)))"

definition span :: "(jchar \<Rightarrow> bool) \<Rightarrow> jstring \<Rightarrow> jstring \<times> jstring" where
  "span p s = (takeWhile p s, dropWhile p s)"

fun parse_frac :: "jstring \<Rightarrow> (jstring \<times> jstring) option" where
  "parse_frac [] = Some ([], [])"
| "parse_frac (c # r) =
     (if c = 46
      then (case span is_digit r of (fp, r') \<Rightarrow> if fp = [] then None else Some (fp, r'))
      else Some ([], c # r))"

fun parse_sign :: "jstring \<Rightarrow> bool \<times> jstring" where
  "parse_sign [] = (False, [])"
| "parse_sign (c # r) = (if c = 45 then (True, r) else if c = 43 then (False, r) else (False, c # r))"

fun parse_exp :: "jstring \<Rightarrow> (int \<times> jstring) option" where
  "parse_exp [] = Some (0, [])"
| "parse_exp (c # r) =
     (if c = 101 \<or> c = 69
      then (case parse_sign r of (neg, r') \<Rightarrow>
              case span is_digit r' of (ds, r'') \<Rightarrow>
                if ds = [] then None
                else Some ((if neg then - 1 else 1) * int (text_val ds), r''))
      else Some (0, c # r))"

fun parse_minus :: "jstring \<Rightarrow> bool \<times> jstring" where
  "parse_minus [] = (False, [])"
| "parse_minus (c # r) = (if c = 45 then (True, r) else (False, c # r))"

definition parse_number :: "jstring \<Rightarrow> (dec \<times> jstring) option" where
  "parse_number s =
     (case parse_minus s of (neg, s1) \<Rightarrow>
      case span is_digit s1 of (ip, s2) \<Rightarrow>
        if ip = [] \<or> (1 < length ip \<and> hd ip = 48) then None
        else case parse_frac s2 of None \<Rightarrow> None
        | Some (fp, s3) \<Rightarrow>
            (case parse_exp s3 of None \<Rightarrow> None
             | Some (x, s4) \<Rightarrow>
                 Some (norm_dec ((if neg then - 1 else 1) * int (text_val (ip @ fp)))
                         (x - int (length fp)), s4)))"

text \<open>A text at which a number token ends.\<close>
definition ends_number :: "jstring \<Rightarrow> bool" where
  "ends_number r \<longleftrightarrow> r = [] \<or> (\<not> is_digit (hd r) \<and> hd r \<noteq> 46 \<and> hd r \<noteq> 101 \<and> hd r \<noteq> 69)"

lemma span_digits:
  assumes "\<And>d. d \<in> set ds \<Longrightarrow> d < 10" and "r = [] \<or> \<not> is_digit (hd r)"
  shows "span is_digit (map digit_char ds @ r) = (map digit_char ds, r)"
proof -
  have "takeWhile is_digit (map digit_char ds @ r) = map digit_char ds @ takeWhile is_digit r"
    using assms(1) by (intro takeWhile_append2) auto
  moreover have "dropWhile is_digit (map digit_char ds @ r) = dropWhile is_digit r"
    using assms(1) by (intro dropWhile_append2) auto
  ultimately show ?thesis
    using assms(2) by (cases r) (auto simp: span_def)
qed

lemma parse_exp_form:
  assumes "ends_number r"
  shows "parse_exp ((case ex of None \<Rightarrow> []
           | Some x \<Rightarrow> 101 # (if x < 0 then 45 else 43) # nat_text (nat \<bar>x\<bar>)) @ r)
         = Some (or_else ex 0, r)"
proof (cases ex)
  case None
  with assms show ?thesis by (cases r) (auto simp: ends_number_def)
next
  case (Some x)
  have "span is_digit (nat_text (nat \<bar>x\<bar>) @ r) = (nat_text (nat \<bar>x\<bar>), r)"
    unfolding nat_text_def using assms digits_small
    by (intro span_digits) (auto simp: ends_number_def)
  with Some show ?thesis by (cases "x < 0") simp_all
qed

lemma parse_number_form:
  assumes ip: "ip \<noteq> []" "length ip \<le> 1 \<or> hd ip \<noteq> 0"
    and small: "\<And>d. d \<in> set ip \<union> set fp \<Longrightarrow> d < 10"
    and r: "ends_number r"
  shows "parse_number (number_form neg ip fp ex @ r) =
    Some (norm_dec ((if neg then - 1 else 1) * int (digits_val (ip @ fp)))
            (or_else ex 0 - int (length fp)), r)"
proof -
  let ?ex = "case ex of None \<Rightarrow> []
     | Some x \<Rightarrow> 101 # (if x < 0 then 45 else 43) # nat_text (nat \<bar>x\<bar>)"
  let ?fp = "if fp = [] then [] else 46 # map digit_char fp"
  have ex_end: "?ex @ r = [] \<or> \<not> is_digit (hd (?ex @ r))" and ex_dot: "?ex @ r \<noteq> [] \<Longrightarrow> hd (?ex @ r) \<noteq> 46"
    using r by (auto simp: ends_number_def is_digit_def split: option.split)
  have minus: "parse_minus (number_form neg ip fp ex @ r) = (neg, map digit_char ip @ ?fp @ ?ex @ r)"
  proof -
    have "digit_char (hd ip) \<noteq> 45"
      using small [of "hd ip"] ip(1) is_digit_char [of "hd ip"] by (auto simp: is_digit_def)
    then show ?thesis
      using ip(1) by (cases ip) (auto simp: number_form_def)
  qed
  have int_part: "span is_digit (map digit_char ip @ ?fp @ ?ex @ r) = (map digit_char ip, ?fp @ ?ex @ r)"
    using small ex_end by (intro span_digits) (auto simp: is_digit_def)
  have frac: "parse_frac (?fp @ ?ex @ r) = Some (map digit_char fp, ?ex @ r)"
  proof (cases "fp = []")
    case True
    with ex_dot show ?thesis by (cases "?ex @ r") auto
  next
    case False
    have "span is_digit (map digit_char fp @ ?ex @ r) = (map digit_char fp, ?ex @ r)"
      using small ex_end by (intro span_digits) auto
    with False show ?thesis by simp
  qed
  have lead: "\<not> (1 < length ip \<and> hd (map digit_char ip) = 48)"
    using ip small by (cases ip) auto
  have "text_val (map digit_char ip @ map digit_char fp) = digits_val (ip @ fp)"
    using small text_val_digits [of "ip @ fp"] by auto
  then show ?thesis
    using minus int_part frac lead parse_exp_form [OF r, of ex] ip(1)
    by (simp add: parse_number_def)
qed

lemma tl_digits_small: "d \<in> set (tl (digits a)) \<Longrightarrow> d < 10"
  using digits_small list.set_sel(2) [OF digits_nonempty] by blast

text \<open>Printing a value in lowest terms and reading the token back gives the value.\<close>
lemma parse_number_dec_text:
  assumes ok: "dec_ok d" and r: "ends_number r"
  shows "parse_number (dec_text d @ r) = Some (d, r)"
proof (cases "mantissa d = 0")
  case True
  with ok have d: "d = Dec 0 0" by (cases d) (simp add: dec_ok_def)
  have "parse_number (number_form False [0] [] None @ r) = Some (norm_dec 0 0, r)"
    using parse_number_form [OF _ _ _ r, of "[0]" "[]" False None]
    by (simp add: digits_val_def)
  moreover have "number_form False [0] [] None = [48]"
    by (simp add: number_form_def digit_char_def)
  ultimately show ?thesis
    using d by (simp add: dec_text_def norm_dec_def)
next
  case False
  define neg where "neg = (mantissa d < 0)"
  define a where "a = nat \<bar>mantissa d\<bar>"
  define k where "k = int (length (digits a))"
  define n where "n = k + dexp d"
  have a: "0 < a" using False by (simp add: a_def)
  have sgn: "(if neg then - 1 else 1) * int a = mantissa d"
    using False by (simp add: neg_def a_def)
  have k: "0 < k" by (simp add: k_def)
  have norm: "norm_dec (mantissa d) (dexp d) = d" using ok by (rule norm_dec_id)
  have hd: "hd (digits a) \<noteq> 0" using a by (rule hd_digits)
  note form = parse_number_form [OF _ _ _ r]
  have shape: "dec_text d =
      (if k \<le> n \<and> n \<le> 21 then number_form neg (digits a @ replicate (nat (n - k)) 0) [] None
       else if 0 < n \<and> n \<le> 21 then number_form neg (take (nat n) (digits a)) (drop (nat n) (digits a)) None
       else if - 6 < n \<and> n \<le> 0 then number_form neg [0] (replicate (nat (- n)) 0 @ digits a) None
       else number_form neg [hd (digits a)] (tl (digits a)) (Some (n - 1)))"
    using False by (simp add: dec_text_def Let_def a_def k_def n_def neg_def)
  consider "k \<le> n" "n \<le> 21" | "n < k" "0 < n" "n \<le> 21" | "- 6 < n" "n \<le> 0"
    | "21 < n \<or> n \<le> - 6" by linarith
  then show ?thesis
  proof cases
    case 1
    have "parse_number (number_form neg (digits a @ replicate (nat (n - k)) 0) [] None @ r)
        = Some (norm_dec ((if neg then - 1 else 1) * int (a * 10 ^ nat (n - k))) 0, r)"
      using hd by (subst form) (auto simp: digits_val_append dest: digits_small)
    also have "(if neg then - 1 else 1) * int (a * 10 ^ nat (n - k)) = mantissa d * 10 ^ nat (n - k)"
      by (simp flip: sgn)
    also have "norm_dec (mantissa d * 10 ^ nat (n - k)) 0 = d"
      using 1 norm by (simp add: norm_dec_shift n_def)
    finally show ?thesis
      using 1 by (simp add: shape)
  next
    case 2
    have "parse_number (number_form neg (take (nat n) (digits a)) (drop (nat n) (digits a)) None @ r)
        = Some (norm_dec ((if neg then - 1 else 1) * int a) (0 - int (length (drop (nat n) (digits a)))), r)"
      using hd 2 by (subst form) (auto dest: in_set_takeD in_set_dropD digits_small)
    also have "0 - int (length (drop (nat n) (digits a))) = dexp d"
      using 2 by (simp add: n_def k_def)
    finally show ?thesis
      using 2 norm by (simp add: shape sgn)
  next
    case 3
    have "parse_number (number_form neg [0] (replicate (nat (- n)) 0 @ digits a) None @ r)
        = Some (norm_dec ((if neg then - 1 else 1) * int a)
                  (0 - int (length (replicate (nat (- n)) (0 :: nat) @ digits a))), r)"
      by (subst form) (auto simp: digits_val_append digits_val_def [of "0 # _"] simp flip: digits_val_def dest: digits_small)
    also have "0 - int (length (replicate (nat (- n)) (0 :: nat) @ digits a)) = dexp d"
      using 3 by (simp add: n_def k_def)
    finally show ?thesis
      using 3 k norm by (simp add: shape sgn)
  next
    case 4
    have "parse_number (number_form neg [hd (digits a)] (tl (digits a)) (Some (n - 1)) @ r)
        = Some (norm_dec ((if neg then - 1 else 1) * int a) (n - 1 - int (length (tl (digits a)))), r)"
      using digits_small [OF hd_in_set [OF digits_nonempty [of a]]]
      by (subst form) (auto dest!: tl_digits_small)
    also have "int (length (tl (digits a))) = k - 1"
      by (simp add: k_def of_nat_diff Suc_le_eq)
    also have "n - 1 - (k - 1) = dexp d" by (simp add: n_def)
    finally show ?thesis
      using 4 k norm by (auto simp: shape sgn)
  qed
qed

text \<open>A number token starts with a digit or a minus sign.\<close>
lemma hd_number_form:
  assumes "ip \<noteq> []" and "\<And>d. d \<in> set ip \<Longrightarrow> d < 10"
  shows "number_form neg ip fp ex \<noteq> [] \<and>
    (is_digit (hd (number_form neg ip fp ex)) \<or> hd (number_form neg ip fp ex) = 45)"
  using assms by (cases ip) (auto simp: number_form_def)

lemma hd_dec_text: "dec_text d \<noteq> [] \<and> (is_digit (hd (dec_text d)) \<or> hd (dec_text d) = 45)"
proof (cases "mantissa d = 0")
  case True
  then show ?thesis by (simp add: dec_text_def is_digit_def)
next
  case False
  have "d' < 10" if "d' \<in> set (take n (digits a))" for d' n a
    using that by (auto dest: in_set_takeD digits_small)
  moreover have "hd (digits a) < 10" for a
    by (rule digits_small [OF hd_in_set]) simp
  ultimately show ?thesis
    using False by (auto simp: dec_text_def Let_def dest: digits_small intro!: hd_number_form split: if_splits)
qed

section \<open>Integral Numbers as text\<close>

text \<open>
  \<open>Number::toString\<close> takes the fewest digits that still round to the same Number, and of
  those the closest value. Up to \<open>2 ^ 53\<close> that is the integer itself.
\<close>
definition closest_multiple :: "nat \<Rightarrow> nat \<Rightarrow> nat" where
  "closest_multiple step a =
     (let lo = a div step * step; hi = lo + step
      in if a - lo < hi - a \<or> (a - lo = hi - a \<and> even (a div step)) then lo else hi)"

definition shortest :: "nat \<Rightarrow> nat" where
  "shortest a =
     (if a \<le> 2 ^ 53 then a
      else case find_first (\<lambda>c. round_nat c = a)
             (map (\<lambda>k. closest_multiple (10 ^ (length (digits a) - k)) a) [1..<Suc (length (digits a))])
           of None \<Rightarrow> a | Some c \<Rightarrow> c)"

definition dec_of_int :: "int \<Rightarrow> dec" where
  "dec_of_int n = norm_dec (sgn n * int (shortest (nat \<bar>n\<bar>))) 0"

definition number_text :: "number \<Rightarrow> jstring" where
  "number_text n =
     (case n of NaN \<Rightarrow> js ''NaN''
      | Infinity neg \<Rightarrow> (if neg then js ''-Infinity'' else js ''Infinity'')
      | Fin i \<Rightarrow> dec_text (dec_of_int i))"

text \<open>\<open>Number.parseInt(raw, 10)\<close>: leading white space, a sign, the longest run of digits.\<close>
definition parse_int10 :: "jstring \<Rightarrow> number" where
  "parse_int10 raw =
     (case parse_sign (trim_start raw) of (neg, s) \<Rightarrow>
        let ds = takeWhile is_digit s
        in if ds = [] then NaN else round_int ((if neg then - 1 else 1) * int (text_val ds)))"

lemma dec_of_int_safe: "safe_int n \<Longrightarrow> dec_of_int n = norm_dec n 0"
  by (simp add: dec_of_int_def shortest_def safe_int_def nat_le_iff sgn_mult_abs)

lemma dec_text_integer:
  assumes "\<bar>n\<bar> < 10 ^ 21" and "n \<noteq> 0"
  shows "dec_text (norm_dec n 0) = (if n < 0 then [45] else []) @ nat_text (nat \<bar>n\<bar>)"
proof -
  define a where "a = nat \<bar>n\<bar>"
  obtain b j where bj: "strip_zeros a 0 = (b, j)" by (cases "strip_zeros a 0")
  have a: "0 < a" "a < 10 ^ 21" using assms by (auto simp: a_def nat_less_iff)
  then have b: "0 < b" using bj strip_zeros_result [of a 0] by simp
  have a_eq: "a = b * 10 ^ j"
    using bj strip_zeros_value [where m = a and j = 0] by simp
  have digs: "digits a = digits b @ replicate j 0"
    using b by (simp add: a_eq digits_shift)
  have len: "length (digits b) + j \<le> 21"
    using digits_length_bound [of a 21] a digs by simp
  have norm: "norm_dec n 0 = Dec (sgn n * int b) (int j)"
    using assms(2) bj by (simp add: norm_dec_def a_def)
  have "nat \<bar>sgn n * int b\<bar> = b" "sgn n * int b < 0 \<longleftrightarrow> n < 0" "sgn n * int b \<noteq> 0"
    using assms(2) b by (auto simp: sgn_if)
  then show ?thesis
    using len digs by (simp add: dec_text_def norm Let_def number_form_def nat_text_def flip: a_def)
qed

text \<open>Printing an integer the contract can hold and parsing it back gives it again.\<close>
lemma parse_int10_number_text:
  assumes "safe_int n"
  shows "parse_int10 (number_text (Fin n)) = Fin n"
proof (cases "n = 0")
  case True
  then show ?thesis
    by (simp add: number_text_def dec_of_int_safe norm_dec_def dec_text_def safe_int_def
        parse_int10_def trim_start_def is_space_def is_digit_def text_val_def digit_of_def
        digits_val_def Let_def)
next
  case False
  have "\<bar>n\<bar> < 10 ^ 21" using assms by (simp add: safe_int_def)
  with False assms have eqn: "number_text (Fin n) = (if n < 0 then [45] else []) @ nat_text (nat \<bar>n\<bar>)"
    by (simp add: number_text_def dec_of_int_safe dec_text_integer)
  obtain c r where c: "nat_text (nat \<bar>n\<bar>) = c # r" by (cases "nat_text (nat \<bar>n\<bar>)") auto
  have dig: "is_digit c" using nat_text_digits [of c "nat \<bar>n\<bar>"] c by simp
  then have "c \<noteq> 45" "c \<noteq> 43" by (auto simp: is_digit_def)
  moreover have "\<not> is_space c" using dig by (rule is_digit_not_space)
  moreover have "\<not> is_space 45" by (simp add: is_space_def)
  ultimately have "parse_sign (trim_start (number_text (Fin n))) = (n < 0, nat_text (nat \<bar>n\<bar>))"
    unfolding eqn c by (simp add: trim_start_def)
  moreover have "takeWhile is_digit (nat_text (nat \<bar>n\<bar>)) = nat_text (nat \<bar>n\<bar>)"
    by (simp add: takeWhile_eq_all_conv nat_text_digits del: abs_of_nonneg)
  moreover have "(if n < 0 then - 1 else 1) * int (nat \<bar>n\<bar>) = n" by simp
  ultimately show ?thesis
    using assms by (simp only: parse_int10_def Let_def prod.case nat_text_nonempty if_False
        text_val_nat_text round_int_safe)
qed

text \<open>Any run of digits is read, and rounded; past the largest double it is an infinity.\<close>
lemma parse_int10_nat_text: "parse_int10 (nat_text n) = round_int (int n)"
proof -
  obtain c r where c: "nat_text n = c # r" by (cases "nat_text n") auto
  have dig: "is_digit c" using nat_text_digits [of c n] c by simp
  then have "c \<noteq> 45" "c \<noteq> 43" "\<not> is_space c" by (auto simp: is_digit_def is_digit_not_space)
  then have "parse_sign (trim_start (nat_text n)) = (False, nat_text n)"
    unfolding c by (simp add: trim_start_def)
  moreover have "takeWhile is_digit (nat_text n) = nat_text n"
    using nat_text_digits [of _ n] by (simp only: takeWhile_eq_all_conv) blast
  ultimately show ?thesis
    by (simp only: parse_int10_def Let_def prod.case nat_text_nonempty if_False text_val_nat_text mult_1)
qed

lemma floorlog_limit: "floorlog 2 (2 ^ 1024) = 1025"
proof -
  have "floorlog 2 (1 * 2 ^ 1024) = floorlog 2 1 + 1024" by (rule floorlog_power) simp_all
  moreover have "floorlog 2 (1::nat) = 1" by (simp add: compute_floorlog)
  ultimately have "floorlog 2 (2 ^ 1024) = 1 + 1024" by (simp only: mult_1)
  then show ?thesis by (simp only:)
qed

lemma round_huge: "round_int (2 ^ 1024) = Infinity False"
proof -
  have big: "\<not> (2::nat) ^ 1024 \<le> 2 ^ 53" by simp
  have "round_nat (2 ^ 1024) = 2 ^ 1024"
    unfolding round_nat_def Let_def floorlog_limit if_not_P [OF big]  by simp
  moreover have "nat \<bar>2 ^ 1024 :: int\<bar> = 2 ^ 1024" by (simp add: nat_power_eq del: power_numeral)
  ultimately show ?thesis by (simp only: round_int_def Let_def) simp
qed

end
