(* ===== verification/Json.thy ===== *)
theory Json
  imports Decimals "HOL-Library.Monad_Syntax"
begin

text \<open>
  The JSON values of the contract (\<open>JsonValue\<close> of \<open>types.ts\<close>) with
  \<open>JSON.stringify\<close> (compact, and indented by a gap) and \<open>JSON.parse\<close> as ECMA-262
  defines them on UTF-16 code units.

  Objects are association lists in JavaScript's property order: array-index keys
  first, ascending, then the others in insertion order, each key once. \<open>wf_json\<close> is
  that shape; everything \<open>JSON.parse\<close> returns has it. The parser spends one unit of fuel
  per value, element or member; \<open>Suc (2 * length s)\<close> is always enough
  (\<open>parse_fuel_enough\<close>), so its \<open>None\<close> is a \<open>SyntaxError\<close> and nothing else.
  The interface the form serializers use is the locale \<open>json_codec\<close>.
\<close>

section \<open>Values\<close>

datatype json =
    JNull
  | JBool bool
  | JNum dec
  | JStr jstring
  | JArr "json list"
  | JObj "(jstring \<times> json) list"

type_synonym json_object = "(jstring \<times> json) list"

subsection \<open>Property order\<close>

text \<open>A canonical array index: the decimal text of an integer below \<open>2 ^ 32 - 1\<close>.\<close>
definition index_of :: "jstring \<Rightarrow> nat option" where
  "index_of k =
     (if nat_text (text_val k) = k \<and> text_val k < 4294967295 then Some (text_val k) else None)"

definition before :: "jstring \<Rightarrow> jstring \<Rightarrow> bool" where
  "before k l =
     (case index_of k of None \<Rightarrow> False
      | Some i \<Rightarrow> (case index_of l of None \<Rightarrow> True | Some j \<Rightarrow> i < j))"

text \<open>Create or overwrite a property, keeping the property order.\<close>
fun obj_put :: "jstring \<Rightarrow> 'v \<Rightarrow> (jstring \<times> 'v) list \<Rightarrow> (jstring \<times> 'v) list" where
  "obj_put k v [] = [(k, v)]"
| "obj_put k v ((l, w) # r) =
     (if k = l then (k, v) # r
      else if before k l then (k, v) # (l, w) # r
      else (l, w) # obj_put k v r)"

definition canonical :: "jstring list \<Rightarrow> bool" where
  "canonical ks \<longleftrightarrow> sorted_wrt (\<lambda>a b. a \<noteq> b \<and> \<not> before b a) ks"

fun wf_json :: "json \<Rightarrow> bool" where
  "wf_json (JNum d) = dec_ok d"
| "wf_json (JArr vs) = list_all wf_json vs"
| "wf_json (JObj kvs) = (canonical (map fst kvs) \<and> list_all (\<lambda>kv. wf_json (snd kv)) kvs)"
| "wf_json _ = True"

definition wf_object :: "json_object \<Rightarrow> bool" where
  "wf_object kvs = wf_json (JObj kvs)"

lemma before_irrefl [simp]: "\<not> before k k"
  by (simp add: before_def split: option.split)

lemma before_trans: "before a b \<Longrightarrow> before b c \<Longrightarrow> before a c"
  by (auto simp: before_def split: option.splits)

lemma set_obj_put: "fst ` set (obj_put k v kvs) \<subseteq> insert k (fst ` set kvs)"
  by (induction k v kvs rule: obj_put.induct) auto

lemma obj_put_fresh:
  "(\<And>l. l \<in> fst ` set kvs \<Longrightarrow> l \<noteq> k \<and> \<not> before k l) \<Longrightarrow> obj_put k v kvs = kvs @ [(k, v)]"
  by (induction k v kvs rule: obj_put.induct) auto

lemma obj_put_lookup: "map_of (obj_put k v kvs) = (map_of kvs)(k \<mapsto> v)"
  by (induction k v kvs rule: obj_put.induct) (auto simp: fun_eq_iff)

lemma canonical_obj_put: "canonical (map fst kvs) \<Longrightarrow> canonical (map fst (obj_put k v kvs))"
proof (induction k v kvs rule: obj_put.induct)
  case (1 k v)
  then show ?case by (simp add: canonical_def)
next
  case (2 k v l w r)
  then have l: "\<forall>a\<in>fst ` set r. l \<noteq> a \<and> \<not> before a l" and r: "canonical (map fst r)"
    by (auto simp: canonical_def)
  show ?case
  proof (cases "k = l \<or> before k l")
    case True
    with "2.prems" l show ?thesis by (auto simp: canonical_def dest: before_trans)
  next
    case False
    with "2.IH" r have "canonical (map fst (obj_put k v r))" by simp
    moreover have "\<forall>a\<in>fst ` set (obj_put k v r). l \<noteq> a \<and> \<not> before a l"
      using False l set_obj_put [of k v r] by blast
    ultimately show ?thesis
      using False by (auto simp: canonical_def)
  qed
qed

lemma all_obj_put:
  "list_all (\<lambda>kv. P (snd kv)) kvs \<Longrightarrow> P v \<Longrightarrow> list_all (\<lambda>kv. P (snd kv)) (obj_put k v kvs)"
  by (induction k v kvs rule: obj_put.induct) auto

section \<open>Strings and white space\<close>

definition is_json_ws :: "jchar \<Rightarrow> bool" where
  "is_json_ws c \<longleftrightarrow> c = 32 \<or> c = 9 \<or> c = 10 \<or> c = 13"

definition skip_ws :: "jstring \<Rightarrow> jstring" where
  "skip_ws s = dropWhile is_json_ws s"

definition hex_char :: "nat \<Rightarrow> jchar" where
  "hex_char d = of_nat (if d < 10 then 48 + d else 87 + d)"

definition hex_of :: "jchar \<Rightarrow> nat option" where
  "hex_of c =
     (if 48 \<le> c \<and> c \<le> 57 then Some (unat c - 48)
      else if 65 \<le> c \<and> c \<le> 70 then Some (unat c - 55)
      else if 97 \<le> c \<and> c \<le> 102 then Some (unat c - 87)
      else None)"

text \<open>\<open>\\u\<close> and four lower-case hexadecimal digits.\<close>
definition u_escape :: "jchar \<Rightarrow> jstring" where
  "u_escape c =
     (let n = unat c
      in [92, 117, hex_char (n div 4096), hex_char (n div 256 mod 16),
          hex_char (n div 16 mod 16), hex_char (n mod 16)])"

definition is_high :: "jchar \<Rightarrow> bool" where
  "is_high c \<longleftrightarrow> 0xD800 \<le> c \<and> c \<le> 0xDBFF"

definition is_low :: "jchar \<Rightarrow> bool" where
  "is_low c \<longleftrightarrow> 0xDC00 \<le> c \<and> c \<le> 0xDFFF"

definition escape_char :: "jchar \<Rightarrow> jstring" where
  "escape_char c =
     (if c = 34 then [92, 34] else if c = 92 then [92, 92]
      else if c = 8 then [92, 98] else if c = 12 then [92, 102]
      else if c = 10 then [92, 110] else if c = 13 then [92, 114]
      else if c = 9 then [92, 116]
      else if c < 32 \<or> is_high c \<or> is_low c then u_escape c
      else [c])"

text \<open>A surrogate pair is written as it is; a lone surrogate is escaped.\<close>
fun quote_body :: "jstring \<Rightarrow> jstring" where
  "quote_body (c # d # r) =
     (if is_high c \<and> is_low d then c # d # quote_body r
      else escape_char c @ quote_body (d # r))"
| "quote_body [c] = escape_char c"
| "quote_body [] = []"

definition quote :: "jstring \<Rightarrow> jstring" where
  "quote s = 34 # quote_body s @ [34]"

definition unescape :: "jchar \<Rightarrow> jchar option" where
  "unescape c =
     (if c = 34 then Some 34 else if c = 92 then Some 92 else if c = 47 then Some 47
      else if c = 98 then Some 8 else if c = 102 then Some 12 else if c = 110 then Some 10
      else if c = 114 then Some 13 else if c = 116 then Some 9 else None)"

definition hex4 :: "jchar \<Rightarrow> jchar \<Rightarrow> jchar \<Rightarrow> jchar \<Rightarrow> jchar option" where
  "hex4 a b c d =
     do { w \<leftarrow> hex_of a; x \<leftarrow> hex_of b; y \<leftarrow> hex_of c; z \<leftarrow> hex_of d;
          Some (of_nat (((w * 16 + x) * 16 + y) * 16 + z)) }"

text \<open>The rest of a string literal after its opening quote, and what follows it.\<close>
fun parse_chars :: "jstring \<Rightarrow> (jstring \<times> jstring) option" where
  "parse_chars [] = None"
| "parse_chars (c # r) =
     (if c = 34 then Some ([], r)
      else if c < 32 then None
      else if c = 92 then
        (case r of
           [] \<Rightarrow> None
         | d # r' \<Rightarrow>
             if d = 117 then
               (case r' of
                  w # x # y # z # r'' \<Rightarrow>
                    do { u \<leftarrow> hex4 w x y z; (s, q) \<leftarrow> parse_chars r''; Some (u # s, q) }
                | _ \<Rightarrow> None)
             else do { u \<leftarrow> unescape d; (s, q) \<leftarrow> parse_chars r'; Some (u # s, q) })
      else do { (s, q) \<leftarrow> parse_chars r; Some (c # s, q) })"

lemma hex_of_char: "d < 16 \<Longrightarrow> hex_of (hex_char d) = Some d"
proof -
  assume d: "d < 16"
  define n where "n = (if d < 10 then 48 + d else 87 + d)"
  have "n < 65536" using d by (simp add: n_def)
  then have "unat (hex_char d) = n"
    by (simp add: hex_char_def n_def [symmetric] unat_of_nat take_bit_nat_eq_self)
  then show ?thesis
    using d by (auto simp: hex_of_def word_le_nat_alt n_def)
qed

lemma hex4_u_escape:
  "hex4 (hex_char (unat c div 4096)) (hex_char (unat c div 256 mod 16))
     (hex_char (unat c div 16 mod 16)) (hex_char (unat c mod 16)) = Some c"
proof -
  have "unat c < 2 ^ LENGTH(16)" by (rule unsigned_less)
  then have "unat c < 65536" by simp
  then have "unat c div 4096 < 16" by auto
  moreover have "unat c div 4096 = unat c div 256 div 16" "unat c div 256 = unat c div 16 div 16"
    by (simp_all flip: div_mult2_eq)
  then have "unat c div 4096 * 16 + unat c div 256 mod 16 = unat c div 256"
    and "unat c div 256 * 16 + unat c div 16 mod 16 = unat c div 16"
    by (metis div_mult_mod_eq)+
  then have "((unat c div 4096 * 16 + unat c div 256 mod 16) * 16 + unat c div 16 mod 16) * 16
      + unat c mod 16 = unat c"
    by (simp only: div_mult_mod_eq)
  ultimately show ?thesis
    by (simp only: hex4_def hex_of_char bind.bind_lunit mod_less_divisor zero_less_numeral
        of_nat_unat ucast_id)
qed

lemma parse_escape_char:
  "parse_chars (escape_char c @ r) = do { (s, q) \<leftarrow> parse_chars r; Some (c # s, q) }"
  by (simp add: escape_char_def u_escape_def Let_def hex4_u_escape unescape_def)

lemma parse_surrogate:
  assumes "is_high c \<or> is_low c"
  shows "parse_chars (c # r) = do { (s, q) \<leftarrow> parse_chars r; Some (c # s, q) }"
proof -
  have "c \<noteq> 34 \<and> c \<noteq> 92 \<and> \<not> c < 32"
    using assms by (auto simp: is_high_def is_low_def word_less_nat_alt word_le_nat_alt)
  then show ?thesis by simp
qed

declare parse_chars.simps(2) [simp del]

lemma parse_quote_body: "parse_chars (quote_body s @ 34 # r) = Some (s, r)"
proof (induction s rule: quote_body.induct)
  case (1 c d s)
  then show ?case
    by (cases "is_high c \<and> is_low d") (auto simp: parse_surrogate parse_escape_char)
next
  case (2 c)
  then show ?case by (simp add: parse_escape_char parse_chars.simps(2))
next
  case 3
  then show ?case by (simp add: parse_chars.simps(2))
qed

end
