(* ===== verification/Json_Text.thy ===== *)
theory Json_Text
  imports Json
begin

text \<open>
  \<open>JSON.stringify\<close> and \<open>JSON.parse\<close>: the printer with an indentation gap, the fuelled
  recursive-descent parser, the lemma that the top-level fuel suffices, the round trip,
  and the interface \<open>json_codec\<close> with its interpretations for the compact and the
  indented printer.
\<close>

section \<open>JSON.stringify\<close>

fun join_with :: "jstring \<Rightarrow> jstring list \<Rightarrow> jstring" where
  "join_with sep [] = []"
| "join_with sep [x] = x"
| "join_with sep (x # y # r) = x @ sep @ join_with sep (y # r)"

text \<open>
  The punctuation of one bracketed level at indentation \<open>ind\<close>: after the opening
  bracket, between elements, before the closing bracket, after a member's colon.
\<close>
definition open_gap :: "jstring \<Rightarrow> jstring \<Rightarrow> jstring" where
  "open_gap gap ind = (if gap = [] then [] else 10 # ind @ gap)"

definition separator :: "jstring \<Rightarrow> jstring \<Rightarrow> jstring" where
  "separator gap ind = 44 # open_gap gap ind"

definition close_gap :: "jstring \<Rightarrow> jstring \<Rightarrow> jstring" where
  "close_gap gap ind = (if gap = [] then [] else 10 # ind)"

definition colon :: "jstring \<Rightarrow> jstring" where
  "colon gap = (if gap = [] then [58] else [58, 32])"

fun stringify_at :: "jstring \<Rightarrow> jstring \<Rightarrow> json \<Rightarrow> jstring" where
  "stringify_at gap ind JNull = js ''null''"
| "stringify_at gap ind (JBool b) = (if b then js ''true'' else js ''false'')"
| "stringify_at gap ind (JNum d) = dec_text d"
| "stringify_at gap ind (JStr s) = quote s"
| "stringify_at gap ind (JArr vs) =
     (if vs = [] then [91, 93]
      else 91 # open_gap gap ind
        @ join_with (separator gap ind) (map (stringify_at gap (ind @ gap)) vs)
        @ close_gap gap ind @ [93])"
| "stringify_at gap ind (JObj kvs) =
     (if kvs = [] then [123, 125]
      else 123 # open_gap gap ind
        @ join_with (separator gap ind)
            (map (\<lambda>kv. quote (fst kv) @ colon gap @ stringify_at gap (ind @ gap) (snd kv)) kvs)
        @ close_gap gap ind @ [125])"

text \<open>\<open>JSON.stringify(v)\<close> and \<open>JSON.stringify(v, null, 2)\<close>.\<close>
definition stringify :: "json \<Rightarrow> jstring" where
  "stringify v = stringify_at [] [] v"

definition stringify_indented :: "json \<Rightarrow> jstring" where
  "stringify_indented v = stringify_at (js ''  '') [] v"

section \<open>JSON.parse\<close>

definition strip_prefix :: "jstring \<Rightarrow> jstring \<Rightarrow> jstring option" where
  "strip_prefix p s = (if take (length p) s = p then Some (drop (length p) s) else None)"

definition parse_literal :: "jstring \<Rightarrow> (json \<times> jstring) option" where
  "parse_literal s =
     (case strip_prefix (js ''null'') s of Some r \<Rightarrow> Some (JNull, r)
      | None \<Rightarrow> (case strip_prefix (js ''true'') s of Some r \<Rightarrow> Some (JBool True, r)
      | None \<Rightarrow> (case strip_prefix (js ''false'') s of Some r \<Rightarrow> Some (JBool False, r)
      | None \<Rightarrow> None)))"

fun expect :: "jchar \<Rightarrow> jstring \<Rightarrow> jstring option" where
  "expect c [] = None"
| "expect c (d # r) = (if c = d then Some r else None)"

fun parse_value :: "nat \<Rightarrow> jstring \<Rightarrow> (json \<times> jstring) option"
  and parse_elems :: "nat \<Rightarrow> jstring \<Rightarrow> (json list \<times> jstring) option"
  and parse_members :: "nat \<Rightarrow> json_object \<Rightarrow> jstring \<Rightarrow> (json_object \<times> jstring) option"
where
  "parse_value 0 s = None"
| "parse_value (Suc n) s =
     (case skip_ws s of
        [] \<Rightarrow> None
      | c # r \<Rightarrow>
          if c = 34 then do { (t, q) \<leftarrow> parse_chars r; Some (JStr t, q) }
          else if c = 91 then
            (case expect 93 (skip_ws r) of
               Some q \<Rightarrow> Some (JArr [], q)
             | None \<Rightarrow> do { (vs, q) \<leftarrow> parse_elems n r; Some (JArr vs, q) })
          else if c = 123 then
            (case expect 125 (skip_ws r) of
               Some q \<Rightarrow> Some (JObj [], q)
             | None \<Rightarrow> do { (kvs, q) \<leftarrow> parse_members n [] r; Some (JObj kvs, q) })
          else if c = 45 \<or> is_digit c then do { (d, q) \<leftarrow> parse_number (c # r); Some (JNum d, q) }
          else parse_literal (c # r))"
| "parse_elems 0 s = None"
| "parse_elems (Suc n) s =
     do { (v, r) \<leftarrow> parse_value n s;
          (case skip_ws r of
             [] \<Rightarrow> None
           | c # q \<Rightarrow>
               if c = 44 then do { (vs, q') \<leftarrow> parse_elems n q; Some (v # vs, q') }
               else if c = 93 then Some ([v], q) else None) }"
| "parse_members 0 acc s = None"
| "parse_members (Suc n) acc s =
     do { r \<leftarrow> expect 34 (skip_ws s);
          (k, r1) \<leftarrow> parse_chars r;
          r2 \<leftarrow> expect 58 (skip_ws r1);
          (v, r3) \<leftarrow> parse_value n r2;
          (case skip_ws r3 of
             [] \<Rightarrow> None
           | c # q \<Rightarrow>
               if c = 44 then parse_members n (obj_put k v acc) q
               else if c = 125 then Some (obj_put k v acc, q) else None) }"

text \<open>\<open>JSON.parse(s)\<close>; \<open>None\<close> is the \<open>SyntaxError\<close>.\<close>
definition parse_json :: "jstring \<Rightarrow> json option" where
  "parse_json s =
     do { (v, r) \<leftarrow> parse_value (Suc (2 * length s)) s;
          if skip_ws r = [] then Some v else None }"

section \<open>The parser consumes input and returns well-formed values\<close>

lemma length_skip_ws: "length (skip_ws s) \<le> length s"
  by (simp add: skip_ws_def length_dropWhile_le)

lemma expect_SomeD: "expect c s = Some r \<Longrightarrow> length r < length s"
  by (cases s) (auto split: if_splits)

lemma parse_chars_length: "parse_chars s = Some (t, r) \<Longrightarrow> length r < length s"
proof (induction s arbitrary: t r rule: length_induct)
  case (1 s)
  then have IH: "length q < length u" if "length u < length s" "parse_chars u = Some (w, q)" for u w q
    using that by blast
  show ?case
  proof (cases s)
    case Nil
    with "1.prems" show ?thesis by simp
  next
    case (Cons c u)
    with "1.prems" show ?thesis
      by (subst (asm) Cons, subst (asm) parse_chars.simps)
        (auto split: if_splits list.splits bind_splits dest!: IH [rotated])
  qed
qed

lemma parse_sign_length: "parse_sign s = (b, r) \<Longrightarrow> length r \<le> length s"
  by (cases s) (auto split: if_splits)

lemma parse_minus_length: "parse_minus s = (b, r) \<Longrightarrow> length r \<le> length s"
  by (cases s) (auto split: if_splits)

lemma span_length: "span p s = (u, r) \<Longrightarrow> length s = length u + length r"
  by (metis Pair_inject length_append span_def takeWhile_dropWhile_id)

lemma parse_frac_length: "parse_frac s = Some (u, r) \<Longrightarrow> length r \<le> length s"
  by (cases s) (auto split: if_splits prod.splits dest: span_length)

lemma parse_exp_length: "parse_exp s = Some (x, r) \<Longrightarrow> length r \<le> length s"
  by (cases s) (auto split: if_splits prod.splits dest!: span_length parse_sign_length)

lemma parse_number_length:
  assumes "parse_number s = Some (d, r)"
  shows "length r < length s"
proof -
  obtain neg s1 where minus: "parse_minus s = (neg, s1)" by (cases "parse_minus s")
  obtain ip s2 where int_part: "span is_digit s1 = (ip, s2)" by (cases "span is_digit s1")
  from assms minus int_part have ip: "ip \<noteq> []"
    by (auto simp: parse_number_def split: if_splits)
  from assms minus int_part obtain fp s3 x where "parse_frac s2 = Some (fp, s3)" "parse_exp s3 = Some (x, r)"
    by (auto simp: parse_number_def split: if_splits option.splits)
  then have "length r \<le> length s2" by (auto dest!: parse_frac_length parse_exp_length)
  then show ?thesis
    using ip span_length [OF int_part] parse_minus_length [OF minus] by (cases ip) auto
qed

lemma parse_number_ok: "parse_number s = Some (d, r) \<Longrightarrow> dec_ok d"
  unfolding parse_number_def by (auto split: if_splits prod.splits option.splits)

lemma strip_prefix_length: "strip_prefix p s = Some r \<Longrightarrow> p \<noteq> [] \<Longrightarrow> length r < length s"
  by (cases p; cases s) (auto simp: strip_prefix_def split: if_splits)

lemma parse_literal_length: "parse_literal s = Some (v, r) \<Longrightarrow> length r < length s \<and> wf_json v"
  by (auto simp: parse_literal_def split: option.splits dest!: strip_prefix_length)

lemma skip_ws_Cons: "skip_ws s = c # r \<Longrightarrow> length r < length s"
  using length_skip_ws [of s] by simp

lemma expect_skip_ws: "expect c (skip_ws s) = Some r \<Longrightarrow> length r < length s"
  using length_skip_ws [of s] by (auto dest: expect_SomeD)

lemma wf_JObj: "wf_json (JObj kvs) = wf_object kvs"
  by (simp add: wf_object_def)

lemma wf_object_iff:
  "wf_object kvs \<longleftrightarrow> canonical (map fst kvs) \<and> list_all (\<lambda>kv. wf_json (snd kv)) kvs"
  by (simp add: wf_object_def)

lemma wf_object_Nil [simp]: "wf_object []"
  by (simp add: wf_object_def canonical_def)

lemma wf_object_put: "wf_object kvs \<Longrightarrow> wf_json v \<Longrightarrow> wf_object (obj_put k v kvs)"
  by (simp add: wf_object_def canonical_obj_put all_obj_put)

lemmas wf_json_cases [simp] = wf_json.simps(1,2,4-6) wf_JObj

declare wf_json.simps(3) [simp del]

text \<open>
  Every step consumes input and builds well-formed values: by induction on the fuel,
  for the three functions together.
\<close>
lemma parse_facts:
  "(\<forall>s v r. parse_value n s = Some (v, r) \<longrightarrow> length r < length s \<and> wf_json v) \<and>
   (\<forall>s vs r. parse_elems n s = Some (vs, r) \<longrightarrow> length r < length s \<and> list_all wf_json vs) \<and>
   (\<forall>acc s kvs r. wf_object acc \<longrightarrow> parse_members n acc s = Some (kvs, r)
      \<longrightarrow> length r < length s \<and> wf_object kvs)"
proof (induction n)
  case 0
  then show ?case by simp
next
  case (Suc n)
  have IHv: "length r < length s" "wf_json v" if "parse_value n s = Some (v, r)" for s v r
    using Suc that by blast+
  have IHe: "length r < length s" "list_all wf_json vs" if "parse_elems n s = Some (vs, r)" for s vs r
    using Suc that by blast+
  have IHm: "length r < length s" "wf_object kvs"
    if "wf_object acc" "parse_members n acc s = Some (kvs, r)" for acc s kvs r
    using Suc that by blast+
  have val: "length r < length s \<and> wf_json v" if "parse_value (Suc n) s = Some (v, r)" for s v r
  proof (cases "skip_ws s")
    case Nil
    with that show ?thesis by simp
  next
    case (Cons c u)
    note len = skip_ws_Cons [OF Cons]
    have "length r < length (c # u) \<and> wf_json v"
      using that Cons
      by (auto split: if_splits option.splits bind_splits
          dest: parse_chars_length parse_number_length parse_number_ok parse_literal_length
            expect_skip_ws IHe IHm [OF wf_object_Nil])
    with len show ?thesis by simp
  qed
  have elems: "length r < length s \<and> list_all wf_json vs" if "parse_elems (Suc n) s = Some (vs, r)" for s vs r
  proof -
    from that obtain v u where v: "parse_value n s = Some (v, u)"
      by (auto split: bind_splits)
    with that show ?thesis
      using IHv [OF v] by (auto split: list.splits if_splits bind_splits dest!: skip_ws_Cons dest: IHe)
  qed
  have members: "length r < length s \<and> wf_object kvs"
    if wfa: "wf_object acc" and pm: "parse_members (Suc n) acc s = Some (kvs, r)" for acc s kvs r
  proof -
    from pm obtain s1 k s2 s3 v s4 where
      steps: "expect 34 (skip_ws s) = Some s1" "parse_chars s1 = Some (k, s2)"
        "expect 58 (skip_ws s2) = Some s3" "parse_value n s3 = Some (v, s4)"
      by (auto split: bind_splits)
    have len: "length s4 < length s"
      using expect_skip_ws [OF steps(1)] parse_chars_length [OF steps(2)]
        expect_skip_ws [OF steps(3)] IHv(1) [OF steps(4)] by linarith
    have v: "wf_json v" using steps(4) by (rule IHv)
    obtain c u where c: "skip_ws s4 = c # u"
      using pm steps by (cases "skip_ws s4") auto
    have put: "wf_object (obj_put k v acc)" using wfa v by (rule wf_object_put)
    from pm steps c have "parse_members n (obj_put k v acc) u = Some (kvs, r) \<or> (kvs, r) = (obj_put k v acc, u)"
      by (auto split: if_splits)
    then show ?thesis
      using len skip_ws_Cons [OF c] put by (auto dest: IHm [OF put])
  qed
  show ?case using val elems members by blast
qed

lemmas parse_value_length = parse_facts [THEN conjunct1, rule_format, THEN conjunct1]
  and parse_value_wf = parse_facts [THEN conjunct1, rule_format, THEN conjunct2]
  and parse_elems_length = parse_facts [THEN conjunct2, THEN conjunct1, rule_format, THEN conjunct1]

section \<open>Enough fuel\<close>

lemma parse_fuel:
  "(\<forall>s m. 2 * length s < n \<longrightarrow> 2 * length s < m \<longrightarrow> parse_value n s = parse_value m s) \<and>
   (\<forall>s m. Suc (2 * length s) < n \<longrightarrow> Suc (2 * length s) < m \<longrightarrow> parse_elems n s = parse_elems m s) \<and>
   (\<forall>acc s m. 2 * length s < n \<longrightarrow> 2 * length s < m \<longrightarrow> parse_members n acc s = parse_members m acc s)"
proof (induction n)
  case 0
  then show ?case by simp
next
  case (Suc n)
  have IHv: "parse_value n s = parse_value m s" if "2 * length s < n" "2 * length s < m" for s m
    using Suc that by blast
  have IHe: "parse_elems n s = parse_elems m s" if "Suc (2 * length s) < n" "Suc (2 * length s) < m" for s m
    using Suc that by blast
  have IHm: "parse_members n acc s = parse_members m acc s"
    if "2 * length s < n" "2 * length s < m" for acc s m
    using Suc that by blast
  have v: "parse_value (Suc n) s = parse_value (Suc m) s"
    if "2 * length s < Suc n" "2 * length s < Suc m" for s m
  proof (cases "skip_ws s")
    case (Cons c u)
    with skip_ws_Cons [OF Cons] that have "parse_elems n u = parse_elems m u"
      and "parse_members n [] u = parse_members m [] u"
      by (auto intro!: IHe IHm)
    with Cons show ?thesis by (simp split: option.split)
  qed simp
  have e: "parse_elems (Suc n) s = parse_elems (Suc m) s"
    if len: "Suc (2 * length s) < Suc n" "Suc (2 * length s) < Suc m" for s m
  proof (cases "parse_value n s")
    case None
    moreover have "parse_value n s = parse_value m s" using len by (intro IHv) auto
    ultimately show ?thesis by simp
  next
    case (Some vr)
    obtain w r where vr: "vr = (w, r)" by (cases vr)
    have eq: "parse_value n s = parse_value m s" using len by (intro IHv) auto
    have "parse_elems n q = parse_elems m q" if "skip_ws r = c # q" for c q
      using that len skip_ws_Cons [OF that] parse_value_length [OF Some [unfolded vr]]
      by (intro IHe) auto
    with Some eq vr show ?thesis by (auto split: list.split)
  qed
  have p: "parse_members (Suc n) acc s = parse_members (Suc m) acc s"
    if len: "2 * length s < Suc n" "2 * length s < Suc m" for acc s m
  proof -
    have "parse_value n r2 = parse_value m r2 \<and>
        (\<forall>w r3 c q a. parse_value n r2 = Some (w, r3) \<longrightarrow> skip_ws r3 = c # q
          \<longrightarrow> parse_members n a q = parse_members m a q)"
      if "expect 34 (skip_ws s) = Some r" "parse_chars r = Some (k, r1)"
        "expect 58 (skip_ws r1) = Some r2" for r k r1 r2
    proof -
      have "length r2 < length s"
        using that by (auto dest!: expect_skip_ws parse_chars_length)
      then show ?thesis
        using len by (auto intro!: IHv IHm dest!: skip_ws_Cons parse_value_length)
    qed
    then show ?thesis
      by (auto split: list.split bind_split)
  qed
  show ?case
  proof (intro conjI allI impI)
    fix s :: jstring and m
    assume "2 * length s < Suc n" "2 * length s < m"
    then show "parse_value (Suc n) s = parse_value m s" using v [of s "m - 1"] by (cases m) auto
  next
    fix s :: jstring and m
    assume "Suc (2 * length s) < Suc n" "Suc (2 * length s) < m"
    then show "parse_elems (Suc n) s = parse_elems m s" using e [of s "m - 1"] by (cases m) auto
  next
    fix acc and s :: jstring and m
    assume "2 * length s < Suc n" "2 * length s < m"
    then show "parse_members (Suc n) acc s = parse_members m acc s"
      using p [of s "m - 1" acc] by (cases m) auto
  qed
qed

text \<open>More fuel than \<open>parse_json\<close> gives changes nothing: its \<open>None\<close> is a syntax error.\<close>
lemma parse_fuel_enough:
  "2 * length s < n \<Longrightarrow> parse_value n s = parse_value (Suc (2 * length s)) s"
  using parse_fuel by (metis lessI)

lemma parse_json_wf: "parse_json s = Some v \<Longrightarrow> wf_json v"
  by (auto simp: parse_json_def simp del: parse_value.simps split: bind_splits if_splits
      dest!: parse_value_wf)

section \<open>The round trip\<close>

abbreviation all_ws :: "jstring \<Rightarrow> bool" where
  "all_ws w \<equiv> list_all is_json_ws w"

fun fuel_of :: "json \<Rightarrow> nat" where
  "fuel_of (JArr vs) = Suc (Suc (length vs + sum_list (map fuel_of vs)))"
| "fuel_of (JObj kvs) = Suc (Suc (length kvs + sum_list (map (\<lambda>kv. fuel_of (snd kv)) kvs)))"
| "fuel_of _ = 1"

lemma skip_ws_append: "all_ws w \<Longrightarrow> skip_ws (w @ s) = skip_ws s"
  by (induction w) (auto simp: skip_ws_def)

lemma skip_ws_stop: "\<not> is_json_ws c \<Longrightarrow> skip_ws (c # s) = c # s"
  by (simp add: skip_ws_def)

lemma not_json_ws [simp]:
  "\<not> is_json_ws 34" "\<not> is_json_ws 44" "\<not> is_json_ws 58" "\<not> is_json_ws 93" "\<not> is_json_ws 125"
  "\<not> is_json_ws 91" "\<not> is_json_ws 123"
  by (simp_all add: is_json_ws_def)

lemma parse_value_ws: "all_ws w \<Longrightarrow> parse_value n (w @ s) = parse_value n s"
  by (cases n) (simp_all add: skip_ws_append)

lemma ends_number_simps [simp]:
  "ends_number []" "ends_number (44 # r)" "ends_number (93 # r)" "ends_number (125 # r)"
  by (simp_all add: ends_number_def is_digit_def)

lemma ends_number_ws: "all_ws w \<Longrightarrow> ends_number r \<Longrightarrow> ends_number (w @ r)"
  by (cases w) (auto simp: ends_number_def is_digit_def is_json_ws_def)

lemma gap_ws:
  "all_ws gap \<Longrightarrow> all_ws ind \<Longrightarrow> all_ws (open_gap gap ind)"
  "all_ws ind \<Longrightarrow> all_ws (close_gap gap ind)"
  by (simp_all add: open_gap_def close_gap_def is_json_ws_def)

lemma stringify_head:
  "\<exists>c u. stringify_at gap ind v = c # u \<and> \<not> is_json_ws c \<and> c \<noteq> 93"
proof (cases v)
  case (JNum d)
  then show ?thesis
    using hd_dec_text [of d] by (cases "dec_text d") (auto simp: is_digit_def is_json_ws_def)
qed (auto simp: js_eval quote_def is_json_ws_def)

text \<open>A printed element list reads back, given that its elements do.\<close>
lemma parse_elems_join:
  assumes "vs \<noteq> []" and w: "all_ws w" and cl: "all_ws cl"
    and elem: "\<And>v n r. v \<in> set vs \<Longrightarrow> fuel_of v \<le> n \<Longrightarrow> ends_number r \<Longrightarrow>
      parse_value n (f v @ r) = Some (v, r)"
    and "Suc (length vs + sum_list (map fuel_of vs)) \<le> n"
  shows "parse_elems n (w @ join_with (44 # w) (map f vs) @ cl @ 93 # r) = Some (vs, r)"
  using assms(1,4,5)
proof (induction vs arbitrary: n rule: list_nonempty_induct)
  case (single v)
  then obtain m where n: "n = Suc m" by (cases n) auto
  have "parse_value m (f v @ cl @ 93 # r) = Some (v, cl @ 93 # r)"
    using single n cl by (intro single) (auto intro: ends_number_ws)
  then show ?case
    using n w cl by (simp add: parse_value_ws skip_ws_append skip_ws_stop)
next
  case (cons v vs)
  then obtain m where n: "n = Suc m" by (cases n) auto
  let ?rest = "join_with (44 # w) (map f vs) @ cl @ 93 # r"
  have "join_with (44 # w) (map f (v # vs)) = f v @ 44 # w @ join_with (44 # w) (map f vs)"
    using cons.hyps by (cases vs) auto
  moreover have "parse_value m (f v @ 44 # w @ ?rest) = Some (v, 44 # w @ ?rest)"
    using cons.prems n by (intro cons.prems) auto
  moreover have "parse_elems m (w @ ?rest) = Some (vs, r)"
    using cons.prems n by (intro cons.IH cons.prems) auto
  ultimately show ?case
    using n w by (simp add: parse_value_ws skip_ws_stop)
qed

lemma parse_member_step:
  assumes w: "all_ws w" and v: "parse_value m (t @ r) = Some (v, r)"
  shows "parse_members (Suc m) acc (w @ quote k @ colon gap @ t @ r) =
    (case skip_ws r of [] \<Rightarrow> None
     | c # q \<Rightarrow> if c = 44 then parse_members m (obj_put k v acc) q
               else if c = 125 then Some (obj_put k v acc, q) else None)"
proof -
  have "parse_value m (32 # t @ r) = Some (v, r)"
    using v parse_value_ws [of "[32]" m "t @ r"] by (simp add: is_json_ws_def)
  with v have val: "parse_value m (tl (colon gap) @ t @ r) = Some (v, r)"
    by (simp add: colon_def)
  have colon: "colon gap = 58 # tl (colon gap)" by (simp add: colon_def)
  show ?thesis
    using w val by (subst colon) (simp add: quote_def parse_quote_body skip_ws_append skip_ws_stop)
qed

lemma parse_members_join:
  assumes "kvs \<noteq> []" and w: "all_ws w" and cl: "all_ws cl"
    and elem: "\<And>kv n r. kv \<in> set kvs \<Longrightarrow> fuel_of (snd kv) \<le> n \<Longrightarrow> ends_number r \<Longrightarrow>
      parse_value n (f (snd kv) @ r) = Some (snd kv, r)"
    and "Suc (length kvs + sum_list (map (\<lambda>kv. fuel_of (snd kv)) kvs)) \<le> n"
    and "canonical (map fst (acc @ kvs))"
  shows "parse_members n acc
      (w @ join_with (44 # w) (map (\<lambda>kv. quote (fst kv) @ colon gap @ f (snd kv)) kvs) @ cl @ 125 # r)
    = Some (acc @ kvs, r)"
  using assms(1,4,5,6)
proof (induction kvs arbitrary: n acc rule: list_nonempty_induct)
  case (single kv)
  then obtain m where n: "n = Suc m" by (cases n) auto
  have "parse_value m (f (snd kv) @ cl @ 125 # r) = Some (snd kv, cl @ 125 # r)"
    using single n cl by (intro single) (auto intro: ends_number_ws)
  moreover have "obj_put (fst kv) (snd kv) acc = acc @ [kv]"
    using single(3) by (subst obj_put_fresh) (auto simp: canonical_def sorted_wrt_append)
  ultimately show ?case
    using n w cl by (simp add: parse_member_step skip_ws_append skip_ws_stop del: parse_members.simps)
next
  case (cons kv kvs)
  then obtain m where n: "n = Suc m" by (cases n) auto
  let ?g = "\<lambda>kv. quote (fst kv) @ colon gap @ f (snd kv)"
  let ?rest = "join_with (44 # w) (map ?g kvs) @ cl @ 125 # r"
  have "join_with (44 # w) (map ?g (kv # kvs)) = ?g kv @ 44 # w @ join_with (44 # w) (map ?g kvs)"
    using cons.hyps by (cases kvs) auto
  moreover have "parse_value m (f (snd kv) @ 44 # w @ ?rest) = Some (snd kv, 44 # w @ ?rest)"
    using cons.prems n by (intro cons.prems) auto
  moreover have "obj_put (fst kv) (snd kv) acc = acc @ [kv]"
    using cons.prems(3) by (subst obj_put_fresh) (auto simp: canonical_def sorted_wrt_append)
  moreover have "parse_members m (acc @ [kv]) (w @ ?rest) = Some ((acc @ [kv]) @ kvs, r)"
    using cons.prems n by (intro cons.IH cons.prems) auto
  ultimately show ?case
    using n w by (simp add: parse_member_step skip_ws_stop del: parse_members.simps)
qed

lemma parse_stringify_at:
  assumes "wf_json v" and "all_ws gap" and "all_ws ind" and "fuel_of v \<le> n" and "ends_number r"
  shows "parse_value n (stringify_at gap ind v @ r) = Some (v, r)"
  using assms
proof (induction v arbitrary: ind n r)
  case JNull
  then show ?case
    by (cases n) (simp_all add: skip_ws_def is_json_ws_def js_eval parse_literal_def strip_prefix_def is_digit_def)
next
  case (JBool b)
  then show ?case
    by (cases n) (auto simp: skip_ws_def is_json_ws_def js_eval parse_literal_def strip_prefix_def is_digit_def)
next
  case (JNum d)
  obtain c u where c: "dec_text d = c # u" "is_digit c \<or> c = 45"
    using hd_dec_text [of d] by (cases "dec_text d") auto
  then have "\<not> is_json_ws c" "c \<noteq> 34" "c \<noteq> 91" "c \<noteq> 123"
    by (auto simp: is_digit_def is_json_ws_def)
  moreover have "parse_number (c # u @ r) = Some (d, r)"
    using JNum parse_number_dec_text [of d r] c(1) by simp
  ultimately show ?case
    using JNum c by (cases n) (auto simp: skip_ws_stop)
next
  case (JStr t)
  then show ?case by (cases n) (simp_all add: quote_def parse_quote_body skip_ws_stop)
next
  case (JArr vs)
  then obtain m where n: "n = Suc m" by (cases n) auto
  show ?case
  proof (cases "vs = []")
    case True
    with n show ?thesis by (simp add: skip_ws_stop)
  next
    case False
    let ?inner = "join_with (separator gap ind) (map (stringify_at gap (ind @ gap)) vs)"
    have ws: "all_ws (open_gap gap ind)" "all_ws (close_gap gap ind)"
      using JArr.prems by (simp_all add: gap_ws)
    obtain v vs' where vs: "vs = v # vs'" using False by (cases vs) auto
    obtain c u where "stringify_at gap (ind @ gap) v = c # u" "\<not> is_json_ws c" "c \<noteq> 93"
      using stringify_head by blast
    then have bracket: "expect 93 (skip_ws (open_gap gap ind @ ?inner @ q)) = None" for q
      using ws(1) by (cases vs') (simp_all add: vs skip_ws_append skip_ws_stop)
    have elem: "parse_value k (stringify_at gap (ind @ gap) x @ q) = Some (x, q)"
      if "x \<in> set vs" "fuel_of x \<le> k" "ends_number q" for x k q
      using that JArr.prems by (intro JArr.IH) (auto simp: list_all_iff)
    have "parse_elems m (open_gap gap ind @ ?inner @ close_gap gap ind @ 93 # r) = Some (vs, r)"
      unfolding separator_def using JArr.prems(4) n
      by (intro parse_elems_join [OF False ws] elem) simp_all
    with bracket show ?thesis
      using False n by (simp add: skip_ws_stop)
  qed
next
  case (JObj kvs)
  then obtain m where n: "n = Suc m" by (cases n) auto
  show ?case
  proof (cases "kvs = []")
    case True
    with n show ?thesis by (simp add: skip_ws_stop)
  next
    case False
    let ?f = "stringify_at gap (ind @ gap)"
    let ?inner = "join_with (separator gap ind) (map (\<lambda>kv. quote (fst kv) @ colon gap @ ?f (snd kv)) kvs)"
    have ws: "all_ws (open_gap gap ind)" "all_ws (close_gap gap ind)"
      using JObj.prems by (simp_all add: gap_ws)
    obtain kv kvs' where kvs: "kvs = kv # kvs'" using False by (cases kvs) auto
    have brace: "expect 125 (skip_ws (open_gap gap ind @ ?inner @ q)) = None" for q
      using ws(1) by (cases kvs') (simp_all add: kvs quote_def skip_ws_append skip_ws_stop)
    have canon: "canonical (map fst kvs)" and wf: "\<And>x. x \<in> set kvs \<Longrightarrow> wf_json (snd x)"
      using JObj.prems(1) by (auto simp: wf_object_iff list_all_iff)
    have elem: "parse_value k (?f (snd x) @ q) = Some (snd x, q)"
      if "x \<in> set kvs" "fuel_of (snd x) \<le> k" "ends_number q" for x k q
      using that JObj.prems
      by (intro JObj.IH [of x "snd x"]) (auto simp: wf snds.simps prod_eq_iff)
    have "parse_members m [] (open_gap gap ind @ ?inner @ close_gap gap ind @ 125 # r)
        = Some ([] @ kvs, r)"
      unfolding separator_def using JObj.prems(4) n canon
      by (intro parse_members_join [OF False ws] elem) simp_all
    with brace show ?thesis
      using False n by (simp add: skip_ws_stop)
  qed
qed

text \<open>The parser's own fuel is enough for every printed value.\<close>
lemma parse_json_stringify_at:
  assumes "wf_json v" and "all_ws gap"
  shows "parse_json (stringify_at gap [] v) = Some v"
proof -
  let ?s = "stringify_at gap [] v"
  let ?n = "Suc (fuel_of v + 2 * length ?s)"
  have "parse_value ?n ?s = Some (v, [])"
    using parse_stringify_at [OF assms, of "[]" ?n "[]"] by simp
  moreover have "parse_value ?n ?s = parse_value (Suc (2 * length ?s)) ?s"
    by (rule parse_fuel_enough) simp
  ultimately show ?thesis by (simp add: parse_json_def skip_ws_def del: parse_value.simps)
qed

section \<open>The codec interface\<close>

text \<open>
  What the console relies on when it puts a value in a text area or a request body:
  the text reads back as the value, parsed values are well-formed, and the text of an
  object starts and ends with its braces, so trimming leaves it alone.
\<close>
locale json_codec =
  fixes parse :: "jstring \<Rightarrow> json option" and show_text :: "json \<Rightarrow> jstring"
  assumes parse_show: "wf_json v \<Longrightarrow> parse (show_text v) = Some v"
    and parse_wf: "parse s = Some v \<Longrightarrow> wf_json v"
    and trim_show_object: "trim (show_text (JObj kvs)) = show_text (JObj kvs)"
    and show_object_nonempty: "show_text (JObj kvs) \<noteq> []"
begin

text \<open>Different values have different texts: a signature made of the text identifies the value.\<close>
lemma show_inject: "wf_json v \<Longrightarrow> wf_json w \<Longrightarrow> show_text v = show_text w \<longleftrightarrow> v = w"
  by (metis option.inject parse_show)

lemma parse_trim_show: "wf_object kvs \<Longrightarrow> parse (trim (show_text (JObj kvs))) = Some (JObj kvs)"
  by (simp add: trim_show_object parse_show)

end

lemma trim_stringify_object: "trim (stringify_at gap ind (JObj kvs)) = stringify_at gap ind (JObj kvs)"
  by (rule trim_id) (auto simp: is_space_def)

lemma stringify_object_nonempty: "stringify_at gap ind (JObj kvs) \<noteq> []"
  by simp

lemma two_spaces_ws: "all_ws (js ''  '')"
  by (simp add: js_eval is_json_ws_def)

declare parse_value.simps [simp del] parse_elems.simps [simp del] parse_members.simps [simp del]
  stringify_at.simps [simp del]

interpretation compact: json_codec parse_json stringify
  by unfold_locales
    (simp_all add: stringify_def parse_json_stringify_at trim_stringify_object
      stringify_object_nonempty parse_json_wf del: wf_json_cases)

interpretation indented: json_codec parse_json stringify_indented
  by unfold_locales
    (simp_all add: stringify_indented_def parse_json_stringify_at trim_stringify_object
      stringify_object_nonempty parse_json_wf two_spaces_ws del: wf_json_cases)

end
