(* ===== verification/Uri.thy ===== *)
theory Uri
  imports Json_Text
begin

text \<open>
  \<open>encodeURIComponent\<close>, which \<open>lib/api.ts\<close> and the proxy route build addresses with: code units
  to code points (a lone surrogate throws), code points to UTF-8, bytes to percent escapes. The
  decoder a server applies is the reference it is shown to invert.
\<close>

section \<open>Encoding\<close>

text \<open>Letters, digits and \<open>- _ . ! ~ * ' ( )\<close>.\<close>
definition unreserved :: "jchar \<Rightarrow> bool" where
  "unreserved c \<longleftrightarrow>
     (65 \<le> c \<and> c \<le> 90) \<or> (97 \<le> c \<and> c \<le> 122) \<or> (48 \<le> c \<and> c \<le> 57)
     \<or> c \<in> {45, 95, 46, 33, 126, 42, 39, 40, 41}"

definition join_surrogates :: "jchar \<Rightarrow> jchar \<Rightarrow> nat" where
  "join_surrogates hi lo = 0x10000 + (unat hi - 0xD800) * 0x400 + (unat lo - 0xDC00)"

fun code_points :: "jstring \<Rightarrow> nat list option" where
  "code_points [] = Some []"
| "code_points [c] = (if is_high c \<or> is_low c then None else Some [unat c])"
| "code_points (c # d # r) =
     (if is_high c then
        (if is_low d then map_option (Cons (join_surrogates c d)) (code_points r) else None)
      else if is_low c then None
      else map_option (Cons (unat c)) (code_points (d # r)))"

definition utf8 :: "nat \<Rightarrow> nat list" where
  "utf8 n =
     (if n < 0x80 then [n]
      else if n < 0x800 then [0xC0 + n div 64, 0x80 + n mod 64]
      else if n < 0x10000 then [0xE0 + n div 4096, 0x80 + n div 64 mod 64, 0x80 + n mod 64]
      else [0xF0 + n div 262144, 0x80 + n div 4096 mod 64, 0x80 + n div 64 mod 64, 0x80 + n mod 64])"

definition upper_hex :: "nat \<Rightarrow> jchar" where
  "upper_hex d = of_nat (if d < 10 then 48 + d else 55 + d)"

definition percent :: "nat \<Rightarrow> jstring" where
  "percent b = [37, upper_hex (b div 16), upper_hex (b mod 16)]"

definition encode_point :: "nat \<Rightarrow> jstring" where
  "encode_point n =
     (if n < 0x80 \<and> unreserved (of_nat n) then [of_nat n] else concat (map percent (utf8 n)))"

text \<open>\<open>None\<close> is the \<open>URIError\<close> of a lone surrogate.\<close>
definition encodeURIComponent :: "jstring \<Rightarrow> jstring option" where
  "encodeURIComponent s = map_option (\<lambda>ps. concat (map encode_point ps)) (code_points s)"

section \<open>The reference decoder\<close>

definition hex_digit :: "jchar \<Rightarrow> nat option" where
  "hex_digit c =
     (if 48 \<le> c \<and> c \<le> 57 then Some (unat c - 48)
      else if 65 \<le> c \<and> c \<le> 70 then Some (unat c - 55) else None)"

fun percent_bytes :: "jstring \<Rightarrow> nat list option" where
  "percent_bytes [] = Some []"
| "percent_bytes (c # r) =
     (if c = 37 then
        (case r of
           a # b # r' \<Rightarrow>
             (case (hex_digit a, hex_digit b) of
                (Some x, Some y) \<Rightarrow> map_option (Cons (16 * x + y)) (percent_bytes r')
              | _ \<Rightarrow> None)
         | _ \<Rightarrow> None)
      else map_option (Cons (unat c)) (percent_bytes r))"

fun utf8_points :: "nat list \<Rightarrow> nat list option" where
  "utf8_points [] = Some []"
| "utf8_points (a # r) =
     (if a < 0x80 then map_option (Cons a) (utf8_points r)
      else if a < 0xE0 then
        (case r of b # r' \<Rightarrow> map_option (Cons ((a - 0xC0) * 64 + (b - 0x80))) (utf8_points r') | _ \<Rightarrow> None)
      else if a < 0xF0 then
        (case r of b # c # r' \<Rightarrow>
           map_option (Cons (((a - 0xE0) * 64 + (b - 0x80)) * 64 + (c - 0x80))) (utf8_points r') | _ \<Rightarrow> None)
      else
        (case r of b # c # d # r' \<Rightarrow>
           map_option (Cons ((((a - 0xF0) * 64 + (b - 0x80)) * 64 + (c - 0x80)) * 64 + (d - 0x80)))
             (utf8_points r') | _ \<Rightarrow> None))"

definition utf16 :: "nat \<Rightarrow> jstring" where
  "utf16 n =
     (if n < 0x10000 then [of_nat n]
      else [of_nat (0xD800 + (n - 0x10000) div 0x400), of_nat (0xDC00 + (n - 0x10000) mod 0x400)])"

definition decode_uri :: "jstring \<Rightarrow> jstring option" where
  "decode_uri s =
     (case percent_bytes s of None \<Rightarrow> None
      | Some bs \<Rightarrow> map_option (\<lambda>ps. concat (map utf16 ps)) (utf8_points bs))"

section \<open>The decoder inverts the encoder\<close>

lemma unat_of_nat_jchar: "n < 0x10000 \<Longrightarrow> unat (of_nat n :: jchar) = n"
  by (simp add: unat_of_nat take_bit_nat_eq_self)

lemma unat_upper_hex: "d < 16 \<Longrightarrow> unat (upper_hex d) = (if d < 10 then 48 + d else 55 + d)"
  unfolding upper_hex_def by (subst unat_of_nat_jchar) auto

lemma hex_digit_upper_hex [simp]: "d < 16 \<Longrightarrow> hex_digit (upper_hex d) = Some d"
  by (simp add: hex_digit_def word_le_nat_alt unat_upper_hex)

lemma upper_hex_unreserved: "d < 16 \<Longrightarrow> unreserved (upper_hex d)"
  by (simp add: unreserved_def word_le_nat_alt unat_upper_hex)

lemma percent_bytes_percent [simp]:
  "b < 256 \<Longrightarrow> percent_bytes (percent b @ r) = map_option (Cons b) (percent_bytes r)"
  by (simp add: percent_def)

lemma percent_bytes_percents:
  "list_all (\<lambda>b. b < 256) bs \<Longrightarrow>
     percent_bytes (concat (map percent bs) @ r) = map_option ((@) bs) (percent_bytes r)"
  by (induction bs; cases "percent_bytes r") simp_all

lemma utf8_bytes: "n < 0x110000 \<Longrightarrow> list_all (\<lambda>b. b < 256) (utf8 n)"
  by (auto simp: utf8_def)

lemma percent_bytes_point:
  assumes "n < 0x110000"
  shows "percent_bytes (encode_point n @ r) = map_option ((@) (utf8 n)) (percent_bytes r)"
proof (cases "n < 0x80 \<and> unreserved (of_nat n)")
  case True
  have "\<not> unreserved 37" by (simp add: unreserved_def)
  with True have "(of_nat n :: jchar) \<noteq> 37" by auto
  moreover have "unat (of_nat n :: jchar) = n" using True by (intro unat_of_nat_jchar) simp
  ultimately show ?thesis using True by (cases "percent_bytes r") (simp_all add: encode_point_def utf8_def)
next
  case False
  then have "encode_point n = concat (map percent (utf8 n))" unfolding encode_point_def by (rule if_not_P)
  with percent_bytes_percents [OF utf8_bytes [OF assms]] show ?thesis by simp
qed

lemma utf8_points_point:
  assumes "n < 0x110000"
  shows "utf8_points (utf8 n @ r) = map_option (Cons n) (utf8_points r)"
proof -
  have two: "n div 64 * 64 + n mod 64 = n" by simp
  have div: "n div 4096 = n div 64 div 64" "n div 262144 = n div 4096 div 64"
    using div_mult2_eq [of n 64 64] div_mult2_eq [of n 4096 64] by simp_all
  have three: "(n div 4096 * 64 + n div 64 mod 64) * 64 + n mod 64 = n" by (simp add: div(1))
  have "n div 262144 * 64 + n div 4096 mod 64 = n div 4096" by (simp add: div(2))
  with three have four: "((n div 262144 * 64 + n div 4096 mod 64) * 64 + n div 64 mod 64) * 64 + n mod 64 = n" by simp
  consider "n < 0x80" | "0x80 \<le> n" "n < 0x800" | "0x800 \<le> n" "n < 0x10000" | "0x10000 \<le> n" by linarith
  then show ?thesis
  proof cases
    case 1
    then show ?thesis by (simp add: utf8_def)
  next
    case 2
    then have "n div 64 < 32" by auto
    with 2 two show ?thesis by (simp add: utf8_def)
  next
    case 3
    then have "n div 4096 < 16" by auto
    with 3 three show ?thesis by (simp add: utf8_def)
  next
    case 4
    with assms four show ?thesis by (simp add: utf8_def)
  qed
qed

lemma percent_bytes_points:
  "list_all (\<lambda>n. n < 0x110000) ps \<Longrightarrow>
     percent_bytes (concat (map encode_point ps)) = Some (concat (map utf8 ps))"
  by (induction ps) (simp_all add: percent_bytes_point)

lemma utf8_points_points:
  "list_all (\<lambda>n. n < 0x110000) ps \<Longrightarrow> utf8_points (concat (map utf8 ps)) = Some ps"
  by (induction ps) (simp_all add: utf8_points_point)

lemma unat_jchar: "unat (c :: jchar) < 0x10000"
  using unsigned_less [of c, where 'a = nat] by simp

lemma unat_high: "is_high c \<Longrightarrow> 0xD800 \<le> unat c \<and> unat c \<le> 0xDBFF"
  by (simp add: is_high_def word_le_nat_alt)

lemma unat_low: "is_low c \<Longrightarrow> 0xDC00 \<le> unat c \<and> unat c \<le> 0xDFFF"
  by (simp add: is_low_def word_le_nat_alt)

lemma join_bound: "is_high c \<Longrightarrow> is_low d \<Longrightarrow> join_surrogates c d < 0x110000"
  by (drule unat_high, drule unat_low) (unfold join_surrogates_def, arith)

lemma utf16_join:
  assumes "is_high c" "is_low d"
  shows "utf16 (join_surrogates c d) = [c, d]"
proof -
  obtain x where x: "unat c = 0xD800 + x" "x < 0x400"
    using unat_high [OF assms(1)] by (auto simp: le_iff_add)
  obtain y where y: "unat d = 0xDC00 + y" "y < 0x400"
    using unat_low [OF assms(2)] by (auto simp: le_iff_add)
  have "join_surrogates c d - 0x10000 = x * 0x400 + y" by (simp add: join_surrogates_def x y)
  moreover have "(x * 0x400 + y) div 0x400 = x" "(x * 0x400 + y) mod 0x400 = y"
    using y(2) by simp_all
  moreover have "\<not> join_surrogates c d < 0x10000" by (simp add: join_surrogates_def)
  moreover have "of_nat (0xD800 + x) = c" "of_nat (0xDC00 + y) = d"
    by (simp_all flip: x(1) y(1))
  ultimately show ?thesis by (simp add: utf16_def)
qed

lemma code_points_decode:
  "code_points s = Some ps \<Longrightarrow> list_all (\<lambda>n. n < 0x110000) ps \<and> concat (map utf16 ps) = s"
proof (induction s arbitrary: ps rule: code_points.induct)
  case 1
  then show ?case by simp
next
  case (2 c)
  have "unat c < 0x10000" by (rule unat_jchar)
  with 2 show ?case by (auto simp: utf16_def split: if_splits)
next
  case (3 c d r)
  have c: "unat c < 0x10000" by (rule unat_jchar)
  then have plain: "utf16 (unat c) = [c]" by (simp add: utf16_def)
  show ?case
  proof (cases "is_high c")
    case True
    with 3 c show ?thesis by (auto simp: utf16_join join_bound split: if_splits)
  next
    case False
    with 3 c plain show ?thesis by (auto split: if_splits)
  qed
qed

lemma decode_encode: "encodeURIComponent s = Some t \<Longrightarrow> decode_uri t = Some s"
  using code_points_decode [of s]
  by (auto simp: encodeURIComponent_def decode_uri_def percent_bytes_points utf8_points_points)

lemma encode_chars: "encodeURIComponent s = Some t \<Longrightarrow> list_all (\<lambda>c. unreserved c \<or> c = 37) t"
proof -
  have "list_all (\<lambda>c. unreserved c \<or> c = 37) (percent b)" if "b < 256" for b
    using that by (simp add: percent_def upper_hex_unreserved)
  then have "list_all (\<lambda>c. unreserved c \<or> c = 37) (encode_point n)" if "n < 0x110000" for n
    using utf8_bytes [OF that] by (auto simp: encode_point_def list_all_iff)
  then show "encodeURIComponent s = Some t \<Longrightarrow> ?thesis"
    using code_points_decode [of s] by (fastforce simp: encodeURIComponent_def list_all_iff)
qed

text \<open>Identifiers made of unreserved characters, such as UUIDs, are left alone.\<close>
lemma unreserved_plain: "unreserved c \<Longrightarrow> \<not> is_high c \<and> \<not> is_low c \<and> unat c < 0x80"
proof -
  assume "unreserved c"
  then have "unat c \<le> 126" by (auto simp: unreserved_def word_le_nat_alt)
  then show ?thesis by (auto simp: is_high_def is_low_def word_le_nat_alt)
qed

lemma code_points_plain: "list_all unreserved s \<Longrightarrow> code_points s = Some (map unat s)"
  by (induction s rule: code_points.induct) (auto dest: unreserved_plain)

lemma encode_plain: "list_all unreserved s \<Longrightarrow> encodeURIComponent s = Some s"
proof -
  assume s: "list_all unreserved s"
  then have "concat (map encode_point (map unat s)) = s"
    by (induction s) (auto simp: encode_point_def dest: unreserved_plain)
  with s show ?thesis by (simp add: encodeURIComponent_def code_points_plain)
qed

section \<open>Cutting an address at a separator\<close>

fun split_on :: "jchar \<Rightarrow> jstring \<Rightarrow> jstring list" where
  "split_on x [] = [[]]"
| "split_on x (c # r) =
     (if c = x then [] # split_on x r
      else (case split_on x r of [] \<Rightarrow> [[c]] | s # ss \<Rightarrow> (c # s) # ss))"

lemma split_on_plain: "x \<notin> set s \<Longrightarrow> split_on x s = [s]"
  by (induction s) auto

lemma split_on_segment: "x \<notin> set s \<Longrightarrow> split_on x (s @ x # r) = s # split_on x r"
  by (induction s) auto

lemma split_on_join:
  "ss \<noteq> [] \<Longrightarrow> list_all (\<lambda>s. x \<notin> set s) ss \<Longrightarrow> split_on x (join_with [x] ss) = ss"
proof (induction ss)
  case (Cons s ss)
  then show ?case by (cases ss) (simp_all add: split_on_plain split_on_segment)
qed simp

end
