(* ===== verification/Types.thy ===== *)
theory Types
  imports Json_Text
begin

text \<open>
  The published contract as the console mirrors it (\<open>frontend/src/lib/types.ts\<close>):
  every interface is a record, every string union a datatype, \<open>T | null\<close> an option.
  \<open>PlaybookVersionDefinition extends PlaybookGraphInput\<close> and
  \<open>PlaybookWithVersions extends Playbook\<close> are record extensions. An optional property
  that may be absent or \<open>null\<close> (\<open>metadata\<close>, \<open>data\<close>) is one option: the console reads
  both alike. Integers of the contract are \<open>int\<close>, except \<open>sort_order\<close>, which the
  authoring form computes itself and which is therefore a \<open>number\<close>.
\<close>

section \<open>Playbooks\<close>

datatype version_status = Draft | Published | Archived

datatype node_kind = Decision | Terminal

record playbook =
  pb_id :: uuid
  pb_name :: jstring
  pb_description :: jstring
  pb_alert_type :: jstring
  pb_created_at :: jstring
  pb_updated_at :: jstring

record version_summary =
  vs_id :: uuid
  vs_version :: int
  vs_status :: version_status
  vs_created_at :: jstring
  vs_published_at :: "jstring option"

record playbook_with_versions = playbook +
  pb_versions :: "version_summary list"

record playbook_node =
  pn_id :: uuid
  pn_kind :: node_kind
  pn_title :: jstring
  pn_description :: jstring
  pn_terminal_resolution :: "jstring option"
  pn_metadata :: "json_object option"

record playbook_edge =
  pe_id :: uuid
  pe_from :: uuid
  pe_to :: uuid
  pe_label :: jstring
  pe_description :: "jstring option"
  pe_sort_order :: number

record graph_input =
  g_root :: "uuid option"
  g_nodes :: "playbook_node list"
  g_edges :: "playbook_edge list"

record version_definition = graph_input +
  v_id :: uuid
  v_playbook_id :: uuid
  v_version :: int
  v_status :: version_status
  v_created_at :: jstring
  v_published_at :: "jstring option"

record create_playbook_request =
  cp_name :: jstring
  cp_description :: jstring
  cp_alert_type :: jstring
  cp_definition :: "graph_input option"

record playbook_list =
  pl_items :: "playbook list"

record create_version_request =
  cv_clone_from :: "uuid option"

section \<open>Alerts\<close>

record alert =
  al_id :: uuid
  al_external_id :: "jstring option"
  al_alert_type :: jstring
  al_title :: jstring
  al_description :: jstring
  al_payload :: json_object
  al_occurred_at :: jstring
  al_created_at :: jstring

record create_alert_request =
  ca_external_id :: "jstring option"
  ca_alert_type :: jstring
  ca_title :: jstring
  ca_description :: jstring
  ca_occurred_at :: jstring
  ca_payload :: json_object

section \<open>Investigations\<close>

datatype investigation_status = InProgress | Completed

datatype actor_type = Human | Agent

record actor =
  ac_type :: actor_type
  ac_id :: "jstring option"

record evidence_item =
  ei_type :: jstring
  ei_summary :: jstring
  ei_data :: "json_object option"

record available_choice =
  ch_edge_id :: uuid
  ch_label :: jstring
  ch_description :: "jstring option"
  ch_to_node_id :: uuid

record investigation_step =
  is_id :: uuid
  is_sequence_number :: int
  is_node_id :: uuid
  is_selected_edge_id :: uuid
  is_actor :: actor
  is_rationale :: "jstring option"
  is_evidence :: "evidence_item list"
  is_created_at :: jstring

record investigation_state =
  iv_id :: uuid
  iv_alert :: alert
  iv_playbook_version_id :: uuid
  iv_status :: investigation_status
  iv_current_node :: playbook_node
  iv_available_choices :: "available_choice list"
  iv_final_resolution :: "jstring option"
  iv_started_at :: jstring
  iv_completed_at :: "jstring option"
  iv_steps :: "investigation_step list"

record start_request =
  st_playbook_version_id :: uuid

record submit_decision_request =
  sd_edge_id :: uuid
  sd_actor :: actor
  sd_rationale :: "jstring option"
  sd_evidence :: "evidence_item list"

record path_step =
  ps_step_number :: int
  ps_node_id :: uuid
  ps_selected_edge_id :: uuid
  ps_actor :: actor
  ps_rationale :: "jstring option"
  ps_evidence :: "evidence_item list"
  ps_created_at :: jstring

record report_summary =
  rs_id :: uuid
  rs_status :: investigation_status
  rs_final_resolution :: "jstring option"
  rs_started_at :: jstring
  rs_completed_at :: "jstring option"

record investigation_report =
  rp_investigation :: report_summary
  rp_alert :: alert
  rp_playbook_version :: version_definition
  rp_path :: "path_step list"

section \<open>Request bodies as JSON\<close>

text \<open>\<open>JSON.stringify\<close> of a request walks these objects in the order their literals list them.\<close>

definition opt_str :: "jstring option \<Rightarrow> json" where
  "opt_str x = (case x of None \<Rightarrow> JNull | Some s \<Rightarrow> JStr s)"

fun actor_type_text :: "actor_type \<Rightarrow> jstring" where
  "actor_type_text Human = js ''human''"
| "actor_type_text Agent = js ''agent''"

fun kind_text :: "node_kind \<Rightarrow> jstring" where
  "kind_text Decision = js ''decision''"
| "kind_text Terminal = js ''terminal''"

fun status_text :: "version_status \<Rightarrow> jstring" where
  "status_text Draft = js ''draft''"
| "status_text Published = js ''published''"
| "status_text Archived = js ''archived''"

definition actor_json :: "actor \<Rightarrow> json" where
  "actor_json a = JObj [(js ''type'', JStr (actor_type_text (ac_type a))), (js ''id'', opt_str (ac_id a))]"

definition evidence_json :: "evidence_item \<Rightarrow> json" where
  "evidence_json e = JObj
     ([(js ''type'', JStr (ei_type e)), (js ''summary'', JStr (ei_summary e))]
      @ (case ei_data e of None \<Rightarrow> [] | Some kvs \<Rightarrow> [(js ''data'', JObj kvs)]))"

definition decision_json :: "submit_decision_request \<Rightarrow> json" where
  "decision_json b = JObj
     [(js ''edge_id'', JStr (sd_edge_id b)),
      (js ''actor'', actor_json (sd_actor b)),
      (js ''rationale'', opt_str (sd_rationale b)),
      (js ''evidence'', JArr (map evidence_json (sd_evidence b)))]"

lemma opt_str_inject [simp]: "opt_str x = opt_str y \<longleftrightarrow> x = y"
  by (auto simp: opt_str_def split: option.splits)

lemma actor_type_text_inject [simp]: "actor_type_text x = actor_type_text y \<longleftrightarrow> x = y"
  by (cases x; cases y) auto

lemma actor_json_inject [simp]: "actor_json a = actor_json b \<longleftrightarrow> a = b"
  by (auto simp: actor_json_def)

lemma evidence_json_inject [simp]: "evidence_json a = evidence_json b \<longleftrightarrow> a = b"
  by (auto simp: evidence_json_def split: option.splits)

lemma decision_json_inject [simp]: "decision_json a = decision_json b \<longleftrightarrow> a = b"
proof -
  have "map evidence_json xs = map evidence_json ys \<longleftrightarrow> xs = ys" for xs ys
    by (rule inj_map_eq_map) (simp add: inj_def)
  then show ?thesis by (auto simp: decision_json_def)
qed

text \<open>Keys that are not array indices keep the order they were written in.\<close>
lemma index_of_js:
  "s \<noteq> [] \<Longrightarrow> \<not> is_digit (of_char (hd s)) \<Longrightarrow> index_of (js s) = None"
proof -
  assume s: "s \<noteq> []" "\<not> is_digit (of_char (hd s))"
  have "nat_text n \<noteq> js s" for n
  proof
    assume "nat_text n = js s"
    with s(1) have "of_char (hd s) \<in> set (nat_text n)"
      by (cases s) (auto simp: js_def)
    then show False using s(2) nat_text_digits by blast
  qed
  then show ?thesis by (simp add: index_of_def)
qed

lemma not_before_js [simp]:
  "s \<noteq> [] \<Longrightarrow> \<not> is_digit (of_char (hd s)) \<Longrightarrow> \<not> before (js s) k"
  by (simp add: before_def index_of_js)

definition wf_evidence :: "evidence_item \<Rightarrow> bool" where
  "wf_evidence e \<longleftrightarrow> (case ei_data e of None \<Rightarrow> True | Some kvs \<Rightarrow> wf_object kvs)"

text \<open>Metadata is a JSON object, canonically ordered.\<close>
definition wf_graph :: "graph_input \<Rightarrow> bool" where
  "wf_graph g \<longleftrightarrow> (\<forall>n\<in>set (g_nodes g). pred_option wf_object (pn_metadata n))"

lemma opt_str_wf [simp]: "wf_json (opt_str x)"
  by (simp add: opt_str_def split: option.split)

lemma actor_json_wf [simp]: "wf_json (actor_json a)"
  by (simp add: actor_json_def wf_object_iff canonical_def is_digit_def)

lemma evidence_json_wf: "wf_evidence e \<Longrightarrow> wf_json (evidence_json e)"
  by (auto simp: evidence_json_def wf_evidence_def wf_object_iff [of "_ # _"] wf_object_iff [of "_ @ _"]
      canonical_def is_digit_def split: option.splits)

lemma decision_json_wf: "list_all wf_evidence (sd_evidence b) \<Longrightarrow> wf_json (decision_json b)"
  by (auto simp: decision_json_def wf_object_iff canonical_def is_digit_def list_all_iff
      intro: evidence_json_wf)

end
