(* ===== verification/Api_Error.thy ===== *)
theory Api_Error
  imports Types
begin

text \<open>
  \<open>frontend/src/lib/api-error.ts\<close>, the error vocabulary of \<open>lib/types.ts\<close> and the
  notice \<open>components/ErrorNotice.tsx\<close> draws from a caught value. Error bodies are typed as
  the source types them; \<open>details\<close> entries stay JSON, since \<open>asGraphIssue\<close> inspects them.
  A table lookup \<open>TABLE[key]\<close> reads an object, so it also finds what every object inherits.
\<close>

section \<open>The vocabulary\<close>

datatype error_code = BAD_REQUEST | VALIDATION_FAILED | RESOURCE_NOT_FOUND | CONFLICT | PLAYBOOK_VERSION_NOT_DRAFT | PLAYBOOK_VERSION_NOT_PUBLISHED | INVALID_PLAYBOOK_GRAPH | INVESTIGATION_ALREADY_COMPLETED | INVALID_TRANSITION | IDEMPOTENCY_KEY_REUSED | ALERT_TYPE_MISMATCH | METHOD_NOT_ALLOWED | PAYLOAD_TOO_LARGE | NOT_READY | INTERNAL_ERROR

fun error_code_text :: "error_code \<Rightarrow> jstring" where
  "error_code_text BAD_REQUEST = js ''BAD_REQUEST''"
| "error_code_text VALIDATION_FAILED = js ''VALIDATION_FAILED''"
| "error_code_text RESOURCE_NOT_FOUND = js ''RESOURCE_NOT_FOUND''"
| "error_code_text CONFLICT = js ''CONFLICT''"
| "error_code_text PLAYBOOK_VERSION_NOT_DRAFT = js ''PLAYBOOK_VERSION_NOT_DRAFT''"
| "error_code_text PLAYBOOK_VERSION_NOT_PUBLISHED = js ''PLAYBOOK_VERSION_NOT_PUBLISHED''"
| "error_code_text INVALID_PLAYBOOK_GRAPH = js ''INVALID_PLAYBOOK_GRAPH''"
| "error_code_text INVESTIGATION_ALREADY_COMPLETED = js ''INVESTIGATION_ALREADY_COMPLETED''"
| "error_code_text INVALID_TRANSITION = js ''INVALID_TRANSITION''"
| "error_code_text IDEMPOTENCY_KEY_REUSED = js ''IDEMPOTENCY_KEY_REUSED''"
| "error_code_text ALERT_TYPE_MISMATCH = js ''ALERT_TYPE_MISMATCH''"
| "error_code_text METHOD_NOT_ALLOWED = js ''METHOD_NOT_ALLOWED''"
| "error_code_text PAYLOAD_TOO_LARGE = js ''PAYLOAD_TOO_LARGE''"
| "error_code_text NOT_READY = js ''NOT_READY''"
| "error_code_text INTERNAL_ERROR = js ''INTERNAL_ERROR''"

datatype graph_reason = R_missing_root | R_dangling_reference | R_unreachable_from_root | R_cycle_detected | R_decision_node_without_edges | R_terminal_node_with_edges | R_terminal_node_missing_resolution | R_decision_node_with_resolution

fun graph_reason_text :: "graph_reason \<Rightarrow> jstring" where
  "graph_reason_text R_missing_root = js ''missing_root''"
| "graph_reason_text R_dangling_reference = js ''dangling_reference''"
| "graph_reason_text R_unreachable_from_root = js ''unreachable_from_root''"
| "graph_reason_text R_cycle_detected = js ''cycle_detected''"
| "graph_reason_text R_decision_node_without_edges = js ''decision_node_without_edges''"
| "graph_reason_text R_terminal_node_with_edges = js ''terminal_node_with_edges''"
| "graph_reason_text R_terminal_node_missing_resolution = js ''terminal_node_missing_resolution''"
| "graph_reason_text R_decision_node_with_resolution = js ''decision_node_with_resolution''"

section \<open>Errors\<close>

record api_error_body =
  eb_code :: jstring
  eb_message :: jstring
  eb_details :: "json list option"

record api_error =
  ae_message :: jstring
  ae_status :: nat
  ae_code :: jstring
  ae_detail :: jstring
  ae_details :: "json list option"

text \<open>\<open>new ApiError(status, body)\<close>.\<close>
definition new_ApiError :: "nat \<Rightarrow> api_error_body \<Rightarrow> api_error" where
  "new_ApiError status body =
     \<lparr>ae_message = (if eb_message body = [] then js ''request failed with status '' @ nat_text status
                    else eb_message body),
      ae_status = status,
      ae_code = (if eb_code body = [] then js ''UNKNOWN'' else eb_code body),
      ae_detail = eb_message body,
      ae_details = eb_details body\<rparr>"

text \<open>A caught value: an \<open>ApiError\<close>, an abort, another \<open>Error\<close> or anything else (as text).\<close>
datatype thrown = Api_Failure api_error | Aborted jstring | Other_Failure jstring

section \<open>Tables\<close>

text \<open>What every object literal inherits from \<open>Object.prototype\<close>.\<close>
definition inherited_names :: "jstring list" where
  "inherited_names = map js
     [''constructor'', ''toString'', ''toLocaleString'', ''valueOf'', ''hasOwnProperty'',
      ''isPrototypeOf'', ''propertyIsEnumerable'', ''__proto__'', ''__defineGetter__'',
      ''__defineSetter__'', ''__lookupGetter__'', ''__lookupSetter__'']"

datatype lookup = Absent | Own jstring | Inherited jstring

definition table_lookup :: "(jstring \<times> jstring) list \<Rightarrow> jstring \<Rightarrow> lookup" where
  "table_lookup tab key =
     (case map_of tab key of Some v \<Rightarrow> Own v
      | None \<Rightarrow> if key \<in> set inherited_names then Inherited key else Absent)"

definition CODE_TITLES :: "(jstring \<times> jstring) list" where
  "CODE_TITLES = [
      (js ''PLAYBOOK_VERSION_NOT_PUBLISHED'',
         js ''That playbook version is still a draft. Publish it before starting an investigation against it.''),
      (js ''PLAYBOOK_VERSION_NOT_DRAFT'',
         js ''That playbook version is published, so its graph is frozen. Create a new version to change it.''),
      (js ''ALERT_TYPE_MISMATCH'',
         js ''This playbook is written for a different alert type. Pick a playbook registered for this alert'' @ [39] @ js ''s type.''),
      (js ''INVALID_TRANSITION'',
         js ''That choice is no longer available. The investigation has moved on '' @ em_dash @ js '' reload to see the current question.''),
      (js ''INVESTIGATION_ALREADY_COMPLETED'',
         js ''This investigation reached a terminal resolution and cannot be advanced. Open its report instead.''),
      (js ''IDEMPOTENCY_KEY_REUSED'',
         js ''This submission reused an idempotency key with different content, so it was rejected rather than recorded. Reload and submit again.''),
      (js ''INVALID_PLAYBOOK_GRAPH'',
         js ''The playbook graph cannot be published yet. Every problem found is listed below.''),
      (js ''RESOURCE_NOT_FOUND'',
         js ''That record does not exist. It may have been created against a different database.''),
      (js ''VALIDATION_FAILED'',
         js ''The request was rejected as invalid.''),
      (js ''BAD_REQUEST'',
         js ''The request was malformed.''),
      (js ''PAYLOAD_TOO_LARGE'',
         js ''The request body exceeded the server'' @ [39] @ js ''s size limit.''),
      (js ''METHOD_NOT_ALLOWED'',
         js ''That path exists, but not for this operation.''),
      (js ''NOT_READY'',
         js ''The API is not ready to serve traffic '' @ em_dash @ js '' its database is unreachable.''),
      (js ''INTERNAL_ERROR'',
         js ''The API failed unexpectedly. The cause is in its logs.''),
      (js ''NETWORK_ERROR'',
         js ''The console could not reach the API. Check that it is running.'')]"

text \<open>\<open>CODE_TITLES[code] ?? null\<close>; \<open>Absent\<close> is \<open>null\<close>.\<close>
definition explainErrorCode :: "jstring \<Rightarrow> lookup" where
  "explainErrorCode code = table_lookup CODE_TITLES code"

record graph_issue =
  gi_node_id :: "json option"
  gi_edge_id :: "json option"
  gi_reason :: jstring

definition asGraphIssue :: "json \<Rightarrow> graph_issue option" where
  "asGraphIssue detail =
     (case detail of
        JObj kvs \<Rightarrow>
          (case map_of kvs (js ''reason'') of
             Some (JStr r) \<Rightarrow> Some \<lparr>gi_node_id = map_of kvs (js ''node_id''),
                                    gi_edge_id = map_of kvs (js ''edge_id''), gi_reason = r\<rparr>
           | _ \<Rightarrow> None)
      | _ \<Rightarrow> None)"

definition GRAPH_REASONS :: "(jstring \<times> jstring) list" where
  "GRAPH_REASONS = [
      (js ''missing_root'',
         js ''No root node is set''),
      (js ''dangling_reference'',
         js ''References a node that does not exist in this version''),
      (js ''unreachable_from_root'',
         js ''Not reachable from the root node''),
      (js ''cycle_detected'',
         js ''Part of a cycle '' @ em_dash @ js '' playbooks must be acyclic''),
      (js ''decision_node_without_edges'',
         js ''Decision node offers no choices''),
      (js ''terminal_node_with_edges'',
         js ''Terminal node has outgoing choices''),
      (js ''terminal_node_missing_resolution'',
         js ''Terminal node has no resolution''),
      (js ''decision_node_with_resolution'',
         js ''Decision node carries a terminal resolution'')]"

definition explainGraphReason :: "jstring \<Rightarrow> lookup" where
  "explainGraphReason reason =
     (case table_lookup GRAPH_REASONS reason of Absent \<Rightarrow> Own reason | found \<Rightarrow> found)"

section \<open>The notice\<close>

text \<open>What \<open>ErrorNotice\<close> shows: the code, the HTTP status when there was one, the explanation,
  the server's message and the graph problems.\<close>
record notice =
  nt_code :: jstring
  nt_status :: "nat option"
  nt_explanation :: lookup
  nt_message :: jstring
  nt_issues :: "graph_issue list"

definition unexpected_notice :: "jstring \<Rightarrow> notice" where
  "unexpected_notice m =
     \<lparr>nt_code = js ''UNEXPECTED_ERROR'', nt_status = None,
      nt_explanation = explainErrorCode (js ''UNEXPECTED_ERROR''), nt_message = m, nt_issues = []\<rparr>"

definition error_notice :: "thrown \<Rightarrow> notice" where
  "error_notice err =
     (case err of
        Api_Failure api \<Rightarrow>
          \<lparr>nt_code = ae_code api,
           nt_status = (if ae_status api > 0 then Some (ae_status api) else None),
           nt_explanation = explainErrorCode (ae_code api),
           nt_message = ae_detail api,
           nt_issues = List.map_filter asGraphIssue (or_else (ae_details api) [])\<rparr>
      | Aborted m \<Rightarrow> unexpected_notice m
      | Other_Failure m \<Rightarrow> unexpected_notice m)"

section \<open>Lemmas\<close>

lemma error_code_text_inject: "error_code_text a = error_code_text b \<longleftrightarrow> a = b"
  by (cases a; cases b) auto

lemma graph_reason_text_inject [simp]: "graph_reason_text a = graph_reason_text b \<longleftrightarrow> a = b"
  by (cases a; cases b) auto

lemma explain_titled:
  "c \<noteq> CONFLICT \<Longrightarrow> \<exists>t. explainErrorCode (error_code_text c) = Own t \<and> t \<noteq> []"
  by (cases c) (simp_all add: explainErrorCode_def table_lookup_def CODE_TITLES_def)

lemma explain_untitled: "explainErrorCode (error_code_text CONFLICT) = Absent"
  by (simp add: explainErrorCode_def table_lookup_def CODE_TITLES_def inherited_names_def)

lemma explain_reason:
  "\<exists>t. explainGraphReason (graph_reason_text r) = Own t \<and> map_of GRAPH_REASONS (graph_reason_text r) = Some t \<and> t \<noteq> []"
  by (cases r) (simp_all add: explainGraphReason_def table_lookup_def GRAPH_REASONS_def)

lemma explain_fallback:
  "key \<notin> fst ` set GRAPH_REASONS \<Longrightarrow> key \<notin> set inherited_names \<Longrightarrow> explainGraphReason key = Own key"
  by (simp add: explainGraphReason_def table_lookup_def map_of_eq_None_iff [THEN iffD2])

text \<open>A problem as the server reports it: the node or the edge it is about, when it is about one.\<close>
definition issue_json :: "uuid option \<Rightarrow> uuid option \<Rightarrow> graph_reason \<Rightarrow> json" where
  "issue_json node edge r =
     JObj ((case node of None \<Rightarrow> [] | Some n \<Rightarrow> [(js ''node_id'', JStr n)])
           @ (case edge of None \<Rightarrow> [] | Some e \<Rightarrow> [(js ''edge_id'', JStr e)])
           @ [(js ''reason'', JStr (graph_reason_text r))])"

lemma asGraphIssue_issue_json:
  "asGraphIssue (issue_json node edge r) =
     Some \<lparr>gi_node_id = map_option JStr node, gi_edge_id = map_option JStr edge, gi_reason = graph_reason_text r\<rparr>"
  by (cases node; cases edge) (simp_all add: asGraphIssue_def issue_json_def js_simps)

text \<open>An inherited name is not \<open>null\<close>: the lookup hands back a built-in, not a sentence.\<close>
lemma explain_inherited: "explainErrorCode (js ''constructor'') = Inherited (js ''constructor'')"
  by (simp add: explainErrorCode_def table_lookup_def CODE_TITLES_def inherited_names_def)


section \<open>Properties\<close>

text \<open>Every code of the published contract but \<open>CONFLICT\<close> is explained by a sentence of its
  own table, and every reason a publish can be rejected for has its wording; \<open>CONFLICT\<close>
  falls back to the server's message alone.\<close>
theorem vocabulary_explained:
  "((\<exists>t. explainErrorCode (error_code_text c) = Own t \<and> t \<noteq> []) \<longleftrightarrow> c \<noteq> CONFLICT)
   \<and> (\<exists>t. explainGraphReason (graph_reason_text r) = Own t \<and> (graph_reason_text r, t) \<in> set GRAPH_REASONS)"
  using explain_titled [of c] explain_untitled explain_reason [of r]
  by (auto dest: map_of_SomeD)

text \<open>A publish rejection that lists graph problems shows every one of them, in the server's
  order, with its node and its edge, its code and its HTTP status; no entry of \<open>details\<close> is lost.\<close>
theorem rejection_fully_listed:
  "error_notice (Api_Failure (new_ApiError (Suc n)
     \<lparr>eb_code = error_code_text c, eb_message = m,
      eb_details = Some (map (\<lambda>(node, edge, r). issue_json node edge r) issues)\<rparr>))
   = \<lparr>nt_code = error_code_text c, nt_status = Some (Suc n),
      nt_explanation = explainErrorCode (error_code_text c), nt_message = m,
      nt_issues = map (\<lambda>(node, edge, r). \<lparr>gi_node_id = map_option JStr node, gi_edge_id = map_option JStr edge,
                             gi_reason = graph_reason_text r\<rparr>) issues\<rparr>"
proof -
  have "error_code_text c \<noteq> []" by (cases c) simp_all
  moreover have "List.map_filter asGraphIssue (map (\<lambda>(node, edge, r). issue_json node edge r) issues) =
      map (\<lambda>(node, edge, r). \<lparr>gi_node_id = map_option JStr node, gi_edge_id = map_option JStr edge,
                 gi_reason = graph_reason_text r\<rparr>) issues"
    by (induction issues) (auto simp: map_filter_simps asGraphIssue_issue_json)
  ultimately show ?thesis
    by (simp add: error_notice_def new_ApiError_def)
qed

end
