(* ===== verification/Api.thy ===== *)
theory Api
  imports Uri Api_Error
begin

text \<open>
  \<open>frontend/src/lib/api.ts\<close>: the request every endpoint function sends and what its promise
  settles with. \<open>fetch\<close> is cut in two: the call handed to it, and the outcome it comes back
  with. The casts \<open>body as T\<close> are unchecked in the source, so an answer's data is its JSON value.
\<close>

section \<open>Request bodies\<close>

text \<open>\<open>JSON.stringify\<close> writes a finite number as \<open>String(n)\<close> does, and any other as \<open>null\<close>.\<close>
definition number_json :: "number \<Rightarrow> json" where
  "number_json n = (case parse_number (number_text n) of Some (d, []) \<Rightarrow> JNum d | _ \<Rightarrow> JNull)"

text \<open>Every node that is sent names its metadata, \<open>null\<close> when there are none.\<close>
definition node_json :: "playbook_node \<Rightarrow> json" where
  "node_json n = JObj
     [(js ''id'', JStr (pn_id n)), (js ''kind'', JStr (kind_text (pn_kind n))),
      (js ''title'', JStr (pn_title n)), (js ''description'', JStr (pn_description n)),
      (js ''terminal_resolution'', opt_str (pn_terminal_resolution n)),
      (js ''metadata'', case pn_metadata n of None \<Rightarrow> JNull | Some kvs \<Rightarrow> JObj kvs)]"

definition edge_json :: "playbook_edge \<Rightarrow> json" where
  "edge_json e = JObj
     [(js ''id'', JStr (pe_id e)), (js ''from_node_id'', JStr (pe_from e)), (js ''to_node_id'', JStr (pe_to e)),
      (js ''label'', JStr (pe_label e)), (js ''description'', opt_str (pe_description e)),
      (js ''sort_order'', number_json (pe_sort_order e))]"

definition graph_json :: "graph_input \<Rightarrow> json" where
  "graph_json g = JObj
     [(js ''root_node_id'', opt_str (g_root g)),
      (js ''nodes'', JArr (map (node_json) (g_nodes g))),
      (js ''edges'', JArr (map edge_json (g_edges g)))]"

definition playbook_json :: "create_playbook_request \<Rightarrow> json" where
  "playbook_json b = JObj
     [(js ''name'', JStr (cp_name b)), (js ''description'', JStr (cp_description b)),
      (js ''alert_type'', JStr (cp_alert_type b)),
      (js ''definition'', case cp_definition b of None \<Rightarrow> JNull | Some g \<Rightarrow> graph_json g)]"

definition alert_json :: "create_alert_request \<Rightarrow> json" where
  "alert_json b = JObj
     [(js ''external_id'', opt_str (ca_external_id b)), (js ''alert_type'', JStr (ca_alert_type b)),
      (js ''title'', JStr (ca_title b)), (js ''description'', JStr (ca_description b)),
      (js ''occurred_at'', JStr (ca_occurred_at b)), (js ''payload'', JObj (ca_payload b))]"

text \<open>An absent property (\<open>{}\<close>) is left out.\<close>
definition version_json :: "create_version_request \<Rightarrow> json" where
  "version_json b = JObj
     (case cv_clone_from b of None \<Rightarrow> [] | Some v \<Rightarrow> [(js ''clone_from_version_id'', JStr v)])"

definition start_json :: "start_request \<Rightarrow> json" where
  "start_json b = JObj [(js ''playbook_version_id'', JStr (st_playbook_version_id b))]"

lemma number_json_wf [simp]: "wf_json (number_json n)"
  by (auto simp: number_json_def dest: parse_number_ok split: option.split list.split)

lemma node_json_wf: "pred_option wf_object (pn_metadata n) \<Longrightarrow> wf_json (node_json n)"
  by (auto simp: node_json_def wf_object_iff [of "_ # _"] canonical_def is_digit_def split: option.splits)

lemma edge_json_wf [simp]: "wf_json (edge_json e)"
  by (simp add: edge_json_def wf_object_iff [of "_ # _"] canonical_def is_digit_def)

lemma graph_json_wf: "wf_graph g \<Longrightarrow> wf_json (graph_json g)"
  by (auto simp: graph_json_def wf_graph_def wf_object_iff [of "_ # _"] canonical_def is_digit_def list_all_iff
      intro: node_json_wf)

lemma playbook_json_wf:
  "pred_option wf_graph (cp_definition b) \<Longrightarrow> wf_json (playbook_json b)"
  by (auto simp: playbook_json_def wf_object_iff [of "_ # _"] canonical_def is_digit_def graph_json_wf split: option.split)

lemma alert_json_wf: "wf_object (ca_payload b) \<Longrightarrow> wf_json (alert_json b)"
  by (simp add: alert_json_def wf_object_iff [of "_ # _"] canonical_def is_digit_def wf_JObj)

lemma small_json_wf [simp]: "wf_json (version_json b)" "wf_json (start_json c)"
  by (simp_all add: version_json_def start_json_def wf_object_iff canonical_def split: option.split)

section \<open>Calls\<close>

datatype http_method = GET | POST | PUT

record http_call =
  hc_method :: http_method
  hc_url :: jstring
  hc_headers :: "(jstring \<times> jstring) list"
  hc_body :: "jstring option"

definition BASE :: jstring where "BASE = js ''/api/v1''"

text \<open>\<open>request\<close> up to its \<open>fetch\<close>.\<close>
definition request_call :: "jstring \<Rightarrow> http_method \<Rightarrow> jstring option \<Rightarrow> jstring option \<Rightarrow> http_call" where
  "request_call path verb body idempotencyKey =
     \<lparr>hc_method = verb, hc_url = BASE @ path,
      hc_headers =
        (if body \<noteq> None then [(js ''Content-Type'', js ''application/json'')] else [])
        @ (case idempotencyKey of None \<Rightarrow> []
           | Some k \<Rightarrow> if k = [] then [] else [(js ''Idempotency-Key'', k)]),
      hc_body = body\<rparr>"

definition get_call :: "jstring \<Rightarrow> http_call" where
  "get_call path = request_call path GET None None"

definition post_call :: "jstring \<Rightarrow> json \<Rightarrow> http_call" where
  "post_call path body = request_call path POST (Some (stringify body)) None"

text \<open>\<open>None\<close> is the \<open>URIError\<close> of an alert type with a lone surrogate.\<close>
definition listPlaybooks :: "jstring option \<Rightarrow> http_call option" where
  "listPlaybooks alertType =
     (case alertType of
        None \<Rightarrow> Some (get_call (js ''/playbooks''))
      | Some t \<Rightarrow>
          if t = [] then Some (get_call (js ''/playbooks''))
          else map_option (\<lambda>q. get_call (js ''/playbooks'' @ js ''?alert_type='' @ q)) (encodeURIComponent t))"

definition getPlaybook :: "uuid \<Rightarrow> http_call" where
  "getPlaybook playbookId = get_call (js ''/playbooks/'' @ playbookId)"

definition createPlaybook :: "create_playbook_request \<Rightarrow> http_call" where
  "createPlaybook body = post_call (js ''/playbooks'') (playbook_json body)"

definition createPlaybookVersion :: "uuid \<Rightarrow> create_version_request \<Rightarrow> http_call" where
  "createPlaybookVersion playbookId body =
     post_call (js ''/playbooks/'' @ playbookId @ js ''/versions'') (version_json body)"

definition getPlaybookVersion :: "uuid \<Rightarrow> http_call" where
  "getPlaybookVersion versionId = get_call (js ''/playbook-versions/'' @ versionId)"

definition replacePlaybookVersionGraph :: "uuid \<Rightarrow> graph_input \<Rightarrow> http_call" where
  "replacePlaybookVersionGraph versionId body =
     request_call (js ''/playbook-versions/'' @ versionId) PUT (Some (stringify (graph_json body))) None"

definition publishPlaybookVersion :: "uuid \<Rightarrow> http_call" where
  "publishPlaybookVersion versionId =
     request_call (js ''/playbook-versions/'' @ versionId @ js ''/publish'') POST None None"

definition createAlert :: "create_alert_request \<Rightarrow> http_call" where
  "createAlert body = post_call (js ''/alerts'') (alert_json body)"

definition getAlert :: "uuid \<Rightarrow> http_call" where
  "getAlert alertId = get_call (js ''/alerts/'' @ alertId)"

definition startInvestigation :: "uuid \<Rightarrow> start_request \<Rightarrow> http_call" where
  "startInvestigation alertId body =
     post_call (js ''/alerts/'' @ alertId @ js ''/investigations'') (start_json body)"

definition getInvestigation :: "uuid \<Rightarrow> http_call" where
  "getInvestigation investigationId = get_call (js ''/investigations/'' @ investigationId)"

definition submitDecision :: "uuid \<Rightarrow> submit_decision_request \<Rightarrow> jstring \<Rightarrow> http_call" where
  "submitDecision investigationId body idempotencyKey =
     request_call (js ''/investigations/'' @ investigationId @ js ''/decisions'') POST
       (Some (stringify (decision_json body))) (Some idempotencyKey)"

definition getInvestigationReport :: "uuid \<Rightarrow> http_call" where
  "getInvestigationReport investigationId =
     get_call (js ''/investigations/'' @ investigationId @ js ''/report'')"

lemmas endpoint_defs = getPlaybook_def createPlaybook_def createPlaybookVersion_def getPlaybookVersion_def
  replacePlaybookVersionGraph_def publishPlaybookVersion_def createAlert_def getAlert_def
  startInvestigation_def getInvestigation_def submitDecision_def getInvestigationReport_def
  get_call_def post_call_def

section \<open>Answers\<close>

text \<open>What \<open>fetch\<close> and \<open>response.text()\<close> come back with: an abort, another failure (with its
  message when it is an \<open>Error\<close>), or a status with a body text that may itself fail to arrive.\<close>
datatype fetched =
    Fetch_Aborted jstring
  | Fetch_Failed "jstring option"
  | Answered nat "thrown + jstring"

definition response_ok :: "nat \<Rightarrow> bool" where
  "response_ok status \<longleftrightarrow> 200 \<le> status \<and> status \<le> 299"

text \<open>The properties \<open>ApiError\<close> reads off a body that is cast unchecked: a code or a message that
  is not a text counts as absent, as does a \<open>details\<close> that is not an array.\<close>
definition text_prop :: "json \<Rightarrow> jstring \<Rightarrow> jstring" where
  "text_prop v k =
     (case v of JObj kvs \<Rightarrow> (case map_of kvs k of Some (JStr s) \<Rightarrow> s | _ \<Rightarrow> []) | _ \<Rightarrow> [])"

definition list_prop :: "json \<Rightarrow> jstring \<Rightarrow> json list option" where
  "list_prop v k =
     (case v of JObj kvs \<Rightarrow> (case map_of kvs k of Some (JArr vs) \<Rightarrow> Some vs | _ \<Rightarrow> None) | _ \<Rightarrow> None)"

definition error_body :: "json \<Rightarrow> api_error_body" where
  "error_body v =
     \<lparr>eb_code = text_prop v (js ''code''), eb_message = text_prop v (js ''message''),
      eb_details = list_prop v (js ''details'')\<rparr>"

definition plain_failure :: "nat \<Rightarrow> jstring \<Rightarrow> jstring \<Rightarrow> thrown" where
  "plain_failure status code message =
     Api_Failure (new_ApiError status \<lparr>eb_code = code, eb_message = message, eb_details = None\<rparr>)"

record api_result =
  ar_data :: json
  ar_status :: nat

definition request_answer :: "fetched \<Rightarrow> thrown + api_result" where
  "request_answer outcome =
     (case outcome of
        Fetch_Aborted m \<Rightarrow> Inl (Aborted m)
      | Fetch_Failed m \<Rightarrow>
          Inl (plain_failure 0 (js ''NETWORK_ERROR'') (or_else m (js ''the request could not be sent'')))
      | Answered status (Inl broken) \<Rightarrow> Inl broken
      | Answered status (Inr raw) \<Rightarrow>
          (case (if raw = [] then Some JNull else parse_json raw) of
             None \<Rightarrow>
               if response_ok status then Inr \<lparr>ar_data = JNull, ar_status = status\<rparr>
               else Inl (plain_failure status (js ''BAD_GATEWAY_RESPONSE'') (take 300 raw))
           | Some body \<Rightarrow>
               if response_ok status then Inr \<lparr>ar_data = body, ar_status = status\<rparr>
               else Inl (if body = JNull
                 then plain_failure status (js ''INTERNAL_ERROR'') (js ''request failed with status '' @ nat_text status)
                 else Api_Failure (new_ApiError status (error_body body)))))"

definition json_answer :: "fetched \<Rightarrow> thrown + json" where
  "json_answer outcome = (case request_answer outcome of Inl err \<Rightarrow> Inl err | Inr r \<Rightarrow> Inr (ar_data r))"

section \<open>Properties\<close>

lemma new_ApiError_shape:
  "ae_status (new_ApiError s b) = s \<and> ae_code (new_ApiError s b) \<noteq> [] \<and> ae_message (new_ApiError s b) \<noteq> []"
  by (simp add: new_ApiError_def)

lemma failed_answer:
  assumes "\<not> response_ok status"
  shows "\<exists>err. request_answer (Answered status (Inr raw)) = Inl (Api_Failure err) \<and> ae_status err = status
    \<and> ae_code err \<noteq> [] \<and> ae_message err \<noteq> []"
  using assms new_ApiError_shape [of status]
  by (auto simp: request_answer_def plain_failure_def split: option.split)

text \<open>Every way a call can go wrong reaches the screen as a value it can show: a response that is
  not a success becomes an API error with its own status, a code and a message that is never
  blank, whatever its body is; a request that could not be sent is status 0 with
  \<open>NETWORK_ERROR\<close>; an abort stays an abort; and a success never becomes an error.\<close>
theorem answers_classified:
  "case outcome of
     Fetch_Aborted m \<Rightarrow> request_answer outcome = Inl (Aborted m)
   | Fetch_Failed m \<Rightarrow>
       \<exists>err. request_answer outcome = Inl (Api_Failure err) \<and> ae_status err = 0
         \<and> ae_code err = js ''NETWORK_ERROR'' \<and> ae_message err \<noteq> []
   | Answered status (Inl broken) \<Rightarrow> request_answer outcome = Inl broken
   | Answered status (Inr raw) \<Rightarrow>
       if response_ok status then \<exists>data. request_answer outcome = Inr \<lparr>ar_data = data, ar_status = status\<rparr>
       else \<exists>err. request_answer outcome = Inl (Api_Failure err) \<and> ae_status err = status
              \<and> ae_code err \<noteq> [] \<and> ae_message err \<noteq> []"
proof (cases outcome)
  case (Fetch_Aborted m)
  then show ?thesis by (simp add: request_answer_def)
next
  case (Fetch_Failed m)
  then show ?thesis by (simp add: request_answer_def plain_failure_def new_ApiError_def)
next
  case (Answered status reply)
  show ?thesis
  proof (cases reply)
    case (Inl broken)
    with Answered show ?thesis by (simp add: request_answer_def)
  next
    case (Inr raw)
    then show ?thesis
      using Answered failed_answer [of status raw]
      by (auto simp: request_answer_def split: option.split)
  qed
qed

text \<open>A success whose body is not JSON is indistinguishable from one without a body.\<close>
lemma unreadable_success_is_null:
  assumes "response_ok status" "parse_json raw = None"
  shows "request_answer (Answered status (Inr raw)) = request_answer (Answered status (Inr []))"
  using assms by (simp add: request_answer_def)

text \<open>Ids are not encoded: one that holds a slash addresses another endpoint.\<close>
lemma raw_id_addresses_elsewhere:
  "getPlaybook (js ''../alerts/'' @ x) = get_call (js ''/playbooks/../alerts/'' @ x)"
  "hc_url (getInvestigation (x @ js ''/report'')) = hc_url (getInvestigationReport x)"
  by (simp_all add: endpoint_defs request_call_def js_append [symmetric])

lemma decision_key_sent:
  "k \<noteq> [] \<Longrightarrow> map_of (hc_headers (submitDecision i b k)) (js ''Idempotency-Key'') = Some k"
  by (simp add: endpoint_defs request_call_def)

end
