(* ===== verification/Contract.thy ===== *)
theory Contract
  imports Api
begin

text \<open>
  The published contract, \<open>api/openapi.yaml\<close>, and the typed mirror of it in \<open>lib/types.ts\<close>, as two
  families of schemas over JSON values: what it is for a value to conform, an ordering of schemas
  that is sound for it, and the comparison of the two families. Formats of ids are the argument
  \<open>valid_id\<close>; a moment is checked for its RFC 3339 shape.
\<close>

section \<open>Schemas\<close>

datatype schema =
    Any_Text
  | Filled
  | Id_Text
  | Moment
  | One_Of "string list"
  | Integral
  | Numeric
  | Any_Object
  | Nullable schema
  | Listed schema
  | Object_Of "field list" (closed: bool)
and field = Field (field_name: string) (required: bool) schema

definition all_digits :: "jstring \<Rightarrow> bool" where
  "all_digits s \<longleftrightarrow> list_all is_digit s"

text \<open>\<open>:dd\<close>.\<close>
definition is_seconds :: "jstring \<Rightarrow> bool" where
  "is_seconds s \<longleftrightarrow> length s = 3 \<and> s ! 0 = 58 \<and> all_digits (drop 1 s)"

text \<open>\<open>dddd-dd-ddTdd:dd\<close>, a minute.\<close>
definition is_minute :: "jstring \<Rightarrow> bool" where
  "is_minute s \<longleftrightarrow> length s = 16 \<and> all_digits (take 4 s) \<and> s ! 4 = 45 \<and> all_digits (take 2 (drop 5 s))
     \<and> s ! 7 = 45 \<and> all_digits (take 2 (drop 8 s)) \<and> s ! 10 = 84 \<and> all_digits (take 2 (drop 11 s))
     \<and> s ! 13 = 58 \<and> all_digits (take 2 (drop 14 s))"

text \<open>\<open>.d+\<close> or nothing.\<close>
definition is_fraction :: "jstring \<Rightarrow> bool" where
  "is_fraction s \<longleftrightarrow> s = [] \<or> (1 < length s \<and> s ! 0 = 46 \<and> all_digits (drop 1 s))"

text \<open>\<open>Z\<close>, or an offset \<open>+dd:dd\<close> or \<open>-dd:dd\<close>.\<close>
definition is_zone :: "jstring \<Rightarrow> bool" where
  "is_zone s \<longleftrightarrow> s = [90] \<or> length s = 6 \<and> s ! 0 \<in> {43, 45} \<and> all_digits (take 2 (drop 1 s)) \<and> s ! 3 = 58
     \<and> all_digits (drop 4 s)"

text \<open>A moment as RFC 3339 writes it: date, time, fraction and zone.\<close>
definition is_moment :: "jstring \<Rightarrow> bool" where
  "is_moment s \<longleftrightarrow> is_minute (take 16 s) \<and> is_seconds (take 3 (drop 16 s))
     \<and> is_fraction (takeWhile (\<lambda>c. c = 46 \<or> is_digit c) (drop 19 s))
     \<and> is_zone (dropWhile (\<lambda>c. c = 46 \<or> is_digit c) (drop 19 s))"

fun conforms :: "(uuid \<Rightarrow> bool) \<Rightarrow> schema \<Rightarrow> json \<Rightarrow> bool"
  and has_field :: "(uuid \<Rightarrow> bool) \<Rightarrow> field \<Rightarrow> json_object \<Rightarrow> bool"
where
  "conforms valid_id Any_Text j = (case j of JStr _ \<Rightarrow> True | _ \<Rightarrow> False)"
| "conforms valid_id Filled j = (case j of JStr s \<Rightarrow> s \<noteq> [] | _ \<Rightarrow> False)"
| "conforms valid_id Id_Text j = (case j of JStr s \<Rightarrow> valid_id s | _ \<Rightarrow> False)"
| "conforms valid_id Moment j = (case j of JStr s \<Rightarrow> is_moment s | _ \<Rightarrow> False)"
| "conforms valid_id (One_Of names) j = (case j of JStr s \<Rightarrow> s \<in> js ` set names | _ \<Rightarrow> False)"
| "conforms valid_id Integral j = (case j of JNum d \<Rightarrow> 0 \<le> dexp d | _ \<Rightarrow> False)"
| "conforms valid_id Numeric j = (case j of JNum _ \<Rightarrow> True | _ \<Rightarrow> False)"
| "conforms valid_id Any_Object j = (case j of JObj _ \<Rightarrow> True | _ \<Rightarrow> False)"
| "conforms valid_id (Nullable t) j = (j = JNull \<or> conforms valid_id t j)"
| "conforms valid_id (Listed t) j = (case j of JArr vs \<Rightarrow> list_all (conforms valid_id t) vs | _ \<Rightarrow> False)"
| "conforms valid_id (Object_Of fs sealed) j =
     (case j of
        JObj kvs \<Rightarrow> list_all (\<lambda>f. has_field valid_id f kvs) fs
          \<and> (sealed \<longrightarrow> list_all (\<lambda>kv. fst kv \<in> (\<lambda>f. js (field_name f)) ` set fs) kvs)
      | _ \<Rightarrow> False)"
| "has_field valid_id (Field name needed t) kvs =
     (case map_of kvs (js name) of None \<Rightarrow> \<not> needed | Some v \<Rightarrow> conforms valid_id t v)"

section \<open>An ordering of schemas\<close>

definition given_null :: "schema \<Rightarrow> schema" where
  "given_null t = (case t of Nullable u \<Rightarrow> u | _ \<Rightarrow> t)"

fun fits :: "schema \<Rightarrow> schema \<Rightarrow> bool" and field_fits :: "field \<Rightarrow> field \<Rightarrow> bool" where
  "fits Any_Text t = (given_null t = Any_Text)"
| "fits Filled t = (given_null t \<in> {Filled, Any_Text})"
| "fits Id_Text t = (given_null t \<in> {Id_Text, Any_Text})"
| "fits Moment t = (given_null t \<in> {Moment, Any_Text})"
| "fits (One_Of names) t =
     (case given_null t of Any_Text \<Rightarrow> True | One_Of names1 \<Rightarrow> set names \<subseteq> set names1 | _ \<Rightarrow> False)"
| "fits Integral t = (given_null t \<in> {Integral, Numeric})"
| "fits Numeric t = (given_null t = Numeric)"
| "fits Any_Object t = (given_null t = Any_Object)"
| "fits (Nullable a) t = (case t of Nullable b \<Rightarrow> fits a b | _ \<Rightarrow> False)"
| "fits (Listed a) t = (case given_null t of Listed b \<Rightarrow> fits a b | _ \<Rightarrow> False)"
| "fits (Object_Of fs sealed) t =
     (case given_null t of
        Any_Object \<Rightarrow> True
      | Object_Of gs sealed' \<Rightarrow>
          list_all (\<lambda>g. list_ex (\<lambda>f. field_fits f g) fs) gs
          \<and> (sealed' \<longrightarrow> sealed \<and> field_name ` set fs \<subseteq> field_name ` set gs)
      | _ \<Rightarrow> False)"
| "field_fits (Field k needed a) g =
     (case g of Field k' needed' b \<Rightarrow> k = k' \<and> (needed' \<longrightarrow> needed) \<and> fits a b)"

lemma conforms_given_null: "conforms v (given_null t) j \<Longrightarrow> conforms v t j"
  by (cases t) (simp_all add: given_null_def)

text \<open>A value of the smaller schema is a value of the larger one.\<close>
lemma fits_sound:
  "conforms v a j \<Longrightarrow> fits a b \<Longrightarrow> conforms v b j"
  "has_field v f kvs \<Longrightarrow> field_fits f g \<Longrightarrow> has_field v g kvs"
proof (induction v a j and v f kvs arbitrary: b and g rule: conforms_has_field.induct)
  case (1 v j)
  then show ?case by - (rule conforms_given_null, simp)
next
  case (2 v j)
  from 2(2) have "given_null b = Filled \<or> given_null b = Any_Text" by simp
  then show ?case using 2(1) by - (rule conforms_given_null, auto split: json.splits)
next
  case (3 v j)
  from 3(2) have "given_null b = Id_Text \<or> given_null b = Any_Text" by simp
  then show ?case using 3(1) by - (rule conforms_given_null, auto split: json.splits)
next
  case (4 v j)
  from 4(2) have "given_null b = Moment \<or> given_null b = Any_Text" by simp
  then show ?case using 4(1) by - (rule conforms_given_null, auto split: json.splits)
next
  case (5 v names j)
  from 5(2) have "given_null b = Any_Text \<or> (\<exists>names1. given_null b = One_Of names1 \<and> set names \<subseteq> set names1)"
    by (cases "given_null b") simp_all
  then show ?case using 5(1) by - (rule conforms_given_null, auto split: json.splits)
next
  case (6 v j)
  from 6(2) have "given_null b = Integral \<or> given_null b = Numeric" by simp
  then show ?case using 6(1) by - (rule conforms_given_null, auto split: json.splits)
next
  case (7 v j)
  then show ?case by - (rule conforms_given_null, simp)
next
  case (8 v j)
  then show ?case by - (rule conforms_given_null, simp)
next
  case (9 v t j)
  from 9(3) obtain u where "b = Nullable u" "fits t u" by (cases b) simp_all
  with 9(1,2) show ?case by auto
next
  case (10 v t j)
  from 10(3) obtain u where u: "given_null b = Listed u" "fits t u" by (cases "given_null b") simp_all
  from 10(2) obtain vs where vs: "j = JArr vs" "list_all (conforms v t) vs" by (cases j) simp_all
  have "conforms v u x" if "x \<in> set vs" for x
    using 10(1) [OF vs(1) that] vs(2) u(2) that by (simp add: list_all_iff)
  then show ?case using u(1) vs(1) by - (rule conforms_given_null, simp add: list_all_iff)
next
  case (11 v fs sealed j)
  from 11(2) obtain kvs where kvs: "j = JObj kvs" "list_all (\<lambda>f. has_field v f kvs) fs"
    "sealed \<longrightarrow> list_all (\<lambda>kv. fst kv \<in> (\<lambda>f. js (field_name f)) ` set fs) kvs" by (cases j) simp_all
  from 11(3) consider "given_null b = Any_Object" | gs sealed' where "given_null b = Object_Of gs sealed'"
    by (cases "given_null b") simp_all
  then show ?case
  proof cases
    case 1
    with kvs(1) show ?thesis by - (rule conforms_given_null, simp)
  next
    case 2
    with 11(3) have fs: "list_all (\<lambda>g. list_ex (\<lambda>f. field_fits f g) fs) gs"
      and shut: "sealed' \<longrightarrow> sealed \<and> field_name ` set fs \<subseteq> field_name ` set gs" by simp_all
    have "has_field v g kvs" if g: "g \<in> set gs" for g
    proof -
      obtain f where f: "f \<in> set fs" "field_fits f g"
        using fs g unfolding list_all_iff list_ex_iff by blast
      with kvs(2) have "has_field v f kvs" by (simp add: list_all_iff)
      then show ?thesis using 11(1) [OF kvs(1) f(1)] f(2) by blast
    qed
    moreover have "list_all (\<lambda>kv. fst kv \<in> (\<lambda>f. js (field_name f)) ` set gs) kvs" if "sealed'"
    proof -
      have "(\<lambda>f. js (field_name f)) ` set fs \<subseteq> (\<lambda>f. js (field_name f)) ` set gs"
        using shut that by (metis image_image image_mono)
      then show ?thesis using shut kvs(3) that unfolding list_all_iff by blast
    qed
    ultimately show ?thesis using kvs(1) 2 by - (rule conforms_given_null, simp add: list_all_iff)
  qed
next
  case (12 v k needed t kvs)
  obtain needed' u where g: "g = Field k needed' u" "needed' \<longrightarrow> needed" "fits t u"
    using 12(3) by (cases g) simp
  show ?case using 12(1,2) g by (cases "map_of kvs (js k)") simp_all
qed

end
