(* ===== verification/Schemas.thy ===== *)
theory Schemas
  imports Contract
begin

text \<open>
  The schemas of \<open>api/openapi.yaml\<close> (\<open>oa_\<close>...) and the interfaces of \<open>lib/types.ts\<close> (\<open>ts_\<close>...), side
  by side, and how far the one mirrors the other. A TypeScript interface is open, its \<open>UUID\<close> is any
  string and its \<open>number\<close> any number.
\<close>

definition needed :: "string \<Rightarrow> schema \<Rightarrow> field" where "needed k t = Field k True t"
definition optional :: "string \<Rightarrow> schema \<Rightarrow> field" where "optional k t = Field k False t"
definition object_of :: "field list \<Rightarrow> schema" where "object_of fs = Object_Of fs False"

text \<open>\<open>allOf\<close> and \<open>extends\<close>.\<close>
definition and_fields :: "schema \<Rightarrow> field list \<Rightarrow> schema" where
  "and_fields t gs = (case t of Object_Of fs sealed \<Rightarrow> Object_Of (fs @ gs) sealed | _ \<Rightarrow> t)"

section \<open>The published contract\<close>

definition oa_status :: schema where "oa_status = One_Of [''draft'', ''published'', ''archived'']"
definition oa_kind :: schema where "oa_kind = One_Of [''decision'', ''terminal'']"
definition oa_investigation_status :: schema where "oa_investigation_status = One_Of [''in_progress'', ''completed'']"
definition oa_actor_type :: schema where "oa_actor_type = One_Of [''human'', ''agent'']"

definition oa_Error :: schema where
  "oa_Error = Object_Of [needed ''code'' Any_Text, needed ''message'' Any_Text, optional ''details'' (Listed Any_Object)] True"

definition oa_Playbook :: schema where
  "oa_Playbook = object_of
     [needed ''id'' Id_Text, needed ''name'' Any_Text, optional ''description'' Any_Text, needed ''alert_type'' Any_Text,
      needed ''created_at'' Moment, needed ''updated_at'' Moment]"

definition oa_PlaybookVersionSummary :: schema where
  "oa_PlaybookVersionSummary = object_of
     [needed ''id'' Id_Text, needed ''version'' Integral, needed ''status'' oa_status, needed ''created_at'' Moment,
      optional ''published_at'' (Nullable Moment)]"

definition oa_PlaybookWithVersions :: schema where
  "oa_PlaybookWithVersions = and_fields oa_Playbook [needed ''versions'' (Listed oa_PlaybookVersionSummary)]"

definition oa_PlaybookList :: schema where
  "oa_PlaybookList = object_of [optional ''items'' (Listed oa_Playbook)]"

definition oa_PlaybookNode :: schema where
  "oa_PlaybookNode = object_of
     [needed ''id'' Id_Text, needed ''kind'' oa_kind, needed ''title'' Any_Text, optional ''description'' Any_Text,
      optional ''terminal_resolution'' (Nullable Any_Text), optional ''metadata'' (Nullable Any_Object)]"

definition oa_PlaybookEdge :: schema where
  "oa_PlaybookEdge = object_of
     [needed ''id'' Id_Text, needed ''from_node_id'' Id_Text, needed ''to_node_id'' Id_Text, needed ''label'' Any_Text,
      optional ''description'' (Nullable Any_Text), optional ''sort_order'' Integral]"

definition oa_PlaybookGraphInput :: schema where
  "oa_PlaybookGraphInput = object_of
     [optional ''root_node_id'' (Nullable Id_Text), optional ''nodes'' (Listed oa_PlaybookNode),
      optional ''edges'' (Listed oa_PlaybookEdge)]"

definition oa_PlaybookVersionDefinition :: schema where
  "oa_PlaybookVersionDefinition = and_fields (object_of
     [needed ''id'' Id_Text, needed ''playbook_id'' Id_Text, needed ''version'' Integral, needed ''status'' oa_status,
      needed ''created_at'' Moment, optional ''published_at'' (Nullable Moment)])
     [optional ''root_node_id'' (Nullable Id_Text), optional ''nodes'' (Listed oa_PlaybookNode),
      optional ''edges'' (Listed oa_PlaybookEdge)]"

definition oa_CreatePlaybookRequest :: schema where
  "oa_CreatePlaybookRequest = object_of
     [needed ''name'' Any_Text, optional ''description'' Any_Text, needed ''alert_type'' Any_Text,
      optional ''definition'' (Nullable oa_PlaybookGraphInput)]"

definition oa_CreatePlaybookVersionRequest :: schema where
  "oa_CreatePlaybookVersionRequest = object_of [optional ''clone_from_version_id'' (Nullable Id_Text)]"

definition oa_Alert :: schema where
  "oa_Alert = object_of
     [needed ''id'' Id_Text, optional ''external_id'' (Nullable Any_Text), needed ''alert_type'' Any_Text,
      needed ''title'' Any_Text, optional ''description'' Any_Text, optional ''payload'' Any_Object,
      needed ''occurred_at'' Moment, needed ''created_at'' Moment]"

definition oa_CreateAlertRequest :: schema where
  "oa_CreateAlertRequest = object_of
     [optional ''external_id'' (Nullable Any_Text), needed ''alert_type'' Any_Text, needed ''title'' Any_Text,
      optional ''description'' Any_Text, needed ''occurred_at'' Moment, optional ''payload'' (Nullable Any_Object)]"

definition oa_Actor :: schema where
  "oa_Actor = object_of [needed ''type'' oa_actor_type, optional ''id'' (Nullable Any_Text)]"

definition oa_EvidenceItem :: schema where
  "oa_EvidenceItem = Object_Of
     [needed ''type'' Filled, needed ''summary'' Filled, optional ''data'' Any_Object] True"

definition oa_AvailableChoice :: schema where
  "oa_AvailableChoice = object_of
     [needed ''edge_id'' Id_Text, needed ''label'' Any_Text, optional ''description'' (Nullable Any_Text),
      needed ''to_node_id'' Id_Text]"

definition oa_InvestigationStep :: schema where
  "oa_InvestigationStep = object_of
     [needed ''id'' Id_Text, needed ''sequence_number'' Integral, needed ''node_id'' Id_Text,
      needed ''selected_edge_id'' Id_Text, needed ''actor'' oa_Actor, optional ''rationale'' (Nullable Any_Text),
      optional ''evidence'' (Listed oa_EvidenceItem), needed ''created_at'' Moment]"

definition oa_StartInvestigationRequest :: schema where
  "oa_StartInvestigationRequest = object_of [needed ''playbook_version_id'' Id_Text]"

definition oa_SubmitDecisionRequest :: schema where
  "oa_SubmitDecisionRequest = object_of
     [needed ''edge_id'' Id_Text, needed ''actor'' oa_Actor, optional ''rationale'' (Nullable Any_Text),
      optional ''evidence'' (Nullable (Listed oa_EvidenceItem))]"

definition oa_InvestigationState :: schema where
  "oa_InvestigationState = object_of
     [needed ''id'' Id_Text, needed ''alert'' oa_Alert, needed ''playbook_version_id'' Id_Text,
      needed ''status'' oa_investigation_status, needed ''current_node'' oa_PlaybookNode,
      optional ''available_choices'' (Listed oa_AvailableChoice), optional ''final_resolution'' (Nullable Any_Text),
      needed ''started_at'' Moment, optional ''completed_at'' (Nullable Moment),
      optional ''steps'' (Listed oa_InvestigationStep)]"

definition oa_PathStep :: schema where
  "oa_PathStep = object_of
     [needed ''step_number'' Integral, needed ''node_id'' Id_Text, needed ''selected_edge_id'' Id_Text,
      needed ''actor'' oa_Actor, optional ''rationale'' (Nullable Any_Text),
      optional ''evidence'' (Listed oa_EvidenceItem), needed ''created_at'' Moment]"

definition oa_InvestigationReport :: schema where
  "oa_InvestigationReport = object_of
     [needed ''investigation'' (object_of
        [needed ''id'' Id_Text, needed ''status'' oa_investigation_status, optional ''final_resolution'' (Nullable Any_Text),
         needed ''started_at'' Moment, optional ''completed_at'' (Nullable Moment)]),
      needed ''alert'' oa_Alert, needed ''playbook_version'' oa_PlaybookVersionDefinition,
      needed ''path'' (Listed oa_PathStep)]"

section \<open>The typed mirror\<close>

definition ts_UUID :: schema where "ts_UUID = Any_Text"
definition ts_PlaybookVersionStatus :: schema where
  "ts_PlaybookVersionStatus = One_Of [''draft'', ''published'', ''archived'']"
definition ts_PlaybookNodeKind :: schema where "ts_PlaybookNodeKind = One_Of [''decision'', ''terminal'']"
definition ts_InvestigationStatus :: schema where "ts_InvestigationStatus = One_Of [''in_progress'', ''completed'']"
definition ts_ActorType :: schema where "ts_ActorType = One_Of [''human'', ''agent'']"

text \<open>\<open>GraphValidationIssue | JsonObject\<close> is any object.\<close>
definition ts_ApiErrorBody :: schema where
  "ts_ApiErrorBody = object_of [needed ''code'' Any_Text, needed ''message'' Any_Text, optional ''details'' (Listed Any_Object)]"

definition ts_Playbook :: schema where
  "ts_Playbook = object_of
     [needed ''id'' ts_UUID, needed ''name'' Any_Text, needed ''description'' Any_Text, needed ''alert_type'' Any_Text,
      needed ''created_at'' Any_Text, needed ''updated_at'' Any_Text]"

definition ts_PlaybookVersionSummary :: schema where
  "ts_PlaybookVersionSummary = object_of
     [needed ''id'' ts_UUID, needed ''version'' Numeric, needed ''status'' ts_PlaybookVersionStatus,
      needed ''created_at'' Any_Text, needed ''published_at'' (Nullable Any_Text)]"

definition ts_PlaybookWithVersions :: schema where
  "ts_PlaybookWithVersions = and_fields ts_Playbook [needed ''versions'' (Listed ts_PlaybookVersionSummary)]"

definition ts_PlaybookList :: schema where
  "ts_PlaybookList = object_of [needed ''items'' (Listed ts_Playbook)]"

definition ts_PlaybookNode :: schema where
  "ts_PlaybookNode = object_of
     [needed ''id'' ts_UUID, needed ''kind'' ts_PlaybookNodeKind, needed ''title'' Any_Text, needed ''description'' Any_Text,
      needed ''terminal_resolution'' (Nullable Any_Text), optional ''metadata'' (Nullable Any_Object)]"

definition ts_PlaybookEdge :: schema where
  "ts_PlaybookEdge = object_of
     [needed ''id'' ts_UUID, needed ''from_node_id'' ts_UUID, needed ''to_node_id'' ts_UUID, needed ''label'' Any_Text,
      needed ''description'' (Nullable Any_Text), needed ''sort_order'' Numeric]"

definition ts_PlaybookGraphInput :: schema where
  "ts_PlaybookGraphInput = object_of
     [needed ''root_node_id'' (Nullable ts_UUID), needed ''nodes'' (Listed ts_PlaybookNode),
      needed ''edges'' (Listed ts_PlaybookEdge)]"

definition ts_PlaybookVersionDefinition :: schema where
  "ts_PlaybookVersionDefinition = and_fields ts_PlaybookGraphInput
     [needed ''id'' ts_UUID, needed ''playbook_id'' ts_UUID, needed ''version'' Numeric,
      needed ''status'' ts_PlaybookVersionStatus, needed ''created_at'' Any_Text, needed ''published_at'' (Nullable Any_Text)]"

definition ts_CreatePlaybookRequest :: schema where
  "ts_CreatePlaybookRequest = object_of
     [needed ''name'' Any_Text, optional ''description'' Any_Text, needed ''alert_type'' Any_Text,
      optional ''definition'' (Nullable ts_PlaybookGraphInput)]"

definition ts_CreatePlaybookVersionRequest :: schema where
  "ts_CreatePlaybookVersionRequest = object_of [optional ''clone_from_version_id'' (Nullable ts_UUID)]"

definition ts_Alert :: schema where
  "ts_Alert = object_of
     [needed ''id'' ts_UUID, needed ''external_id'' (Nullable Any_Text), needed ''alert_type'' Any_Text,
      needed ''title'' Any_Text, needed ''description'' Any_Text, needed ''payload'' Any_Object,
      needed ''occurred_at'' Any_Text, needed ''created_at'' Any_Text]"

definition ts_CreateAlertRequest :: schema where
  "ts_CreateAlertRequest = object_of
     [optional ''external_id'' (Nullable Any_Text), needed ''alert_type'' Any_Text, needed ''title'' Any_Text,
      optional ''description'' Any_Text, needed ''occurred_at'' Any_Text, optional ''payload'' Any_Object]"

definition ts_Actor :: schema where
  "ts_Actor = object_of [needed ''type'' ts_ActorType, needed ''id'' (Nullable Any_Text)]"

definition ts_EvidenceItem :: schema where
  "ts_EvidenceItem = object_of [needed ''type'' Any_Text, needed ''summary'' Any_Text, optional ''data'' Any_Object]"

definition ts_AvailableChoice :: schema where
  "ts_AvailableChoice = object_of
     [needed ''edge_id'' ts_UUID, needed ''label'' Any_Text, needed ''description'' (Nullable Any_Text),
      needed ''to_node_id'' ts_UUID]"

definition ts_InvestigationStep :: schema where
  "ts_InvestigationStep = object_of
     [needed ''id'' ts_UUID, needed ''sequence_number'' Numeric, needed ''node_id'' ts_UUID,
      needed ''selected_edge_id'' ts_UUID, needed ''actor'' ts_Actor, needed ''rationale'' (Nullable Any_Text),
      needed ''evidence'' (Listed ts_EvidenceItem), needed ''created_at'' Any_Text]"

definition ts_InvestigationState :: schema where
  "ts_InvestigationState = object_of
     [needed ''id'' ts_UUID, needed ''alert'' ts_Alert, needed ''playbook_version_id'' ts_UUID,
      needed ''status'' ts_InvestigationStatus, needed ''current_node'' ts_PlaybookNode,
      needed ''available_choices'' (Listed ts_AvailableChoice), needed ''final_resolution'' (Nullable Any_Text),
      needed ''started_at'' Any_Text, needed ''completed_at'' (Nullable Any_Text),
      needed ''steps'' (Listed ts_InvestigationStep)]"

definition ts_StartInvestigationRequest :: schema where
  "ts_StartInvestigationRequest = object_of [needed ''playbook_version_id'' ts_UUID]"

definition ts_SubmitDecisionRequest :: schema where
  "ts_SubmitDecisionRequest = object_of
     [needed ''edge_id'' ts_UUID, needed ''actor'' ts_Actor, optional ''rationale'' (Nullable Any_Text),
      optional ''evidence'' (Listed ts_EvidenceItem)]"

definition ts_PathStep :: schema where
  "ts_PathStep = object_of
     [needed ''step_number'' Numeric, needed ''node_id'' ts_UUID, needed ''selected_edge_id'' ts_UUID,
      needed ''actor'' ts_Actor, needed ''rationale'' (Nullable Any_Text),
      needed ''evidence'' (Listed ts_EvidenceItem), needed ''created_at'' Any_Text]"

definition ts_InvestigationReport :: schema where
  "ts_InvestigationReport = object_of
     [needed ''investigation'' (object_of
        [needed ''id'' ts_UUID, needed ''status'' ts_InvestigationStatus, needed ''final_resolution'' (Nullable Any_Text),
         needed ''started_at'' Any_Text, needed ''completed_at'' (Nullable Any_Text)]),
      needed ''alert'' ts_Alert, needed ''playbook_version'' ts_PlaybookVersionDefinition,
      needed ''path'' (Listed ts_PathStep)]"

lemmas schema_parts = needed_def optional_def object_of_def and_fields_def ts_UUID_def oa_status_def oa_kind_def
  oa_investigation_status_def oa_actor_type_def ts_PlaybookVersionStatus_def ts_PlaybookNodeKind_def
  ts_InvestigationStatus_def ts_ActorType_def

lemmas oa_defs = oa_Error_def oa_Playbook_def oa_PlaybookVersionSummary_def oa_PlaybookWithVersions_def
  oa_PlaybookList_def oa_PlaybookNode_def oa_PlaybookEdge_def oa_PlaybookGraphInput_def
  oa_PlaybookVersionDefinition_def oa_CreatePlaybookRequest_def oa_CreatePlaybookVersionRequest_def oa_Alert_def
  oa_CreateAlertRequest_def oa_Actor_def oa_EvidenceItem_def oa_AvailableChoice_def oa_InvestigationStep_def
  oa_StartInvestigationRequest_def oa_SubmitDecisionRequest_def oa_InvestigationState_def oa_PathStep_def
  oa_InvestigationReport_def

lemmas ts_defs = ts_ApiErrorBody_def ts_Playbook_def ts_PlaybookVersionSummary_def ts_PlaybookWithVersions_def
  ts_PlaybookList_def ts_PlaybookNode_def ts_PlaybookEdge_def ts_PlaybookGraphInput_def
  ts_PlaybookVersionDefinition_def ts_CreatePlaybookRequest_def ts_CreatePlaybookVersionRequest_def ts_Alert_def
  ts_CreateAlertRequest_def ts_Actor_def ts_EvidenceItem_def ts_AvailableChoice_def ts_InvestigationStep_def
  ts_StartInvestigationRequest_def ts_SubmitDecisionRequest_def ts_InvestigationState_def ts_PathStep_def
  ts_InvestigationReport_def

section \<open>Comparing them\<close>

text \<open>What an interface cannot say: formats, integers, minimal lengths, and that nothing else is there.\<close>
fun loosen :: "schema \<Rightarrow> schema" and loosen_field :: "field \<Rightarrow> field" where
  "loosen Filled = Any_Text"
| "loosen Id_Text = Any_Text"
| "loosen Moment = Any_Text"
| "loosen Integral = Numeric"
| "loosen (Nullable t) = Nullable (loosen t)"
| "loosen (Listed t) = Listed (loosen t)"
| "loosen (Object_Of fs sealed) = Object_Of (map loosen_field fs) False"
| "loosen t = t"
| "loosen_field (Field k r t) = Field k r (loosen t)"

text \<open>An answer that leaves no declared property out.\<close>
fun complete :: "schema \<Rightarrow> schema" and complete_field :: "field \<Rightarrow> field" where
  "complete (Nullable t) = Nullable (complete t)"
| "complete (Listed t) = Listed (complete t)"
| "complete (Object_Of fs sealed) = Object_Of (map complete_field fs) sealed"
| "complete t = t"
| "complete_field (Field k r t) = Field k True (complete t)"

text \<open>The bodies the console reads and those it writes: the interface and the schema.\<close>
definition answer_schemas :: "(schema \<times> schema) list" where
  "answer_schemas =
     [(ts_ApiErrorBody, oa_Error), (ts_PlaybookWithVersions, oa_PlaybookWithVersions), (ts_PlaybookList, oa_PlaybookList),
      (ts_PlaybookVersionDefinition, oa_PlaybookVersionDefinition), (ts_Alert, oa_Alert),
      (ts_InvestigationState, oa_InvestigationState), (ts_InvestigationReport, oa_InvestigationReport)]"

definition request_schemas :: "(schema \<times> schema) list" where
  "request_schemas =
     [(ts_CreatePlaybookRequest, oa_CreatePlaybookRequest),
      (ts_CreatePlaybookVersionRequest, oa_CreatePlaybookVersionRequest),
      (ts_PlaybookGraphInput, oa_PlaybookGraphInput), (ts_CreateAlertRequest, oa_CreateAlertRequest),
      (ts_StartInvestigationRequest, oa_StartInvestigationRequest),
      (ts_SubmitDecisionRequest, oa_SubmitDecisionRequest)]"

lemma answers_fit: "list_all (\<lambda>(ts, oa). fits (complete oa) ts \<and> fits ts (loosen oa)) answer_schemas"
  by code_simp

lemma requests_fit: "list_all (\<lambda>(ts, oa). fits ts (loosen oa)) request_schemas"
  by code_simp

text \<open>The types of the console mirror the contract. Every value an interface allows is one the
  published schema allows, up to what an interface cannot say (formats, integers, minimal lengths,
  sealed objects), for every body the console writes or reads: the mirror invents no property and
  loosens no type. And an answer that conforms to the contract, with no declared property left out,
  has the type the client casts it to.\<close>
theorem types_mirror_contract:
  assumes "(ts, oa) \<in> set (answer_schemas @ request_schemas)"
  shows "(conforms v ts j \<longrightarrow> conforms v (loosen oa) j)
    \<and> ((ts, oa) \<in> set answer_schemas \<longrightarrow> conforms v (complete oa) j \<longrightarrow> conforms v ts j)"
  using assms answers_fit requests_fit fits_sound(1) by (fastforce simp: list_all_iff)

theorem types_mirror_contract_witness:
  "conforms (\<lambda>_. True) (complete oa_PlaybookList) (JObj [(js ''items'', JArr [])])
    \<and> conforms (\<lambda>_. True) ts_PlaybookList (JObj [(js ''items'', JArr [])])"
proof -
  have listed: "(ts_PlaybookList, oa_PlaybookList) \<in> set answer_schemas" by (simp add: answer_schemas_def)
  then have member: "(ts_PlaybookList, oa_PlaybookList) \<in> set (answer_schemas @ request_schemas)" by simp
  have "conforms (\<lambda>_. True) (complete oa_PlaybookList) (JObj [(js ''items'', JArr [])])"
    by (simp add: oa_PlaybookList_def schema_parts)
  with types_mirror_contract [OF member, of "\<lambda>_. True"] listed show ?thesis by blast
qed

text \<open>The contract promises less than the interfaces say: a node without a description, a state
  without its choices.\<close>
lemma contract_promises_less:
  "conforms v oa_PlaybookNode (JObj [(js ''id'', JStr i), (js ''kind'', JStr (js ''decision'')), (js ''title'', JStr t)])
     \<longleftrightarrow> v i"
  "\<not> conforms v ts_PlaybookNode (JObj [(js ''id'', JStr i), (js ''kind'', JStr (js ''decision'')), (js ''title'', JStr t)])"
  by (simp_all add: oa_PlaybookNode_def ts_PlaybookNode_def schema_parts)

text \<open>And it allows a client to write more: a payload that is \<open>null\<close>.\<close>
lemma contract_accepts_more:
  "conforms v oa_CreateAlertRequest (JObj [(js ''alert_type'', JStr a), (js ''title'', JStr t),
       (js ''occurred_at'', JStr m), (js ''payload'', JNull)]) \<longleftrightarrow> is_moment m"
  "\<not> conforms v ts_CreateAlertRequest (JObj [(js ''alert_type'', JStr a), (js ''title'', JStr t),
       (js ''occurred_at'', JStr m), (js ''payload'', JNull)])"
  by (simp_all add: oa_CreateAlertRequest_def ts_CreateAlertRequest_def schema_parts)

end
