(* ===== verification/Playbook_Draft.thy ===== *)
theory Playbook_Draft
  imports Types
begin

text \<open>
  \<open>frontend/src/lib/playbook-draft.ts\<close>: the authoring form's draft of a playbook
  graph, its serialization into the contract's \<open>PlaybookGraphInput\<close> with every
  write-time problem reported at once, loading a stored graph back into the form, and
  the lenient preview.

  The two \<open>forEach\<close> loops are recursions over the rest of the array that carry the
  loop's mutable sets (\<open>seenNodeIds\<close>, \<open>seenEdgeIds\<close>, \<open>labelsByFromNode\<close>) and return the
  errors they push, in the order they push them, with the objects they build.
\<close>

section \<open>Drafts\<close>

record node_draft =
  nd_id :: uuid
  nd_kind :: node_kind
  nd_title :: jstring
  nd_description :: jstring
  nd_terminal_resolution :: jstring
  nd_metadata :: jstring

record edge_draft =
  ed_id :: uuid
  ed_from :: uuid
  ed_to :: uuid
  ed_label :: jstring
  ed_description :: jstring
  ed_sort_order :: jstring

record playbook_draft =
  pd_root :: uuid
  pd_nodes :: "node_draft list"
  pd_edges :: "edge_draft list"

definition EMPTY_DRAFT :: playbook_draft where
  "EMPTY_DRAFT = \<lparr>pd_root = [], pd_nodes = [], pd_edges = []\<rparr>"

text \<open>\<open>Partial<Omit<NodeDraft, "id">>\<close> and \<open>Partial<Omit<EdgeDraft, "id">>\<close>.\<close>
record node_seed =
  ns_kind :: "node_kind option"
  ns_title :: "jstring option"
  ns_description :: "jstring option"
  ns_terminal_resolution :: "jstring option"
  ns_metadata :: "jstring option"

record edge_seed =
  es_from :: "uuid option"
  es_to :: "uuid option"
  es_label :: "jstring option"
  es_description :: "jstring option"
  es_sort_order :: "jstring option"

text \<open>\<open>newId\<close> is a parameter of the source as well; its result is the argument here.\<close>
definition newNodeDraft :: "node_seed \<Rightarrow> uuid \<Rightarrow> node_draft" where
  "newNodeDraft seed newId =
     \<lparr>nd_id = newId,
      nd_kind = or_else (ns_kind seed) Decision,
      nd_title = or_else (ns_title seed) [],
      nd_description = or_else (ns_description seed) [],
      nd_terminal_resolution = or_else (ns_terminal_resolution seed) [],
      nd_metadata = or_else (ns_metadata seed) []\<rparr>"

definition newEdgeDraft :: "edge_seed \<Rightarrow> uuid \<Rightarrow> edge_draft" where
  "newEdgeDraft seed newId =
     \<lparr>ed_id = newId,
      ed_from = or_else (es_from seed) [],
      ed_to = or_else (es_to seed) [],
      ed_label = or_else (es_label seed) [],
      ed_description = or_else (es_description seed) [],
      ed_sort_order = or_else (es_sort_order seed) (js ''0'')\<rparr>"

section \<open>Errors\<close>

datatype draft_error_field =
    FId | FTitle | FTerminalResolution | FMetadata | FLabel | FFromNodeId | FToNodeId | FRootNodeId

datatype draft_scope = ScopeNode | ScopeEdge | ScopeRoot

record draft_error =
  de_scope :: draft_scope
  de_index :: int
  de_field :: draft_error_field
  de_message :: jstring

definition draft_error :: "draft_scope \<Rightarrow> int \<Rightarrow> draft_error_field \<Rightarrow> jstring \<Rightarrow> draft_error" where
  "draft_error s i f m = \<lparr>de_scope = s, de_index = i, de_field = f, de_message = m\<rparr>"

text \<open>Where an error is shown.\<close>
definition de_position :: "draft_error \<Rightarrow> draft_scope \<times> int \<times> draft_error_field" where
  "de_position e = (de_scope e, de_index e, de_field e)"

lemma de_position_error [simp]: "de_position (draft_error s i f m) = (s, i, f)"
  by (simp add: de_position_def draft_error_def)

section \<open>Serialization\<close>

text \<open>\<open>parseMetadata\<close>: the value to send and the error to show.\<close>
definition parseMetadata :: "jstring \<Rightarrow> json_object option \<times> jstring option" where
  "parseMetadata raw =
     (let text = trim raw
      in if text = [] then (None, None)
         else case parse_json text of
           None \<Rightarrow> (None, Some (js ''Metadata is not valid JSON.''))
         | Some (JObj kvs) \<Rightarrow> (Some kvs, None)
         | Some _ \<Rightarrow> (None, Some (js ''Metadata must be a JSON object, for example {'' @ [34]
             @ js ''suggested_evidence'' @ [34] @ js '': ['' @ [34] @ js ''asset_inventory_lookup''
             @ [34] @ js '']}.'')))"

definition parseSortOrder :: "jstring \<Rightarrow> number" where
  "parseSortOrder raw = (case parse_int10 raw of NaN \<Rightarrow> Fin 0 | n \<Rightarrow> n)"

definition node_errors :: "nat \<Rightarrow> uuid set \<Rightarrow> node_draft \<Rightarrow> draft_error list" where
  "node_errors index seenNodeIds node =
     (let title = trim (nd_title node);
          resolution = trim (nd_terminal_resolution node);
          metadata = parseMetadata (nd_metadata node)
      in (if nd_id node \<in> seenNodeIds
          then [draft_error ScopeNode (int index) FId
                  (js ''This node'' @ [39] @ js ''s id is already used by another node.'')] else [])
       @ (if title = []
          then [draft_error ScopeNode (int index) FTitle (js ''Title is required.'')] else [])
       @ (if nd_kind node = Terminal \<and> resolution = []
          then [draft_error ScopeNode (int index) FTerminalResolution
                  (js ''A terminal node must carry a resolution '' @ em_dash
                   @ js '' it is the investigation'' @ [39] @ js ''s outcome.'')] else [])
       @ (case snd metadata of None \<Rightarrow> []
          | Some err \<Rightarrow> [draft_error ScopeNode (int index) FMetadata err]))"

definition serialize_node :: "node_draft \<Rightarrow> playbook_node" where
  "serialize_node node =
     \<lparr>pn_id = nd_id node,
      pn_kind = nd_kind node,
      pn_title = trim (nd_title node),
      pn_description = trim (nd_description node),
      pn_terminal_resolution =
        (if nd_kind node = Terminal then Some (trim (nd_terminal_resolution node)) else None),
      pn_metadata = fst (parseMetadata (nd_metadata node))\<rparr>"

fun serialize_nodes ::
  "nat \<Rightarrow> uuid set \<Rightarrow> node_draft list \<Rightarrow> draft_error list \<times> playbook_node list \<times> uuid set"
where
  "serialize_nodes index seen [] = ([], [], seen)"
| "serialize_nodes index seen (node # rest) =
     (case serialize_nodes (Suc index) (insert (nd_id node) seen) rest of (errs, nodes, seen') \<Rightarrow>
        (node_errors index seen node @ errs, serialize_node node # nodes, seen'))"

definition endpoint_errors ::
  "nat \<Rightarrow> uuid set \<Rightarrow> draft_error_field \<Rightarrow> uuid \<Rightarrow> draft_error list"
where
  "endpoint_errors index seenNodeIds field value =
     (if value = [] then [draft_error ScopeEdge (int index) field (js ''Pick a node.'')]
      else if value \<notin> seenNodeIds
      then [draft_error ScopeEdge (int index) field
              (js ''That node is no longer part of this draft.'')]
      else [])"

text \<open>\<open>labelsByFromNode.get(from) ?? new Set()\<close>.\<close>
definition labels_of :: "(uuid \<rightharpoonup> jstring set) \<Rightarrow> uuid \<Rightarrow> jstring set" where
  "labels_of labelsByFromNode from = or_else (labelsByFromNode from) {}"

definition edge_errors ::
  "nat \<Rightarrow> uuid set \<Rightarrow> uuid set \<Rightarrow> (uuid \<rightharpoonup> jstring set) \<Rightarrow> edge_draft \<Rightarrow> draft_error list"
where
  "edge_errors index seenNodeIds seenEdgeIds labelsByFromNode edge =
     (let label = trim (ed_label edge)
      in (if ed_id edge \<in> seenEdgeIds
          then [draft_error ScopeEdge (int index) FId
                  (js ''This edge'' @ [39] @ js ''s id is already used by another edge.'')] else [])
       @ (if label = []
          then [draft_error ScopeEdge (int index) FLabel
                  (js ''Label is required '' @ em_dash @ js '' it is what an analyst picks.'')] else [])
       @ endpoint_errors index seenNodeIds FFromNodeId (ed_from edge)
       @ endpoint_errors index seenNodeIds FToNodeId (ed_to edge)
       @ (if ed_from edge \<noteq> [] \<and> label \<noteq> [] \<and> label \<in> labels_of labelsByFromNode (ed_from edge)
          then [draft_error ScopeEdge (int index) FLabel
                  (js ''Another choice leaving this node is already labelled '' @ [0x201C] @ label
                   @ [0x201D] @ js ''. One label per node.'')] else []))"

definition record_label :: "edge_draft \<Rightarrow> (uuid \<rightharpoonup> jstring set) \<Rightarrow> (uuid \<rightharpoonup> jstring set)" where
  "record_label edge labelsByFromNode =
     (let label = trim (ed_label edge)
      in if ed_from edge \<noteq> [] \<and> label \<noteq> []
         then labelsByFromNode(ed_from edge \<mapsto> insert label (labels_of labelsByFromNode (ed_from edge)))
         else labelsByFromNode)"

definition serialize_edge :: "edge_draft \<Rightarrow> playbook_edge" where
  "serialize_edge edge =
     \<lparr>pe_id = ed_id edge,
      pe_from = ed_from edge,
      pe_to = ed_to edge,
      pe_label = trim (ed_label edge),
      pe_description = null_if_blank (trim (ed_description edge)),
      pe_sort_order = parseSortOrder (ed_sort_order edge)\<rparr>"

fun serialize_edges ::
  "nat \<Rightarrow> uuid set \<Rightarrow> uuid set \<Rightarrow> (uuid \<rightharpoonup> jstring set) \<Rightarrow> edge_draft list
     \<Rightarrow> draft_error list \<times> playbook_edge list"
where
  "serialize_edges index nodeIds seen labels [] = ([], [])"
| "serialize_edges index nodeIds seen labels (edge # rest) =
     (case serialize_edges (Suc index) nodeIds (insert (ed_id edge) seen) (record_label edge labels) rest
      of (errs, edges) \<Rightarrow>
        (edge_errors index nodeIds seen labels edge @ errs, serialize_edge edge # edges))"

definition root_errors :: "uuid set \<Rightarrow> uuid \<Rightarrow> draft_error list" where
  "root_errors seenNodeIds rootId =
     (if rootId \<noteq> [] \<and> rootId \<notin> seenNodeIds
      then [draft_error ScopeRoot (- 1) FRootNodeId
              (js ''The chosen root is no longer part of this draft.'')] else [])"

definition serializePlaybookDraft :: "playbook_draft \<Rightarrow> draft_error list + graph_input" where
  "serializePlaybookDraft draft =
     (case serialize_nodes 0 {} (pd_nodes draft) of (node_errs, nodes, seenNodeIds) \<Rightarrow>
      case serialize_edges 0 seenNodeIds {} Map.empty (pd_edges draft) of (edge_errs, edges) \<Rightarrow>
        let errors = node_errs @ edge_errs @ root_errors seenNodeIds (pd_root draft)
        in if errors \<noteq> [] then Inl errors
           else Inr \<lparr>g_root = null_if_blank (pd_root draft), g_nodes = nodes, g_edges = edges\<rparr>)"

section \<open>Loading and previewing\<close>

definition draft_of_node :: "playbook_node \<Rightarrow> node_draft" where
  "draft_of_node node =
     \<lparr>nd_id = pn_id node,
      nd_kind = pn_kind node,
      nd_title = pn_title node,
      nd_description = pn_description node,
      nd_terminal_resolution = or_else (pn_terminal_resolution node) [],
      nd_metadata = (case pn_metadata node of None \<Rightarrow> []
                     | Some kvs \<Rightarrow> stringify_indented (JObj kvs))\<rparr>"

definition draft_of_edge :: "playbook_edge \<Rightarrow> edge_draft" where
  "draft_of_edge edge =
     \<lparr>ed_id = pe_id edge,
      ed_from = pe_from edge,
      ed_to = pe_to edge,
      ed_label = pe_label edge,
      ed_description = or_else (pe_description edge) [],
      ed_sort_order = number_text (pe_sort_order edge)\<rparr>"

definition draftFromDefinition :: "'a graph_input_scheme \<Rightarrow> playbook_draft" where
  "draftFromDefinition definition' =
     \<lparr>pd_root = or_else (g_root definition') [],
      pd_nodes = map draft_of_node (g_nodes definition'),
      pd_edges = map draft_of_edge (g_edges definition')\<rparr>"

definition preview_node :: "node_draft \<Rightarrow> playbook_node" where
  "preview_node node =
     \<lparr>pn_id = nd_id node,
      pn_kind = nd_kind node,
      pn_title = (if trim (nd_title node) = [] then js ''Untitled node'' else trim (nd_title node)),
      pn_description = trim (nd_description node),
      pn_terminal_resolution =
        (if nd_kind node = Terminal then null_if_blank (trim (nd_terminal_resolution node)) else None),
      pn_metadata = None\<rparr>"

definition preview_edge :: "edge_draft \<Rightarrow> playbook_edge" where
  "preview_edge edge =
     \<lparr>pe_id = ed_id edge,
      pe_from = ed_from edge,
      pe_to = ed_to edge,
      pe_label = (if trim (ed_label edge) = [] then em_dash else trim (ed_label edge)),
      pe_description = None,
      pe_sort_order = parseSortOrder (ed_sort_order edge)\<rparr>"

definition previewGraph :: "playbook_draft \<Rightarrow> playbook_node list \<times> playbook_edge list" where
  "previewGraph draft =
     (let nodes = map preview_node (pd_nodes draft);
          known = set (map pn_id nodes)
      in (nodes,
          map preview_edge
            (filter (\<lambda>edge. ed_from edge \<in> known \<and> ed_to edge \<in> known) (pd_edges draft))))"

end
