(* ===== verification/Draft_Rules.thy ===== *)
theory Draft_Rules
  imports Playbook_Draft
begin

text \<open>
  What \<open>serializePlaybookDraft\<close> promises. The write-time table of \<open>docs/domain-model.md\<close> section 5 is
  \<open>write_rule\<close>, with \<open>obeys\<close> for a graph and \<open>breaks\<close> for the places a draft breaks a rule; the form
  checks all of it but the presence of ids, which is \<open>coherent_graph\<close>, with \<open>draft_problems\<close> for the
  places; the graph a draft spells is \<open>graph_of\<close>. The loops are first reduced
  to closed forms over prefixes of the arrays, then compared with these.
\<close>

section \<open>The write-time rules\<close>

definition node_ids :: "playbook_node list \<Rightarrow> uuid set" where
  "node_ids ns = set (map pn_id ns)"

definition storable_node :: "playbook_node \<Rightarrow> bool" where
  "storable_node n \<longleftrightarrow>
     pn_title n \<noteq> []
     \<and> (pn_kind n = Terminal \<longleftrightarrow> pn_terminal_resolution n \<noteq> None)
     \<and> pn_terminal_resolution n \<noteq> Some []"

definition storable_edge :: "uuid set \<Rightarrow> playbook_edge \<Rightarrow> bool" where
  "storable_edge ids e \<longleftrightarrow>
     pe_label e \<noteq> [] \<and> pe_from e \<noteq> [] \<and> pe_to e \<noteq> [] \<and> pe_from e \<in> ids \<and> pe_to e \<in> ids"

definition coherent_graph :: "graph_input \<Rightarrow> bool" where
  "coherent_graph g \<longleftrightarrow>
     distinct (map pn_id (g_nodes g))
     \<and> list_all storable_node (g_nodes g)
     \<and> distinct (map pe_id (g_edges g))
     \<and> list_all (storable_edge (node_ids (g_nodes g))) (g_edges g)
     \<and> distinct (map (\<lambda>e. (pe_from e, pe_label e)) (g_edges g))
     \<and> (case g_root g of None \<Rightarrow> True | Some r \<Rightarrow> r \<in> node_ids (g_nodes g))"

text \<open>The table, row by row; that a kind is one of the two is the type \<open>node_kind\<close>.\<close>
datatype write_rule =
    Title_Present
  | Ids_Present
  | Ids_Unique
  | Label_Present
  | Endpoints_Set
  | Endpoints_In_Version
  | Root_In_Version
  | Resolution_Iff_Terminal
  | Labels_Distinct

fun obeys :: "graph_input \<Rightarrow> write_rule \<Rightarrow> bool" where
  "obeys g Title_Present = list_all (\<lambda>n. pn_title n \<noteq> []) (g_nodes g)"
| "obeys g Ids_Present = (list_all (\<lambda>n. pn_id n \<noteq> []) (g_nodes g) \<and> list_all (\<lambda>e. pe_id e \<noteq> []) (g_edges g))"
| "obeys g Ids_Unique = (distinct (map pn_id (g_nodes g)) \<and> distinct (map pe_id (g_edges g)))"
| "obeys g Label_Present = list_all (\<lambda>e. pe_label e \<noteq> []) (g_edges g)"
| "obeys g Endpoints_Set = list_all (\<lambda>e. pe_from e \<noteq> [] \<and> pe_to e \<noteq> []) (g_edges g)"
| "obeys g Endpoints_In_Version =
     list_all (\<lambda>e. pe_from e \<in> node_ids (g_nodes g) \<and> pe_to e \<in> node_ids (g_nodes g)) (g_edges g)"
| "obeys g Root_In_Version = (case g_root g of None \<Rightarrow> True | Some r \<Rightarrow> r \<in> node_ids (g_nodes g))"
| "obeys g Resolution_Iff_Terminal =
     list_all (\<lambda>n. (pn_kind n = Terminal) = (pn_terminal_resolution n \<noteq> None) \<and> pn_terminal_resolution n \<noteq> Some [])
       (g_nodes g)"
| "obeys g Labels_Distinct = distinct (map (\<lambda>e. (pe_from e, pe_label e)) (g_edges g))"

text \<open>The rows the form checks: all but one.\<close>
definition form_rules :: "write_rule list" where
  "form_rules = [Title_Present, Ids_Unique, Label_Present, Endpoints_Set, Endpoints_In_Version, Root_In_Version,
     Resolution_Iff_Terminal, Labels_Distinct]"

definition storable_graph :: "graph_input \<Rightarrow> bool" where
  "storable_graph g \<longleftrightarrow> list_all (obeys g) (Ids_Present # form_rules)"

lemma coherent_rules: "coherent_graph g \<longleftrightarrow> list_all (obeys g) form_rules"
  by (auto simp: coherent_graph_def form_rules_def storable_node_def storable_edge_def list_all_iff)

text \<open>A metadata box that is blank or holds a JSON object.\<close>
definition readable_metadata :: "jstring \<Rightarrow> bool" where
  "readable_metadata raw \<longleftrightarrow>
     trim raw = [] \<or> (case parse_json (trim raw) of Some (JObj _) \<Rightarrow> True | _ \<Rightarrow> False)"

text \<open>The graph a draft spells, whether or not it may be stored.\<close>
definition graph_of :: "playbook_draft \<Rightarrow> graph_input" where
  "graph_of d =
     \<lparr>g_root = null_if_blank (pd_root d),
      g_nodes = map serialize_node (pd_nodes d),
      g_edges = map serialize_edge (pd_edges d)\<rparr>"

section \<open>The problems of a draft, by position\<close>

fun node_problem :: "node_draft list \<Rightarrow> nat \<Rightarrow> draft_error_field \<Rightarrow> bool" where
  "node_problem ns i FId = (nd_id (ns ! i) \<in> nd_id ` set (take i ns))"
| "node_problem ns i FTitle = (trim (nd_title (ns ! i)) = [])"
| "node_problem ns i FTerminalResolution =
     (nd_kind (ns ! i) = Terminal \<and> trim (nd_terminal_resolution (ns ! i)) = [])"
| "node_problem ns i FMetadata = (\<not> readable_metadata (nd_metadata (ns ! i)))"
| "node_problem ns i _ = False"

definition same_choice :: "edge_draft \<Rightarrow> edge_draft \<Rightarrow> bool" where
  "same_choice e f \<longleftrightarrow> ed_from e = ed_from f \<and> trim (ed_label e) = trim (ed_label f)"

fun edge_problem :: "uuid set \<Rightarrow> edge_draft list \<Rightarrow> nat \<Rightarrow> draft_error_field \<Rightarrow> bool" where
  "edge_problem ids es i FId = (ed_id (es ! i) \<in> ed_id ` set (take i es))"
| "edge_problem ids es i FLabel =
     (trim (ed_label (es ! i)) = []
      \<or> (ed_from (es ! i) \<noteq> [] \<and> list_ex (same_choice (es ! i)) (take i es)))"
| "edge_problem ids es i FFromNodeId = (ed_from (es ! i) = [] \<or> ed_from (es ! i) \<notin> ids)"
| "edge_problem ids es i FToNodeId = (ed_to (es ! i) = [] \<or> ed_to (es ! i) \<notin> ids)"
| "edge_problem ids es i _ = False"

definition draft_ids :: "playbook_draft \<Rightarrow> uuid set" where
  "draft_ids d = nd_id ` set (pd_nodes d)"

definition draft_problems :: "playbook_draft \<Rightarrow> (draft_scope \<times> int \<times> draft_error_field) set" where
  "draft_problems d =
     {(ScopeNode, int i, f) | i f. i < length (pd_nodes d) \<and> node_problem (pd_nodes d) i f}
   \<union> {(ScopeEdge, int i, f) | i f. i < length (pd_edges d) \<and> edge_problem (draft_ids d) (pd_edges d) i f}
   \<union> (if pd_root d \<noteq> [] \<and> pd_root d \<notin> draft_ids d then {(ScopeRoot, - 1, FRootNodeId)} else {})"

text \<open>The same, row by row of the table.\<close>
fun breaks :: "playbook_draft \<Rightarrow> write_rule \<Rightarrow> (draft_scope \<times> int \<times> draft_error_field) set" where
  "breaks d Title_Present = {(ScopeNode, int i, FTitle) | i. i < length (pd_nodes d) \<and> trim (nd_title (pd_nodes d ! i)) = []}"
| "breaks d Ids_Present =
     {(ScopeNode, int i, FId) | i. i < length (pd_nodes d) \<and> nd_id (pd_nodes d ! i) = []}
   \<union> {(ScopeEdge, int i, FId) | i. i < length (pd_edges d) \<and> ed_id (pd_edges d ! i) = []}"
| "breaks d Ids_Unique =
     {(ScopeNode, int i, FId) | i. i < length (pd_nodes d) \<and> nd_id (pd_nodes d ! i) \<in> nd_id ` set (take i (pd_nodes d))}
   \<union> {(ScopeEdge, int i, FId) | i. i < length (pd_edges d) \<and> ed_id (pd_edges d ! i) \<in> ed_id ` set (take i (pd_edges d))}"
| "breaks d Label_Present = {(ScopeEdge, int i, FLabel) | i. i < length (pd_edges d) \<and> trim (ed_label (pd_edges d ! i)) = []}"
| "breaks d Endpoints_Set =
     {(ScopeEdge, int i, FFromNodeId) | i. i < length (pd_edges d) \<and> ed_from (pd_edges d ! i) = []}
   \<union> {(ScopeEdge, int i, FToNodeId) | i. i < length (pd_edges d) \<and> ed_to (pd_edges d ! i) = []}"
| "breaks d Endpoints_In_Version =
     {(ScopeEdge, int i, FFromNodeId) | i. i < length (pd_edges d) \<and> ed_from (pd_edges d ! i) \<notin> draft_ids d}
   \<union> {(ScopeEdge, int i, FToNodeId) | i. i < length (pd_edges d) \<and> ed_to (pd_edges d ! i) \<notin> draft_ids d}"
| "breaks d Root_In_Version = (if pd_root d \<noteq> [] \<and> pd_root d \<notin> draft_ids d then {(ScopeRoot, - 1, FRootNodeId)} else {})"
| "breaks d Resolution_Iff_Terminal =
     {(ScopeNode, int i, FTerminalResolution) | i. i < length (pd_nodes d) \<and> nd_kind (pd_nodes d ! i) = Terminal
        \<and> trim (nd_terminal_resolution (pd_nodes d ! i)) = []}"
| "breaks d Labels_Distinct =
     {(ScopeEdge, int i, FLabel) | i. i < length (pd_edges d) \<and> ed_from (pd_edges d ! i) \<noteq> []
        \<and> list_ex (same_choice (pd_edges d ! i)) (take i (pd_edges d))}"

definition unreadable :: "playbook_draft \<Rightarrow> (draft_scope \<times> int \<times> draft_error_field) set" where
  "unreadable d =
     {(ScopeNode, int i, FMetadata) | i. i < length (pd_nodes d) \<and> \<not> readable_metadata (nd_metadata (pd_nodes d ! i))}"

lemma problems_by_rule: "draft_problems d = \<Union> (breaks d ` set form_rules) \<union> unreadable d"
proof (rule set_eqI)
  fix p :: "draft_scope \<times> int \<times> draft_error_field"
  obtain s k f where p: "p = (s, k, f)" by (cases p)
  show "p \<in> draft_problems d \<longleftrightarrow> p \<in> \<Union> (breaks d ` set form_rules) \<union> unreadable d"
    unfolding p draft_problems_def form_rules_def unreadable_def by (cases s; cases f) auto
qed

section \<open>Closed forms of the loops\<close>

definition seen_nodes :: "uuid set \<Rightarrow> node_draft list \<Rightarrow> uuid set" where
  "seen_nodes seen ns = seen \<union> nd_id ` set ns"

lemma serialize_nodes_closed:
  "serialize_nodes k seen ns =
     (concat (map_idx 0 (\<lambda>i n. node_errors (k + i) (seen_nodes seen (take i ns)) n) ns),
      map serialize_node ns, seen_nodes seen ns)"
proof (induction ns arbitrary: k seen)
  case Nil
  then show ?case by (simp add: seen_nodes_def)
next
  case (Cons n ns)
  have shift: "map_idx (Suc 0) f xs = map_idx 0 (\<lambda>i. f (Suc i)) xs" for f xs
    by (rule nth_equalityI) auto
  show ?case
    by (simp add: Cons.IH shift seen_nodes_def insert_commute)
qed

lemma labels_of_record:
  "l \<in> labels_of (record_label e m) f \<longleftrightarrow>
     l \<in> labels_of m f \<or> (f = ed_from e \<and> l = trim (ed_label e) \<and> f \<noteq> [] \<and> l \<noteq> [])"
  by (auto simp: record_label_def labels_of_def Let_def)

lemma labels_of_fold:
  "l \<in> labels_of (fold record_label es m) f \<longleftrightarrow>
     l \<in> labels_of m f \<or> (\<exists>e\<in>set es. f = ed_from e \<and> l = trim (ed_label e) \<and> f \<noteq> [] \<and> l \<noteq> [])"
  by (induction es arbitrary: m) (auto simp: labels_of_record)

lemma serialize_edges_closed:
  "serialize_edges k ids seen labels es =
     (concat (map_idx 0 (\<lambda>i e. edge_errors (k + i) ids (seen \<union> ed_id ` set (take i es))
                                 (fold record_label (take i es) labels) e) es),
      map serialize_edge es)"
proof (induction es arbitrary: k seen labels)
  case Nil
  then show ?case by simp
next
  case (Cons e es)
  have shift: "map_idx (Suc 0) f xs = map_idx 0 (\<lambda>i. f (Suc i)) xs" for f xs
    by (rule nth_equalityI) auto
  show ?case
    by (simp add: Cons.IH shift insert_commute)
qed

definition draft_errors :: "playbook_draft \<Rightarrow> draft_error list" where
  "draft_errors d =
     concat (map_idx 0 (\<lambda>i n. node_errors i (nd_id ` set (take i (pd_nodes d))) n) (pd_nodes d))
   @ concat (map_idx 0 (\<lambda>i e. edge_errors i (draft_ids d) (ed_id ` set (take i (pd_edges d)))
                                 (fold record_label (take i (pd_edges d)) Map.empty) e) (pd_edges d))
   @ root_errors (draft_ids d) (pd_root d)"

lemma serialize_closed:
  "serializePlaybookDraft d = (if draft_errors d = [] then Inr (graph_of d) else Inl (draft_errors d))"
  by (simp add: serializePlaybookDraft_def serialize_nodes_closed serialize_edges_closed
      draft_errors_def graph_of_def seen_nodes_def draft_ids_def Let_def)

section \<open>Errors are exactly the problems\<close>

lemma parseMetadata_readable: "snd (parseMetadata raw) = None \<longleftrightarrow> readable_metadata raw"
  by (auto simp: parseMetadata_def readable_metadata_def Let_def split: option.splits json.splits)

lemma node_errors_positions:
  "map de_position (node_errors i seen n) =
     (if nd_id n \<in> seen then [(ScopeNode, int i, FId)] else [])
   @ (if trim (nd_title n) = [] then [(ScopeNode, int i, FTitle)] else [])
   @ (if nd_kind n = Terminal \<and> trim (nd_terminal_resolution n) = []
      then [(ScopeNode, int i, FTerminalResolution)] else [])
   @ (if readable_metadata (nd_metadata n) then [] else [(ScopeNode, int i, FMetadata)])"
  by (auto simp: node_errors_def Let_def parseMetadata_readable [symmetric] split: option.splits)

lemma node_errors_problem:
  "p \<in> set (map de_position (node_errors i (nd_id ` set (take i ns)) (ns ! i))) \<longleftrightarrow>
     (\<exists>f. p = (ScopeNode, int i, f) \<and> node_problem ns i f)"
proof -
  have fields: "(\<exists>f. P f) \<longleftrightarrow> P FId \<or> P FTitle \<or> P FTerminalResolution \<or> P FMetadata
      \<or> P FLabel \<or> P FFromNodeId \<or> P FToNodeId \<or> P FRootNodeId" for P
    by (metis draft_error_field.exhaust)
  show ?thesis
    by (simp only: node_errors_positions fields) auto
qed

lemma edge_errors_positions:
  "map de_position (edge_errors i ids seen labels e) =
     (if ed_id e \<in> seen then [(ScopeEdge, int i, FId)] else [])
   @ (if trim (ed_label e) = [] then [(ScopeEdge, int i, FLabel)] else [])
   @ (if ed_from e = [] \<or> ed_from e \<notin> ids then [(ScopeEdge, int i, FFromNodeId)] else [])
   @ (if ed_to e = [] \<or> ed_to e \<notin> ids then [(ScopeEdge, int i, FToNodeId)] else [])
   @ (if ed_from e \<noteq> [] \<and> trim (ed_label e) \<noteq> [] \<and> trim (ed_label e) \<in> labels_of labels (ed_from e)
      then [(ScopeEdge, int i, FLabel)] else [])"
  by (simp add: edge_errors_def endpoint_errors_def Let_def)

lemma edge_errors_problem:
  "p \<in> set (map de_position (edge_errors i ids (ed_id ` set (take i es))
              (fold record_label (take i es) Map.empty) (es ! i))) \<longleftrightarrow>
     (\<exists>f. p = (ScopeEdge, int i, f) \<and> edge_problem ids es i f)"
proof -
  have fields: "(\<exists>f. P f) \<longleftrightarrow> P FId \<or> P FTitle \<or> P FTerminalResolution \<or> P FMetadata
      \<or> P FLabel \<or> P FFromNodeId \<or> P FToNodeId \<or> P FRootNodeId" for P
    by (metis draft_error_field.exhaust)
  have labels: "trim (ed_label (es ! i)) \<noteq> [] \<Longrightarrow> ed_from (es ! i) \<noteq> [] \<Longrightarrow>
      trim (ed_label (es ! i)) \<in> labels_of (fold record_label (take i es) Map.empty) (ed_from (es ! i))
      \<longleftrightarrow> list_ex (same_choice (es ! i)) (take i es)"
    by (auto simp: labels_of_fold list_ex_iff same_choice_def) (auto simp: labels_of_def)
  show ?thesis
    using labels by (simp only: edge_errors_positions fields) auto
qed

lemma draft_errors_positions: "set (map de_position (draft_errors d)) = draft_problems d"
proof -
  let ?ne = "\<lambda>i n. node_errors i (nd_id ` set (take i (pd_nodes d))) n"
  let ?ee = "\<lambda>i e. edge_errors i (draft_ids d) (ed_id ` set (take i (pd_edges d)))
                 (fold record_label (take i (pd_edges d)) Map.empty) e"
  have nodes: "p \<in> set (map de_position (concat (map_idx 0 ?ne (pd_nodes d)))) \<longleftrightarrow>
      (\<exists>i<length (pd_nodes d). \<exists>f. p = (ScopeNode, int i, f) \<and> node_problem (pd_nodes d) i f)" for p
    unfolding map_concat_map_idx mem_concat_map_idx_0 node_errors_problem ..
  have edges: "p \<in> set (map de_position (concat (map_idx 0 ?ee (pd_edges d)))) \<longleftrightarrow>
      (\<exists>i<length (pd_edges d). \<exists>f. p = (ScopeEdge, int i, f) \<and> edge_problem (draft_ids d) (pd_edges d) i f)" for p
    unfolding map_concat_map_idx mem_concat_map_idx_0 edge_errors_problem ..
  have root: "p \<in> set (map de_position (root_errors (draft_ids d) (pd_root d))) \<longleftrightarrow>
      pd_root d \<noteq> [] \<and> pd_root d \<notin> draft_ids d \<and> p = (ScopeRoot, - 1, FRootNodeId)" for p
    by (auto simp: root_errors_def)
  have "p \<in> set (map de_position (draft_errors d)) \<longleftrightarrow> p \<in> draft_problems d" for p
    unfolding draft_errors_def draft_problems_def map_append set_append Un_iff nodes edges root
      mem_Collect_eq
    by (cases "pd_root d \<noteq> [] \<and> pd_root d \<notin> draft_ids d") (simp_all, blast+)
  then show ?thesis by blast
qed


lemma draft_errors_none: "draft_errors d = [] \<longleftrightarrow> draft_problems d = {}"
  using draft_errors_positions [of d] by (metis list.set(1) map_is_Nil_conv set_empty)

text \<open>No two errors are shown at the same place.\<close>
lemma draft_errors_distinct: "distinct (map de_position (draft_errors d))"
proof -
  let ?ne = "\<lambda>i n. map de_position (node_errors i (nd_id ` set (take i (pd_nodes d))) n)"
  let ?ee = "\<lambda>i e. map de_position (edge_errors i (draft_ids d) (ed_id ` set (take i (pd_edges d)))
                 (fold record_label (take i (pd_edges d)) Map.empty) e)"
  let ?key = "\<lambda>p :: draft_scope \<times> int \<times> draft_error_field. nat (fst (snd p))"
  have nodes: "distinct (concat (map_idx 0 ?ne (pd_nodes d)))"
    by (rule distinct_concat_map_idx [where key = ?key and k = 0, THEN conjunct1])
      (auto simp: node_errors_positions split: if_splits)
  have edges: "distinct (concat (map_idx 0 ?ee (pd_edges d)))"
    by (rule distinct_concat_map_idx [where key = ?key and k = 0, THEN conjunct1])
      (auto simp: edge_errors_positions split: if_splits)
  have scope_n: "fst p = ScopeNode" if "p \<in> set (concat (map_idx 0 ?ne (pd_nodes d)))" for p
    using that unfolding mem_concat_map_idx_0 node_errors_problem by auto
  have scope_e: "fst p = ScopeEdge" if "p \<in> set (concat (map_idx 0 ?ee (pd_edges d)))" for p
    using that unfolding mem_concat_map_idx_0 edge_errors_problem by auto
  have scope_r: "fst p = ScopeRoot" if "p \<in> set (map de_position (root_errors (draft_ids d) (pd_root d)))" for p
    using that by (auto simp: root_errors_def split: if_splits)
  have root: "distinct (map de_position (root_errors (draft_ids d) (pd_root d)))"
    by (simp add: root_errors_def)
  have disjoint: "A \<inter> B = {}"
    if "\<And>p. p \<in> A \<Longrightarrow> fst p = s" "\<And>p. p \<in> B \<Longrightarrow> fst p \<noteq> s"
    for A B :: "(draft_scope \<times> int \<times> draft_error_field) set" and s
    using that by blast
  have "set (concat (map_idx 0 ?ne (pd_nodes d)))
      \<inter> (set (concat (map_idx 0 ?ee (pd_edges d))) \<union> set (map de_position (root_errors (draft_ids d) (pd_root d)))) = {}"
    by (rule disjoint [of _ ScopeNode]) (use scope_n scope_e scope_r in fastforce)+
  moreover have "set (concat (map_idx 0 ?ee (pd_edges d)))
      \<inter> set (map de_position (root_errors (draft_ids d) (pd_root d))) = {}"
    by (rule disjoint [of _ ScopeEdge]) (use scope_e scope_r in fastforce)+
  ultimately show ?thesis
    unfolding draft_errors_def map_append map_concat_map_idx distinct_append set_append
    using nodes edges root by blast
qed


section \<open>No problems is storable\<close>

lemma distinct_prefix:
  "distinct xs \<longleftrightarrow> (\<forall>i<length xs. xs ! i \<notin> set (take i xs))"
proof (induction xs rule: rev_induct)
  case Nil
  then show ?case by simp
next
  case (snoc x xs)
  have "(\<forall>i<length (xs @ [x]). (xs @ [x]) ! i \<notin> set (take i (xs @ [x])))
      \<longleftrightarrow> (\<forall>i<length xs. xs ! i \<notin> set (take i xs)) \<and> x \<notin> set xs"
    by (auto simp: less_Suc_eq nth_append)
  with snoc.IH show ?case by simp
qed

lemma distinct_map_prefix:
  "distinct (map f xs) \<longleftrightarrow> (\<forall>i<length xs. f (xs ! i) \<notin> f ` set (take i xs))"
  by (simp add: distinct_prefix [of "map f xs"] take_map)

lemma serialize_node_simps [simp]:
  "pn_id (serialize_node n) = nd_id n"
  "pn_kind (serialize_node n) = nd_kind n"
  "pn_title (serialize_node n) = trim (nd_title n)"
  "pn_description (serialize_node n) = trim (nd_description n)"
  "pn_terminal_resolution (serialize_node n) =
     (if nd_kind n = Terminal then Some (trim (nd_terminal_resolution n)) else None)"
  "pn_metadata (serialize_node n) = fst (parseMetadata (nd_metadata n))"
  by (simp_all add: serialize_node_def)

lemma serialize_edge_simps [simp]:
  "pe_id (serialize_edge e) = ed_id e"
  "pe_from (serialize_edge e) = ed_from e"
  "pe_to (serialize_edge e) = ed_to e"
  "pe_label (serialize_edge e) = trim (ed_label e)"
  "pe_description (serialize_edge e) = null_if_blank (trim (ed_description e))"
  "pe_sort_order (serialize_edge e) = parseSortOrder (ed_sort_order e)"
  by (simp_all add: serialize_edge_def)

lemma graph_of_simps [simp]:
  "g_root (graph_of d) = null_if_blank (pd_root d)"
  "g_nodes (graph_of d) = map serialize_node (pd_nodes d)"
  "g_edges (graph_of d) = map serialize_edge (pd_edges d)"
  by (simp_all add: graph_of_def)

lemma draft_problems_fields:
  "draft_problems d = {} \<longleftrightarrow>
     (\<forall>i<length (pd_nodes d). \<forall>f. \<not> node_problem (pd_nodes d) i f)
     \<and> (\<forall>i<length (pd_edges d). \<forall>f. \<not> edge_problem (draft_ids d) (pd_edges d) i f)
     \<and> (pd_root d = [] \<or> pd_root d \<in> draft_ids d)"
  unfolding draft_problems_def by auto

lemma draft_fields: "(\<forall>f. P f) \<longleftrightarrow> P FId \<and> P FTitle \<and> P FTerminalResolution \<and> P FMetadata
    \<and> P FLabel \<and> P FFromNodeId \<and> P FToNodeId \<and> P FRootNodeId"
  by (metis draft_error_field.exhaust)

lemma nodes_fine:
  "(\<forall>i<length ns. \<forall>f. \<not> node_problem ns i f) \<longleftrightarrow>
     distinct (map pn_id (map serialize_node ns)) \<and> list_all storable_node (map serialize_node ns)
     \<and> list_all (\<lambda>n. readable_metadata (nd_metadata n)) ns"
  by (auto simp: draft_fields distinct_map_prefix storable_node_def list_all_length comp_def)

lemma edges_fine:
  "(\<forall>i<length es. \<forall>f. \<not> edge_problem ids es i f) \<longleftrightarrow>
     distinct (map pe_id (map serialize_edge es)) \<and> list_all (storable_edge ids) (map serialize_edge es)
     \<and> distinct (map (\<lambda>e. (pe_from e, pe_label e)) (map serialize_edge es))"
proof -
  have "list_ex (same_choice e) es' \<longleftrightarrow>
      (ed_from e, trim (ed_label e)) \<in> (\<lambda>e. (ed_from e, trim (ed_label e))) ` set es'" for e es'
    by (auto simp: list_ex_iff same_choice_def)
  then show ?thesis
    by (auto simp: draft_fields distinct_map_prefix storable_edge_def list_all_length comp_def)
qed

lemma problems_storable:
  "draft_problems d = {} \<longleftrightarrow>
     coherent_graph (graph_of d) \<and> list_all (\<lambda>n. readable_metadata (nd_metadata n)) (pd_nodes d)"
proof -
  have ids: "node_ids (map serialize_node (pd_nodes d)) = draft_ids d"
    by (simp add: node_ids_def draft_ids_def image_image)
  have "(case null_if_blank (pd_root d) of None \<Rightarrow> True | Some r \<Rightarrow> r \<in> draft_ids d)
      \<longleftrightarrow> (pd_root d = [] \<or> pd_root d \<in> draft_ids d)"
    by (simp add: null_if_blank_def)
  then show ?thesis
    unfolding draft_problems_fields nodes_fine edges_fine coherent_graph_def graph_of_simps ids
    by auto
qed

lemma serialize_ok:
  "serializePlaybookDraft d = Inr g \<longleftrightarrow>
     g = graph_of d \<and> coherent_graph g \<and> list_all (\<lambda>n. readable_metadata (nd_metadata n)) (pd_nodes d)"
  using problems_storable [of d] draft_errors_none [of d] by (auto simp: serialize_closed)

lemma serialize_errors:
  "serializePlaybookDraft d = Inl errs \<longleftrightarrow> errs = draft_errors d \<and> errs \<noteq> []"
  by (auto simp: serialize_closed)


section \<open>Saving what was loaded\<close>

text \<open>
  A graph is tidy when its texts carry no outer white space (a description that is
  present is not blank), its metadata are objects the JavaScript heap can hold, its sort
  orders are integers a \<open>number\<close> holds exactly and its root, when set, is an id.
\<close>
definition tidy_node :: "playbook_node \<Rightarrow> bool" where
  "tidy_node n \<longleftrightarrow>
     trim (pn_title n) = pn_title n \<and> trim (pn_description n) = pn_description n
     \<and> (case pn_terminal_resolution n of None \<Rightarrow> True | Some r \<Rightarrow> trim r = r)
     \<and> (case pn_metadata n of None \<Rightarrow> True | Some kvs \<Rightarrow> wf_object kvs)"

fun exact_order :: "number \<Rightarrow> bool" where
  "exact_order (Fin n) = safe_int n"
| "exact_order _ = False"

definition tidy_edge :: "playbook_edge \<Rightarrow> bool" where
  "tidy_edge e \<longleftrightarrow>
     trim (pe_label e) = pe_label e
     \<and> (case pe_description e of None \<Rightarrow> True | Some t \<Rightarrow> t \<noteq> [] \<and> trim t = t)
     \<and> exact_order (pe_sort_order e)"

definition tidy_graph :: "graph_input \<Rightarrow> bool" where
  "tidy_graph g \<longleftrightarrow>
     list_all tidy_node (g_nodes g) \<and> list_all tidy_edge (g_edges g) \<and> g_root g \<noteq> Some []"

lemma parseMetadata_blank [simp]: "parseMetadata [] = (None, None)"
  by (simp add: parseMetadata_def)

lemma parseMetadata_stringify:
  "wf_object kvs \<Longrightarrow> parseMetadata (stringify_indented (JObj kvs)) = (Some kvs, None)"
  using indented.trim_show_object [of kvs] indented.show_object_nonempty [of kvs]
    indented.parse_show [of "JObj kvs"]
  by (simp add: parseMetadata_def Let_def wf_JObj)

text \<open>What the form makes of a stored graph: outer white space is gone, and a text that is then blank
  counts as none.\<close>
definition tidied_node :: "playbook_node \<Rightarrow> playbook_node" where
  "tidied_node n = n\<lparr>pn_title := trim (pn_title n), pn_description := trim (pn_description n),
     pn_terminal_resolution := if pn_kind n = Terminal then Some (trim (or_else (pn_terminal_resolution n) [])) else None\<rparr>"

definition tidied_edge :: "playbook_edge \<Rightarrow> playbook_edge" where
  "tidied_edge e = e\<lparr>pe_label := trim (pe_label e),
     pe_description := null_if_blank (trim (or_else (pe_description e) []))\<rparr>"

definition tidied :: "graph_input \<Rightarrow> graph_input" where
  "tidied g = g\<lparr>g_root := null_if_blank (or_else (g_root g) []),
     g_nodes := map tidied_node (g_nodes g), g_edges := map tidied_edge (g_edges g)\<rparr>"

text \<open>Metadata that are JSON objects and sort orders that a \<open>number\<close> holds exactly, as those of every
  stored version (objects of the heap, integers of the database).\<close>
definition exact_graph :: "graph_input \<Rightarrow> bool" where
  "exact_graph g \<longleftrightarrow> list_all (\<lambda>n. pred_option wf_object (pn_metadata n)) (g_nodes g)
     \<and> list_all (\<lambda>e. exact_order (pe_sort_order e)) (g_edges g)"

lemma tidy_exact: "tidy_graph g \<Longrightarrow> exact_graph g"
  by (auto simp: tidy_graph_def exact_graph_def tidy_node_def tidy_edge_def list_all_iff pred_option_def)

lemma reload_node:
  assumes "pred_option wf_object (pn_metadata n)"
  shows "serialize_node (draft_of_node n) = tidied_node n"
    and "readable_metadata (nd_metadata (draft_of_node n))"
proof -
  have md: "parseMetadata (nd_metadata (draft_of_node n)) = (pn_metadata n, None)"
    using assms by (auto simp: draft_of_node_def parseMetadata_stringify split: option.splits)
  show "readable_metadata (nd_metadata (draft_of_node n))"
    by (simp add: parseMetadata_readable [symmetric] md)
  show "serialize_node (draft_of_node n) = tidied_node n"
    using md by (cases n) (auto simp: serialize_node_def draft_of_node_def tidied_node_def)
qed

lemma reload_edge:
  assumes "exact_order (pe_sort_order e)"
  shows "serialize_edge (draft_of_edge e) = tidied_edge e"
proof -
  have "parseSortOrder (number_text (pe_sort_order e)) = pe_sort_order e"
    using assms by (cases "pe_sort_order e") (auto simp: parseSortOrder_def parse_int10_number_text)
  then show ?thesis
    by (cases e) (auto simp: serialize_edge_def draft_of_edge_def tidied_edge_def)
qed

lemma reload_graph:
  assumes "exact_graph g"
  shows "graph_of (draftFromDefinition g) = tidied g"
    and "list_all (\<lambda>n. readable_metadata (nd_metadata n)) (pd_nodes (draftFromDefinition g))"
proof -
  have nodes: "n \<in> set (g_nodes g) \<Longrightarrow> pred_option wf_object (pn_metadata n)" for n
    using assms by (auto simp: exact_graph_def list_all_iff)
  have edges: "e \<in> set (g_edges g) \<Longrightarrow> exact_order (pe_sort_order e)" for e
    using assms by (auto simp: exact_graph_def list_all_iff)
  show "graph_of (draftFromDefinition g) = tidied g"
    using nodes edges by (cases g) (simp add: graph_of_def draftFromDefinition_def tidied_def reload_node(1) reload_edge)
  show "list_all (\<lambda>n. readable_metadata (nd_metadata n)) (pd_nodes (draftFromDefinition g))"
    using nodes reload_node(2) by (simp add: draftFromDefinition_def list_all_iff)
qed

lemma reload_exact:
  assumes "exact_graph g"
  shows "serializePlaybookDraft (draftFromDefinition g) = Inr g' \<longleftrightarrow> g' = tidied g \<and> coherent_graph (tidied g)"
  using reload_graph [OF assms] by (auto simp: serialize_ok)

lemma tidied_tidy:
  assumes "coherent_graph g" "tidy_graph g"
  shows "tidied g = g"
proof -
  have "tidied_node n = n" if "n \<in> set (g_nodes g)" for n
  proof -
    from that assms have "tidy_node n" "storable_node n"
      by (auto simp: coherent_graph_def tidy_graph_def list_all_iff)
    then show ?thesis
      by (cases n) (auto simp: tidied_node_def tidy_node_def storable_node_def split: option.splits)
  qed
  moreover have "tidied_edge e = e" if "e \<in> set (g_edges g)" for e
  proof -
    from that assms have "tidy_edge e" by (auto simp: tidy_graph_def list_all_iff)
    then show ?thesis by (cases e) (auto simp: tidied_edge_def tidy_edge_def null_if_blank_def split: option.splits)
  qed
  moreover have "null_if_blank (or_else (g_root g) []) = g_root g"
    using assms(2) by (cases "g_root g") (auto simp: tidy_graph_def null_if_blank_def)
  ultimately show ?thesis by (cases g) (simp add: tidied_def map_idI)
qed

lemma reload:
  assumes "coherent_graph g" "tidy_graph g"
  shows "serializePlaybookDraft (draftFromDefinition g) = Inr g"
  using assms tidied_tidy reload_exact [OF tidy_exact] by simp

lemma parseMetadata_wf: "fst (parseMetadata raw) = Some kvs \<Longrightarrow> wf_object kvs"
  using parse_json_wf [of "trim raw"]
  by (auto simp: parseMetadata_def Let_def wf_JObj split: if_splits option.splits json.splits)

text \<open>What the form sends is tidy, the sort orders apart.\<close>
lemma graph_of_tidy:
  assumes "list_all (\<lambda>e. exact_order (pe_sort_order e)) (g_edges (graph_of d))"
  shows "tidy_graph (graph_of d)"
  using assms
  by (auto simp: tidy_graph_def tidy_node_def tidy_edge_def list_all_iff null_if_blank_def
      intro: parseMetadata_wf split: option.splits)

lemma graph_of_wf: "wf_graph (graph_of d)"
  by (auto simp: wf_graph_def pred_option_def dest: parseMetadata_wf split: option.split)

section \<open>The preview\<close>

lemma preview_simps [simp]:
  "pn_id (preview_node n) = nd_id n" "pn_kind (preview_node n) = nd_kind n"
  "pe_id (preview_edge e) = ed_id e" "pe_from (preview_edge e) = ed_from e"
  "pe_to (preview_edge e) = ed_to e" "pe_sort_order (preview_edge e) = parseSortOrder (ed_sort_order e)"
  by (simp_all add: preview_node_def preview_edge_def)

lemma preview_closed:
  "previewGraph d =
     (map preview_node (pd_nodes d),
      map preview_edge (filter (\<lambda>e. ed_from e \<in> draft_ids d \<and> ed_to e \<in> draft_ids d) (pd_edges d)))"
  by (simp add: previewGraph_def draft_ids_def image_image Let_def)


lemma preview_saved_node:
  assumes "storable_node (serialize_node n)"
  shows "preview_node n = (serialize_node n)\<lparr>pn_metadata := None\<rparr>"
  using assms by (auto simp: preview_node_def serialize_node_def storable_node_def null_if_blank_def)

lemma preview_saved_edge:
  assumes "storable_edge ids (serialize_edge e)"
  shows "preview_edge e = (serialize_edge e)\<lparr>pe_description := None\<rparr>"
  using assms by (auto simp: preview_edge_def serialize_edge_def storable_edge_def)

lemma preview_saved:
  assumes "coherent_graph (graph_of d)"
  shows "previewGraph d =
     (map (pn_metadata_update (\<lambda>_. None)) (g_nodes (graph_of d)),
      map (pe_description_update (\<lambda>_. None)) (g_edges (graph_of d)))"
proof -
  have ids: "node_ids (map serialize_node (pd_nodes d)) = draft_ids d"
    by (simp add: node_ids_def draft_ids_def image_image)
  have "preview_node n = (serialize_node n)\<lparr>pn_metadata := None\<rparr>" if "n \<in> set (pd_nodes d)" for n
    using that assms by (intro preview_saved_node) (simp add: coherent_graph_def list_all_iff)
  moreover have edge: "storable_edge (draft_ids d) (serialize_edge e)" if "e \<in> set (pd_edges d)" for e
    using that assms by (simp add: coherent_graph_def list_all_iff ids)
  moreover have "filter (\<lambda>e. ed_from e \<in> draft_ids d \<and> ed_to e \<in> draft_ids d) (pd_edges d) = pd_edges d"
    using edge by (auto simp: filter_id_conv storable_edge_def)
  moreover have "preview_edge e = (serialize_edge e)\<lparr>pe_description := None\<rparr>" if "e \<in> set (pd_edges d)" for e
    using edge [OF that] by (rule preview_saved_edge)
  ultimately show ?thesis by (simp add: preview_closed)
qed

section \<open>Properties\<close>

text \<open>A two-node draft, for concrete instances.\<close>
definition sample_draft :: playbook_draft where
  "sample_draft =
     \<lparr>pd_root = js ''n1'',
      pd_nodes =
        [(newNodeDraft \<lparr>ns_kind = None, ns_title = Some (js '' Known device? ''), ns_description = None,
            ns_terminal_resolution = None, ns_metadata = Some (js ''{}'')\<rparr> (js ''n1'')),
         (newNodeDraft \<lparr>ns_kind = Some Terminal, ns_title = Some (js ''Closed''), ns_description = None,
            ns_terminal_resolution = Some (js ''benign''), ns_metadata = None\<rparr> (js ''n2''))],
      pd_edges =
        [(newEdgeDraft \<lparr>es_from = Some (js ''n1''), es_to = Some (js ''n2''), es_label = Some (js ''Yes''),
            es_description = Some (js '' ''), es_sort_order = Some (number_text (Fin 7))\<rparr> (js ''e1''))]\<rparr>"

definition sample_graph :: graph_input where
  "sample_graph =
     \<lparr>g_root = Some (js ''n1''),
      g_nodes =
        [\<lparr>pn_id = js ''n1'', pn_kind = Decision, pn_title = js ''Known device?'', pn_description = [],
          pn_terminal_resolution = None, pn_metadata = Some []\<rparr>,
         \<lparr>pn_id = js ''n2'', pn_kind = Terminal, pn_title = js ''Closed'', pn_description = [],
          pn_terminal_resolution = Some (js ''benign''), pn_metadata = None\<rparr>],
      g_edges =
        [\<lparr>pe_id = js ''e1'', pe_from = js ''n1'', pe_to = js ''n2'', pe_label = js ''Yes'',
          pe_description = None, pe_sort_order = Fin 7\<rparr>]\<rparr>"

lemma metadata_instances [js_eval]: "parse_json (js ''{}'') = Some (JObj [])"
proof -
  have "stringify_indented (JObj []) = js ''{}''"
    by (simp add: stringify_indented_def stringify_at.simps js_eval open_gap_def close_gap_def)
  then show ?thesis
    using indented.parse_show [of "JObj []"] by simp
qed

lemma sample_tidy: "coherent_graph sample_graph" "tidy_graph sample_graph"
  by (simp_all add: sample_graph_def coherent_graph_def storable_node_def storable_edge_def node_ids_def
      tidy_graph_def tidy_node_def tidy_edge_def safe_int_def trim_js strip_def blank_char_def)

lemma sample_spells: "graph_of sample_draft = sample_graph"
proof -
  have "parseMetadata (js ''{}'') = (Some [], None)"
    by (simp add: parseMetadata_def metadata_instances trim_js strip_def blank_char_def)
  moreover have "parseSortOrder (number_text (Fin 7)) = Fin 7"
    by (simp add: parseSortOrder_def parse_int10_number_text safe_int_def)
  ultimately show ?thesis
    by (simp add: sample_draft_def sample_graph_def graph_of_def newNodeDraft_def newEdgeDraft_def
        serialize_node_def serialize_edge_def trim_js strip_def blank_char_def)
qed

lemma sample_saved: "serializePlaybookDraft sample_draft = Inr sample_graph"
proof -
  have "readable_metadata (js ''{}'')" "readable_metadata []"
    by (simp_all add: readable_metadata_def metadata_instances trim_js strip_def blank_char_def)
  then show ?thesis
    unfolding serialize_ok sample_spells
    by (simp add: sample_tidy sample_draft_def newNodeDraft_def)
qed

text \<open>C1. A draft is accepted exactly when the graph it spells obeys every row of the write-time table but one,
  the presence of ids, and every metadata box is blank or a JSON object; what is sent is that graph and
  nothing else. So on a draft whose ids are present the form accepts exactly what the table allows.\<close>
theorem save_exactly_storable:
  "(serializePlaybookDraft d = Inr g \<longleftrightarrow>
      g = graph_of d \<and> list_all (obeys g) form_rules \<and> list_all (\<lambda>n. readable_metadata (nd_metadata n)) (pd_nodes d))
   \<and> (serializePlaybookDraft d = Inr g \<and> obeys g Ids_Present \<longleftrightarrow>
      g = graph_of d \<and> storable_graph g \<and> list_all (\<lambda>n. readable_metadata (nd_metadata n)) (pd_nodes d))"
  unfolding serialize_ok coherent_rules storable_graph_def by auto

text \<open>C2. When a draft is refused, the errors shown are exactly the places where it breaks a row of the table
  other than the presence of ids, or holds metadata that are not an object: every such break is
  reported, nothing else is, and no two errors share a field. A draft that is accepted has no such
  break. The one row that is not checked is the presence of ids.\<close>
theorem errors_exactly_problems:
  "(let broken = \<Union> (breaks d ` set form_rules) \<union> unreadable d
    in case serializePlaybookDraft d of
         Inl errs \<Rightarrow> errs \<noteq> [] \<and> set (map de_position errs) = broken \<and> distinct (map de_position errs)
       | Inr _ \<Rightarrow> broken = {})
   \<and> set form_rules = UNIV - {Ids_Present}"
proof -
  have "r \<in> set form_rules \<longleftrightarrow> r \<noteq> Ids_Present" for r by (cases r) (simp_all add: form_rules_def)
  then have "set form_rules = UNIV - {Ids_Present}" by blast
  then show ?thesis
    unfolding Let_def problems_by_rule [symmetric]
    using draft_errors_positions [of d] draft_errors_distinct [of d] draft_errors_none [of d]
    by (simp add: serialize_closed)
qed

text \<open>C20. What a stored version becomes when it is loaded into the form and saved without an edit: the same
  ids, kinds, metadata, ends and sort orders, with outer white space gone from its texts and blank
  optional texts left out (and the resolution of a decision), or a refusal if that graph breaks a row
  of the table that the form checks. A graph that obeys those rows, whose texts carry no outer white
  space and whose optional texts are absent rather than blank, is sent back as it is.
  Metadata are taken to be JSON objects and sort orders integers that a number holds exactly.\<close>
theorem load_then_save:
  assumes "exact_graph g"
  shows "(serializePlaybookDraft (draftFromDefinition g) = Inr g' \<longleftrightarrow> g' = tidied g \<and> list_all (obeys (tidied g)) form_rules)
    \<and> (list_all (obeys g) form_rules \<and> tidy_graph g \<longrightarrow> serializePlaybookDraft (draftFromDefinition g) = Inr g)"
  using reload_exact [OF assms] reload [of g] unfolding coherent_rules by blast

theorem load_then_save_witness:
  "serializePlaybookDraft (draftFromDefinition sample_graph) = Inr sample_graph"
  using load_then_save [OF tidy_exact [OF sample_tidy(2)]] sample_tidy coherent_rules by blast

text \<open>Whatever the form saved, with sort orders a number holds exactly, reloads and saves
  again as the same graph, so a second save changes nothing.\<close>
theorem save_load_save:
  assumes "serializePlaybookDraft d = Inr g" "list_all (\<lambda>e. exact_order (pe_sort_order e)) (g_edges g)"
  shows "serializePlaybookDraft (draftFromDefinition g) = Inr g"
  using assms graph_of_tidy [of d] by (intro reload) (auto simp: serialize_ok)

theorem save_load_save_witness:
  "serializePlaybookDraft (draftFromDefinition sample_graph) = Inr sample_graph"
  by (rule save_load_save [OF sample_saved]) (simp add: sample_graph_def safe_int_def)

text \<open>The preview never draws an edge to nowhere, a node without a title or an edge without
  a label, whatever state the draft is in, and it shows every node of the draft.\<close>
theorem preview_well_formed:
  "case previewGraph d of (ns, es) \<Rightarrow>
     map pn_id ns = map nd_id (pd_nodes d)
     \<and> list_all (\<lambda>n. pn_title n \<noteq> []) ns
     \<and> list_all (\<lambda>e. pe_label e \<noteq> [] \<and> pe_from e \<in> node_ids ns \<and> pe_to e \<in> node_ids ns) es"
proof -
  have "map pn_id (map preview_node (pd_nodes d)) = map nd_id (pd_nodes d)"
    by simp
  moreover have "pn_title (preview_node n) \<noteq> []" "pe_label (preview_edge e) \<noteq> []" for n e
    by (auto simp: preview_node_def preview_edge_def em_dash_def)
  moreover have "node_ids (map preview_node (pd_nodes d)) = draft_ids d"
    by (simp add: node_ids_def draft_ids_def image_image)
  ultimately show ?thesis by (simp add: preview_closed list_all_iff)
qed

text \<open>Once a draft can be saved, the preview is the graph being saved, less the metadata
  and edge descriptions it does not draw.\<close>
theorem preview_is_saved_graph:
  assumes "serializePlaybookDraft d = Inr g"
  shows "previewGraph d = (map (pn_metadata_update (\<lambda>_. None)) (g_nodes g),
                           map (pe_description_update (\<lambda>_. None)) (g_edges g))"
  using assms preview_saved [of d] by (metis serialize_ok)

theorem preview_is_saved_graph_witness:
  "previewGraph sample_draft = (map (pn_metadata_update (\<lambda>_. None)) (g_nodes sample_graph),
                                map (pe_description_update (\<lambda>_. None)) (g_edges sample_graph))"
  by (rule preview_is_saved_graph [OF sample_saved])

section \<open>Where the form is laxer than the table\<close>

text \<open>The table asks for ids to be present and a sort order is a database integer; the
  form checks neither.\<close>
lemma blank_id_passes:
  "serializePlaybookDraft
     \<lparr>pd_root = [], pd_nodes = [newNodeDraft \<lparr>ns_kind = None, ns_title = Some (js ''A''), ns_description = None,
        ns_terminal_resolution = None, ns_metadata = None\<rparr> []], pd_edges = []\<rparr>
   = Inr \<lparr>g_root = None, g_nodes = [\<lparr>pn_id = [], pn_kind = Decision, pn_title = js ''A'', pn_description = [],
        pn_terminal_resolution = None, pn_metadata = None\<rparr>], g_edges = []\<rparr>"
  by (simp add: serialize_ok graph_of_def serialize_node_def coherent_graph_def storable_node_def
      newNodeDraft_def readable_metadata_def trim_js strip_def blank_char_def)

text \<open>2147483648 is one past the column's range.\<close>
lemma wide_order_passes: "parseSortOrder (number_text (Fin 2147483648)) = Fin 2147483648"
  by (simp add: parseSortOrder_def parse_int10_number_text safe_int_def)

end
