(* ===== verification/Supply.thy ===== *)
theory Supply
  imports Prelude
begin

text \<open>
  Lists whose rows carry a key drawn from a supply: the evidence rows of the decision form
  (\<open>ev-1\<close>, \<open>ev-2\<close>, ...), the nodes and the edges of the playbook form
  (\<open>crypto.randomUUID()\<close>). The interface \<open>id_supply\<close> says what a supply promises; a keyed
  list stays without repeats under every edit the forms make.
\<close>

locale id_supply =
  fixes fresh :: "'s \<Rightarrow> 'id \<times> 's"
    and issued :: "'s \<Rightarrow> 'id set"
  assumes fresh_new: "fresh s = (i, s') \<Longrightarrow> i \<notin> issued s"
    and fresh_issued: "fresh s = (i, s') \<Longrightarrow> issued s' = insert i (issued s)"
begin

definition keyed :: "('row \<Rightarrow> 'id) \<Rightarrow> 's \<Rightarrow> 'row list \<Rightarrow> bool" where
  "keyed key s xs \<longleftrightarrow> distinct (map key xs) \<and> key ` set xs \<subseteq> issued s"

lemma keyed_Nil [simp]: "keyed key s []"
  by (simp add: keyed_def)

lemma keyed_distinct: "keyed key s xs \<Longrightarrow> distinct (map key xs)"
  by (simp add: keyed_def)

lemma keyed_later: "keyed key s xs \<Longrightarrow> fresh s = (i, s') \<Longrightarrow> keyed key s' xs"
  using fresh_issued [of s i s'] by (auto simp: keyed_def)

lemma keyed_add: "keyed key s xs \<Longrightarrow> fresh s = (key x, s') \<Longrightarrow> keyed key s' (xs @ [x])"
  using fresh_new [of s "key x" s'] fresh_issued [of s "key x" s']
  by (auto simp: keyed_def)

lemma keyed_fresh: "keyed key s xs \<Longrightarrow> fresh s = (i, s') \<Longrightarrow> i \<notin> key ` set xs"
  using fresh_new [of s i s'] by (auto simp: keyed_def)

lemma keyed_one: "fresh s = (key x, s') \<Longrightarrow> keyed key s' [x]"
  using keyed_add [of key s "[]" x s'] by simp

lemma keyed_remove: "keyed key s xs \<Longrightarrow> keyed key s (remove_at n xs)"
  using set_remove_at [of n xs]
  by (auto simp: keyed_def map_remove_at intro: distinct_remove_at)

lemma keyed_filter: "keyed key s xs \<Longrightarrow> keyed key s (filter p xs)"
  by (auto simp: keyed_def distinct_map inj_on_def)

lemma keyed_update:
  assumes "keyed key s xs" "\<And>x. key (f x) = key x"
  shows "keyed key s (update_at n f xs)"
proof -
  have "map key (update_at n f xs) = map key xs"
    using assms(2) by (rule map_update_at)
  moreover from this have "key ` set (update_at n f xs) = key ` set xs"
    by (metis set_map)
  ultimately show ?thesis using assms(1) by (simp add: keyed_def)
qed

end

text \<open>A source of ids \<open>newId 0\<close>, \<open>newId 1\<close>, ... beside ids that already exist elsewhere.\<close>
definition draw :: "(nat \<Rightarrow> 'id) \<Rightarrow> nat \<Rightarrow> 'id \<times> nat" where
  "draw newId n = (newId n, Suc n)"

definition drawn :: "'id set \<Rightarrow> (nat \<Rightarrow> 'id) \<Rightarrow> nat \<Rightarrow> 'id set" where
  "drawn foreign newId n = foreign \<union> newId ` {..<n}"

lemma draw_supply:
  assumes "inj newId" "range newId \<inter> foreign = {}"
  shows "id_supply (draw newId) (drawn foreign newId)"
proof
  fix s i s' assume draw: "draw newId s = (i, s')"
  show "i \<notin> drawn foreign newId s"
    using draw assms by (auto simp: draw_def drawn_def dest: injD)
  show "drawn foreign newId s' = insert i (drawn foreign newId s)"
    using draw by (auto simp: draw_def drawn_def less_Suc_eq)
qed

end
