(* ===== verification/Resource.thy ===== *)
theory Resource
  imports Api_Error
begin

text \<open>
  \<open>frontend/src/lib/use-resource.ts\<close>: the hook every screen reads its data through. Its
  React state is the record \<open>resource\<close>; each run of its effect starts one load under a
  fresh \<open>AbortController\<close> and cleans up by aborting the previous one. Loads are numbered in
  the order they start; \<open>rc_live\<close> is the number of the load whose controller has not been
  aborted. The world around the hook decides when dependencies change, when a promise
  settles and when the component goes away: these are the events of a step relation.
\<close>

section \<open>The hook's state and handlers\<close>

record 'a resource =
  rc_data :: "'a option"
  rc_error :: "thrown option"
  rc_loading :: bool
  rc_nonce :: nat
  rc_live :: "nat option"
  rc_started :: nat

text \<open>The first render, before any effect has run.\<close>
definition initial_resource :: "bool \<Rightarrow> 'a resource" where
  "initial_resource enabled =
     \<lparr>rc_data = None, rc_error = None, rc_loading = enabled, rc_nonce = 0,
      rc_live = None, rc_started = 0\<rparr>"

text \<open>One run of the effect, after the cleanup of the previous run.\<close>
definition run_effect :: "bool \<Rightarrow> 'a resource \<Rightarrow> 'a resource" where
  "run_effect enabled r =
     (if \<not> enabled then r\<lparr>rc_loading := False, rc_live := None\<rparr>
      else r\<lparr>rc_loading := True, rc_error := None,
             rc_live := Some (rc_started r), rc_started := Suc (rc_started r)\<rparr>)"

text \<open>Load \<open>k\<close> settles with a value (\<open>then\<close>) or an error (\<open>catch\<close>).\<close>
definition settle :: "nat \<Rightarrow> (thrown + 'a) \<Rightarrow> 'a resource \<Rightarrow> 'a resource" where
  "settle k result r =
     (if rc_live r \<noteq> Some k then r
      else case result of
        Inr v \<Rightarrow> r\<lparr>rc_data := Some v, rc_loading := False\<rparr>
      | Inl err \<Rightarrow> r\<lparr>rc_error := Some err, rc_loading := False\<rparr>)"

definition reload_resource :: "'a resource \<Rightarrow> 'a resource" where
  "reload_resource r = r\<lparr>rc_nonce := Suc (rc_nonce r)\<rparr>"

definition set_resource :: "'a \<Rightarrow> 'a resource \<Rightarrow> 'a resource" where
  "set_resource v r = r\<lparr>rc_data := Some v, rc_error := None\<rparr>"

text \<open>Unmounting runs the last cleanup.\<close>
definition unmount :: "'a resource \<Rightarrow> 'a resource" where
  "unmount r = r\<lparr>rc_live := None\<rparr>"

lemmas resource_defs = run_effect_def settle_def reload_resource_def set_resource_def unmount_def

section \<open>The hook inside a screen\<close>

text \<open>A screen's model drives the hook directly: the effect runs as soon as it is due.\<close>

text \<open>The load in flight settles.\<close>
definition answer_load :: "(thrown + 'a) \<Rightarrow> 'a resource \<Rightarrow> 'a resource option" where
  "answer_load result r =
     (case rc_live r of Some k \<Rightarrow> if rc_loading r then Some (settle k result r) else None | None \<Rightarrow> None)"

definition retry_load :: "'a resource \<Rightarrow> 'a resource" where
  "retry_load r = run_effect True (reload_resource r)"

lemma settle_data:
  "rc_data (settle k res r) = (case res of Inr v \<Rightarrow> if rc_live r = Some k then Some v else rc_data r | Inl _ \<Rightarrow> rc_data r)"
  by (auto simp: settle_def split: sum.split)

lemma answer_load_data:
  "answer_load res r = Some r' \<Longrightarrow> rc_data r' = (case res of Inr v \<Rightarrow> Some v | Inl _ \<Rightarrow> rc_data r)"
  by (auto simp: answer_load_def settle_data split: option.splits if_splits sum.split)

lemma retry_data [simp]: "rc_data (retry_load r) = rc_data r"
  by (simp add: retry_load_def run_effect_def reload_resource_def)

section \<open>The hook in its world\<close>

text \<open>\<open>w_pending\<close> holds the loads whose promise has not settled; \<open>w_dirty\<close> says the effect is
  due because \<open>deps\<close>, \<open>nonce\<close> or \<open>enabled\<close> changed since it last ran.\<close>
record 'a world =
  w_hook :: "'a resource"
  w_pending :: "nat set"
  w_dirty :: bool
  w_enabled :: bool

datatype 'a event =
    Deps_Change bool
  | Effect
  | Settle nat "thrown + 'a"
  | Reload
  | Assign 'a

definition initial_world :: "bool \<Rightarrow> 'a world" where
  "initial_world enabled =
     \<lparr>w_hook = initial_resource enabled, w_pending = {}, w_dirty = True, w_enabled = enabled\<rparr>"

inductive step :: "'a world \<Rightarrow> 'a event \<Rightarrow> 'a world \<Rightarrow> bool" where
  deps: "step w (Deps_Change en) (w\<lparr>w_dirty := True, w_enabled := en\<rparr>)"
| effect: "w_dirty w \<Longrightarrow>
    step w Effect
      (w\<lparr>w_hook := run_effect (w_enabled w) (w_hook w),
         w_pending := (if w_enabled w then insert (rc_started (w_hook w)) (w_pending w) else w_pending w),
         w_dirty := False\<rparr>)"
| settled: "k \<in> w_pending w \<Longrightarrow>
    step w (Settle k res) (w\<lparr>w_hook := settle k res (w_hook w), w_pending := w_pending w - {k}\<rparr>)"
| reload: "step w Reload (w\<lparr>w_hook := reload_resource (w_hook w), w_dirty := True\<rparr>)"
| assign: "step w (Assign v) (w\<lparr>w_hook := set_resource v (w_hook w)\<rparr>)"

inductive_cases step_E: "step w e w'"

inductive reachable :: "bool \<Rightarrow> 'a event list \<Rightarrow> 'a world \<Rightarrow> bool" for en where
  init: "reachable en [] (initial_world en)"
| more: "reachable en es w \<Longrightarrow> step w e w' \<Longrightarrow> reachable en (es @ [e]) w'"

section \<open>Invariant\<close>

definition resource_inv :: "'a world \<Rightarrow> bool" where
  "resource_inv w \<longleftrightarrow>
     (\<forall>k\<in>w_pending w. k < rc_started (w_hook w))
     \<and> (case rc_live (w_hook w) of
          None \<Rightarrow> w_dirty w \<or> \<not> rc_loading (w_hook w)
        | Some k \<Rightarrow> Suc k = rc_started (w_hook w) \<and> (rc_loading (w_hook w) \<longleftrightarrow> k \<in> w_pending w))"

lemma resource_inv_initial: "resource_inv (initial_world en)"
  by (simp add: resource_inv_def initial_world_def initial_resource_def)

lemma resource_inv_step: "step w e w' \<Longrightarrow> resource_inv w \<Longrightarrow> resource_inv w'"
  by (induction rule: step.induct)
    (auto simp: resource_inv_def resource_defs split: option.splits sum.splits)

lemma reachable_inv: "reachable en es w \<Longrightarrow> resource_inv w"
  by (induction rule: reachable.induct) (auto intro: resource_inv_initial resource_inv_step)

text \<open>A load that is not the latest one started never changes what the screen shows.\<close>
lemma stale_settle:
  assumes "resource_inv w" "Suc k \<noteq> rc_started (w_hook w)"
  shows "settle k res (w_hook w) = w_hook w"
  using assms by (auto simp: resource_inv_def settle_def)

lemma live_settle_value:
  "rc_live r = Some k \<Longrightarrow> settle k (Inr v) r = r\<lparr>rc_data := Some v, rc_loading := False\<rparr>"
  by (simp add: settle_def)

text \<open>Everything shown came from \<open>set\<close> or from a load that settled.\<close>
definition provided :: "'a event list \<Rightarrow> 'a set" where
  "provided es = {v. Assign v \<in> set es \<or> (\<exists>k. Settle k (Inr v) \<in> set es)}"

lemma data_provided: "reachable en es w \<Longrightarrow> rc_data (w_hook w) = Some v \<Longrightarrow> v \<in> provided es"
proof (induction arbitrary: v rule: reachable.induct)
  case init
  then show ?case by (simp add: initial_world_def initial_resource_def)
next
  case (more es w e w')
  from more.hyps(2) more.prems have "rc_data (w_hook w) = Some v \<or> e = Assign v \<or> (\<exists>k. e = Settle k (Inr v))"
    by (auto elim!: step_E simp: resource_defs split: if_splits sum.splits)
  with more.IH show ?case by (auto simp: provided_def)
qed


section \<open>Executing a trace\<close>

fun step_fun :: "'a world \<Rightarrow> 'a event \<Rightarrow> 'a world option" where
  "step_fun w (Deps_Change en) = Some (w\<lparr>w_dirty := True, w_enabled := en\<rparr>)"
| "step_fun w Effect =
     (if w_dirty w
      then Some (w\<lparr>w_hook := run_effect (w_enabled w) (w_hook w),
                   w_pending := (if w_enabled w then insert (rc_started (w_hook w)) (w_pending w)
                                 else w_pending w),
                   w_dirty := False\<rparr>)
      else None)"
| "step_fun w (Settle k res) =
     (if k \<in> w_pending w
      then Some (w\<lparr>w_hook := settle k res (w_hook w), w_pending := w_pending w - {k}\<rparr>) else None)"
| "step_fun w Reload = Some (w\<lparr>w_hook := reload_resource (w_hook w), w_dirty := True\<rparr>)"
| "step_fun w (Assign v) = Some (w\<lparr>w_hook := set_resource v (w_hook w)\<rparr>)"

fun run_world :: "'a world \<Rightarrow> 'a event list \<Rightarrow> 'a world option" where
  "run_world w [] = Some w"
| "run_world w (e # es) = (case step_fun w e of None \<Rightarrow> None | Some w' \<Rightarrow> run_world w' es)"

lemma step_iff: "step w e w' \<longleftrightarrow> step_fun w e = Some w'"
  using step.effect [of w]
  by (cases e) (auto intro: step.intros(1,3-5) elim: step_E split: if_splits)

lemma run_world_reachable:
  "reachable en es w \<Longrightarrow> run_world w fs = Some w' \<Longrightarrow> reachable en (es @ fs) w'"
proof (induction fs arbitrary: es w)
  case Nil
  then show ?case by simp
next
  case (Cons f fs)
  then obtain v where v: "step_fun w f = Some v" "run_world v fs = Some w'"
    by (auto split: option.splits)
  then have "reachable en (es @ [f]) v"
    using Cons.prems(1) by (simp add: reachable.more step_iff)
  from Cons.IH [OF this v(2)] show ?case by simp
qed

lemmas run_reachable = run_world_reachable [OF reachable.init, simplified]

lemmas trace_simps = initial_world_def initial_resource_def resource_defs

section \<open>Properties\<close>

text \<open>C38. A response to a load that is no longer the latest one changes nothing on the screen:
  after the dependencies change or a reload, an older answer can never overwrite what is shown.\<close>
theorem stale_response_ignored:
  assumes "reachable en es w" "step w (Settle k res) w'" "Suc k \<noteq> rc_started (w_hook w)"
  shows "w_hook w' = w_hook w"
  using stale_settle [OF reachable_inv [OF assms(1)] assms(3)] assms(2)
  by (auto elim: step_E)

theorem stale_response_ignored_witness:
  "\<exists>w w'. reachable True [Effect, Deps_Change True, Effect] w
     \<and> step w (Settle 0 (Inr (7::nat))) w' \<and> Suc 0 \<noteq> rc_started (w_hook w) \<and> w_hook w' = w_hook w"
proof -
  have "run_world (initial_world True) [Effect, Deps_Change True, Effect :: nat event] \<noteq> None"
    by (simp add: trace_simps)
  then obtain w where w: "run_world (initial_world True) [Effect, Deps_Change True, Effect :: nat event] = Some w"
    by blast
  then have reach: "reachable True [Effect, Deps_Change True, Effect :: nat event] w"
    by (rule run_reachable)
  from w have started: "Suc 0 \<noteq> rc_started (w_hook w)" and "0 \<in> w_pending w"
    by (auto simp: trace_simps)
  then obtain w' where "step w (Settle 0 (Inr 7)) w'"
    using step.settled by blast
  with reach started show ?thesis
    using stale_response_ignored [OF reach] by blast
qed

text \<open>C39. The screen never loads for ever: once every promise has settled and no effect is due,
  the loading indicator is off.\<close>
theorem loading_ends:
  assumes "reachable en es w" "w_pending w = {}" "\<not> w_dirty w"
  shows "\<not> rc_loading (w_hook w)"
  using reachable_inv [OF assms(1)] assms(2,3) by (auto simp: resource_inv_def split: option.splits)

theorem loading_ends_witness:
  "\<exists>w. reachable True [Effect, Settle 0 (Inr (7::nat))] w \<and> \<not> rc_loading (w_hook w)"
proof -
  have "run_world (initial_world True) [Effect, Settle 0 (Inr (7::nat))] \<noteq> None"
    by (simp add: trace_simps)
  then obtain w where w: "run_world (initial_world True) [Effect, Settle 0 (Inr (7::nat))] = Some w"
    by blast
  then have "reachable True [Effect, Settle 0 (Inr (7::nat))] w"
    by (rule run_reachable)
  moreover from w have "w_pending w = {}" "\<not> w_dirty w"
    by (auto simp: trace_simps)
  ultimately show ?thesis using loading_ends by blast
qed

text \<open>A load that was already in flight when \<open>set\<close> was called is not aborted, so its answer
  still replaces the newer value.\<close>
lemma set_overwritten_by_earlier_load:
  "\<exists>w. reachable True [Effect, Settle 0 (Inr a), Reload, Effect, Assign b, Settle 1 (Inr a)] w
       \<and> rc_data (w_hook w) = Some a"
proof -
  let ?es = "[Effect, Settle 0 (Inr a), Reload, Effect, Assign b, Settle 1 (Inr a)]"
  have "\<exists>w. run_world (initial_world True) ?es = Some w \<and> rc_data (w_hook w) = Some a"
    by (simp add: trace_simps)
  then show ?thesis using run_reachable by blast
qed

end
