(* ===== verification/Editor.thy ===== *)
theory Editor
  imports Draft_Rules Supply Resource
begin

text \<open>
  \<open>app/playbooks/PlaybookEditorScreen.tsx\<close> with its controls in \<open>components/playbook/\<close>: the
  edits of the draft, the save, publish and clone handlers cut at their \<open>await\<close>s, the
  screen's guards, and the screen as a machine driven by the designer and by the API's
  answers. Ids come from a sequence \<open>newId\<close> (the successive results of
  \<open>crypto.randomUUID\<close>); the number drawn so far is threaded through the edits.
\<close>

section \<open>Edits of the draft\<close>

definition outgoingCount :: "edge_draft list \<Rightarrow> uuid \<Rightarrow> nat" where
  "outgoingCount edges fromNodeId =
     (if fromNodeId = [] then 0 else length (filter (\<lambda>e. ed_from e = fromNodeId) edges))"

definition addNode :: "(nat \<Rightarrow> uuid) \<Rightarrow> node_kind \<Rightarrow> playbook_draft \<Rightarrow> nat \<Rightarrow> playbook_draft \<times> nat" where
  "addNode newId kind d n =
     (let node = newNodeDraft \<lparr>ns_kind = Some kind, ns_title = None, ns_description = None,
                   ns_terminal_resolution = None, ns_metadata = None\<rparr> (newId n)
      in (d\<lparr>pd_nodes := pd_nodes d @ [node],
            pd_root := (if pd_root d = [] \<and> length (pd_nodes d) = 0 then nd_id node else pd_root d)\<rparr>,
          Suc n))"

text \<open>\<open>{ ...node, ...patch }\<close>; a patch never carries an id.\<close>
definition patch_node :: "node_seed \<Rightarrow> node_draft \<Rightarrow> node_draft" where
  "patch_node patch node =
     node\<lparr>nd_kind := or_else (ns_kind patch) (nd_kind node),
          nd_title := or_else (ns_title patch) (nd_title node),
          nd_description := or_else (ns_description patch) (nd_description node),
          nd_terminal_resolution := or_else (ns_terminal_resolution patch) (nd_terminal_resolution node),
          nd_metadata := or_else (ns_metadata patch) (nd_metadata node)\<rparr>"

definition updateNode :: "nat \<Rightarrow> node_seed \<Rightarrow> playbook_draft \<Rightarrow> playbook_draft" where
  "updateNode index patch d = d\<lparr>pd_nodes := update_at index (patch_node patch) (pd_nodes d)\<rparr>"

text \<open>Called for a row on screen, so the index is within the list.\<close>
definition removeNode :: "nat \<Rightarrow> playbook_draft \<Rightarrow> playbook_draft" where
  "removeNode index d =
     (let removed = nd_id (pd_nodes d ! index)
      in \<lparr>pd_root = (if pd_root d = removed then [] else pd_root d),
          pd_nodes = remove_at index (pd_nodes d),
          pd_edges = filter (\<lambda>e. ed_from e \<noteq> removed \<and> ed_to e \<noteq> removed) (pd_edges d)\<rparr>)"

definition addEdge :: "(nat \<Rightarrow> uuid) \<Rightarrow> uuid \<Rightarrow> playbook_draft \<Rightarrow> nat \<Rightarrow> playbook_draft \<times> nat" where
  "addEdge newId fromNodeId d n =
     (d\<lparr>pd_edges := pd_edges d @
          [newEdgeDraft \<lparr>es_from = Some fromNodeId, es_to = None, es_label = None, es_description = None,
             es_sort_order = Some (nat_text (outgoingCount (pd_edges d) fromNodeId + 1))\<rparr> (newId n)]\<rparr>,
      Suc n)"

definition patch_edge :: "edge_seed \<Rightarrow> edge_draft \<Rightarrow> edge_draft" where
  "patch_edge patch edge =
     edge\<lparr>ed_from := or_else (es_from patch) (ed_from edge),
          ed_to := or_else (es_to patch) (ed_to edge),
          ed_label := or_else (es_label patch) (ed_label edge),
          ed_description := or_else (es_description patch) (ed_description edge),
          ed_sort_order := or_else (es_sort_order patch) (ed_sort_order edge)\<rparr>"

text \<open>\<open>others\<close> is the list without the edge being patched.\<close>
definition repatch_edge :: "edge_draft list \<Rightarrow> edge_seed \<Rightarrow> edge_draft \<Rightarrow> edge_draft" where
  "repatch_edge others patch edge =
     (case es_from patch of
        Some f \<Rightarrow>
          if ed_sort_order edge = js ''0''
          then (patch_edge patch edge)\<lparr>ed_sort_order := nat_text (outgoingCount others f + 1)\<rparr>
          else patch_edge patch edge
      | None \<Rightarrow> patch_edge patch edge)"

definition updateEdge :: "nat \<Rightarrow> edge_seed \<Rightarrow> playbook_draft \<Rightarrow> playbook_draft" where
  "updateEdge index patch d =
     d\<lparr>pd_edges := update_at index (repatch_edge (remove_at index (pd_edges d)) patch) (pd_edges d)\<rparr>"

definition removeEdge :: "nat \<Rightarrow> playbook_draft \<Rightarrow> playbook_draft" where
  "removeEdge index d = d\<lparr>pd_edges := remove_at index (pd_edges d)\<rparr>"

definition setRoot :: "uuid \<Rightarrow> playbook_draft \<Rightarrow> playbook_draft" where
  "setRoot rootId d = d\<lparr>pd_root := rootId\<rparr>"

section \<open>What the controls offer\<close>

text \<open>The values an endpoint select offers: none, the eligible nodes, and a node that was chosen
  and is eligible no more.\<close>
definition node_options :: "node_draft list \<Rightarrow> uuid \<Rightarrow> node_draft list \<Rightarrow> uuid list" where
  "node_options nodes selectedId allNodes =
     (let stale = (if selectedId \<noteq> [] \<and> selectedId \<notin> nd_id ` set nodes
                   then find_first (\<lambda>n. nd_id n = selectedId) allNodes else None)
      in [] # map nd_id nodes @ (case stale of None \<Rightarrow> [] | Some n \<Rightarrow> [nd_id n]))"

definition source_nodes :: "node_draft list \<Rightarrow> node_draft list" where
  "source_nodes nodes = filter (\<lambda>n. nd_kind n = Decision) nodes"

definition option_title :: "node_draft \<Rightarrow> jstring" where
  "option_title node = (if trim (nd_title node) = [] then js ''Untitled node'' else trim (nd_title node))"

definition optionLabel :: "nat \<Rightarrow> node_draft \<Rightarrow> jstring" where
  "optionLabel position node = nat_text (position + 1) @ js ''. '' @ option_title node"

definition errorFor :: "draft_error list \<Rightarrow> draft_scope \<Rightarrow> int \<Rightarrow> draft_error_field \<Rightarrow> jstring option" where
  "errorFor errors scope index field =
     map_option de_message
       (find_first (\<lambda>e. de_scope e = scope \<and> de_index e = index \<and> de_field e = field) errors)"

datatype draft_edit =
    Add_Node node_kind
  | Update_Node nat node_seed
  | Remove_Node nat
  | Add_Edge uuid
  | Update_Edge nat edge_seed
  | Remove_Edge nat
  | Set_Root uuid

text \<open>Which edits a draft's controls can produce.\<close>
fun offered :: "playbook_draft \<Rightarrow> draft_edit \<Rightarrow> bool" where
  "offered d (Add_Node kind) = True"
| "offered d (Update_Node i patch) = (i < length (pd_nodes d))"
| "offered d (Remove_Node i) = (i < length (pd_nodes d))"
| "offered d (Add_Edge f) =
     (if f = [] then pd_nodes d \<noteq> [] else f \<in> nd_id ` set (source_nodes (pd_nodes d)))"
| "offered d (Update_Edge i patch) =
     (i < length (pd_edges d)
      \<and> (case es_from patch of None \<Rightarrow> True
         | Some f \<Rightarrow> f \<in> set (node_options (source_nodes (pd_nodes d)) (ed_from (pd_edges d ! i)) (pd_nodes d)))
      \<and> (case es_to patch of None \<Rightarrow> True
         | Some t \<Rightarrow> t \<in> set (node_options (pd_nodes d) (ed_to (pd_edges d ! i)) (pd_nodes d))))"
| "offered d (Remove_Edge i) = (i < length (pd_edges d))"
| "offered d (Set_Root r) = (r = [] \<or> r \<in> nd_id ` set (pd_nodes d))"

fun edit_draft :: "(nat \<Rightarrow> uuid) \<Rightarrow> draft_edit \<Rightarrow> playbook_draft \<Rightarrow> nat \<Rightarrow> playbook_draft \<times> nat" where
  "edit_draft newId (Add_Node kind) d n = addNode newId kind d n"
| "edit_draft newId (Update_Node i patch) d n = (updateNode i patch d, n)"
| "edit_draft newId (Remove_Node i) d n = (removeNode i d, n)"
| "edit_draft newId (Add_Edge f) d n = addEdge newId f d n"
| "edit_draft newId (Update_Edge i patch) d n = (updateEdge i patch d, n)"
| "edit_draft newId (Remove_Edge i) d n = (removeEdge i d, n)"
| "edit_draft newId (Set_Root r) d n = (setRoot r d, n)"

section \<open>The screen\<close>

record metadata_errors =
  me_name :: "jstring option"
  me_alertType :: "jstring option"

definition no_metadata_errors :: metadata_errors where
  "no_metadata_errors = \<lparr>me_name = None, me_alertType = None\<rparr>"

record editor =
  sc_playbookId :: "uuid option"
  sc_versionId :: "uuid option"
  sc_playbook :: "playbook_with_versions resource"
  sc_version :: "version_definition resource"
  sc_name :: jstring
  sc_description :: jstring
  sc_alertType :: jstring
  sc_metadataErrors :: metadata_errors
  sc_draft :: playbook_draft
  sc_errors :: "draft_error list"
  sc_dirty :: bool
  sc_saving :: bool
  sc_saveError :: "thrown option"
  sc_publishing :: bool
  sc_publishError :: "thrown option"
  sc_cloning :: bool
  sc_cloneError :: "thrown option"
  sc_justPublished :: bool
  sc_seeded :: "uuid option"
  sc_drawn :: nat

text \<open>What the screen asks of the API.\<close>
datatype editor_request =
    Put_Graph uuid graph_input
  | Create_Playbook create_playbook_request
  | Publish_Version uuid
  | Create_Version uuid uuid

text \<open>The effect that seeds the form from a stored version, once per version id.\<close>
definition seed_effect :: "editor \<Rightarrow> editor" where
  "seed_effect e =
     (case rc_data (sc_version e) of
        None \<Rightarrow> e
      | Some v \<Rightarrow>
          if sc_seeded e = Some (v_id v) then e
          else e\<lparr>sc_seeded := Some (v_id v), sc_draft := draftFromDefinition v, sc_dirty := False,
                 sc_errors := []\<rparr>)"

definition frozen :: "editor \<Rightarrow> bool" where
  "frozen e = (case rc_data (sc_version e) of None \<Rightarrow> False | Some v \<Rightarrow> v_status v \<noteq> Draft)"

definition locked :: "editor \<Rightarrow> bool" where
  "locked e \<longleftrightarrow> frozen e \<or> sc_saving e \<or> sc_publishing e \<or> sc_cloning e"

definition mutate :: "playbook_draft \<Rightarrow> editor \<Rightarrow> editor" where
  "mutate d e = e\<lparr>sc_draft := d, sc_dirty := True, sc_errors := []\<rparr>"

definition clearNameError :: "editor \<Rightarrow> editor" where
  "clearNameError e = e\<lparr>sc_metadataErrors := (sc_metadataErrors e)\<lparr>me_name := None\<rparr>\<rparr>"

definition clearAlertTypeError :: "editor \<Rightarrow> editor" where
  "clearAlertTypeError e = e\<lparr>sc_metadataErrors := (sc_metadataErrors e)\<lparr>me_alertType := None\<rparr>\<rparr>"

definition missing_metadata :: "editor \<Rightarrow> metadata_errors" where
  "missing_metadata e =
     (if sc_versionId e = None
      then \<lparr>me_name = (if trim (sc_name e) = [] then Some (js ''A name is required.'') else None),
            me_alertType = (if trim (sc_alertType e) = [] then Some (js ''An alert type is required.'') else None)\<rparr>
      else no_metadata_errors)"

text \<open>\<open>save\<close> up to its \<open>await\<close>.\<close>
definition save :: "editor \<Rightarrow> editor \<times> editor_request option" where
  "save e =
     (if locked e then (e, None)
      else
        let serialized = serializePlaybookDraft (sc_draft e);
            missing = missing_metadata e;
            e1 = e\<lparr>sc_metadataErrors := missing,
                   sc_errors := (case serialized of Inl errs \<Rightarrow> errs | Inr _ \<Rightarrow> [])\<rparr>
        in case serialized of
             Inl _ \<Rightarrow> (e1, None)
           | Inr graph \<Rightarrow>
               if missing \<noteq> no_metadata_errors then (e1, None)
               else (e1\<lparr>sc_saving := True, sc_saveError := None, sc_publishError := None\<rparr>,
                     Some (case sc_versionId e of
                       Some v \<Rightarrow> Put_Graph v graph
                     | None \<Rightarrow> Create_Playbook
                         \<lparr>cp_name = trim (sc_name e), cp_description = trim (sc_description e),
                          cp_alert_type = trim (sc_alertType e), cp_definition = Some graph\<rparr>)))"

text \<open>After the \<open>await\<close> of the write of a version's graph.\<close>
definition put_done :: "(thrown + version_definition) \<Rightarrow> editor \<Rightarrow> editor" where
  "put_done answer e =
     (case answer of
        Inr updated \<Rightarrow>
          e\<lparr>sc_version := set_resource updated (sc_version e), sc_draft := draftFromDefinition updated,
            sc_dirty := False, sc_saving := False\<rparr>
      | Inl err \<Rightarrow> e\<lparr>sc_saveError := Some err, sc_saving := False\<rparr>)"

text \<open>After the \<open>await\<close> of the creation: the address to open, when the answer has a version;
  reading the id of a missing one throws, inside the same \<open>try\<close>.\<close>
definition create_done ::
  "(thrown + playbook_with_versions) \<Rightarrow> editor \<Rightarrow> editor \<times> (uuid \<times> uuid) option"
where
  "create_done answer e =
     (case answer of
        Inl err \<Rightarrow> (e\<lparr>sc_saveError := Some err, sc_saving := False\<rparr>, None)
      | Inr created \<Rightarrow>
          (case pb_versions created of
             [] \<Rightarrow> (e\<lparr>sc_saveError := Some (Other_Failure (js ''Cannot read properties of undefined (reading '' @ [39] @ js ''id'' @ [39] @ js '')'')),
                     sc_saving := False\<rparr>, None)
           | v # _ \<Rightarrow> (e\<lparr>sc_saving := False\<rparr>, Some (pb_id created, vs_id v))))"

definition publish :: "editor \<Rightarrow> editor \<times> editor_request option" where
  "publish e =
     (case sc_versionId e of
        None \<Rightarrow> (e, None)
      | Some v \<Rightarrow>
          if locked e then (e, None)
          else (e\<lparr>sc_publishing := True, sc_publishError := None, sc_saveError := None\<rparr>,
                Some (Publish_Version v)))"

text \<open>\<open>playbook.reload()\<close> makes the hook's effect due, which then starts a load.\<close>
definition publish_done :: "(thrown + version_definition) \<Rightarrow> editor \<Rightarrow> editor" where
  "publish_done answer e =
     (case answer of
        Inr published \<Rightarrow>
          e\<lparr>sc_version := set_resource published (sc_version e), sc_justPublished := True,
            sc_playbook := run_effect (sc_playbookId e \<noteq> None) (reload_resource (sc_playbook e)),
            sc_publishing := False\<rparr>
      | Inl err \<Rightarrow> e\<lparr>sc_publishError := Some err, sc_publishing := False\<rparr>)"

definition startNewVersion :: "editor \<Rightarrow> editor \<times> editor_request option" where
  "startNewVersion e =
     (case (sc_playbookId e, sc_versionId e) of
        (Some p, Some v) \<Rightarrow>
          if sc_cloning e then (e, None)
          else (e\<lparr>sc_cloning := True, sc_cloneError := None\<rparr>, Some (Create_Version p v))
      | _ \<Rightarrow> (e, None))"

text \<open>A success navigates away with the screen still locked.\<close>
definition clone_done :: "(thrown + version_definition) \<Rightarrow> editor \<Rightarrow> editor \<times> (uuid \<times> uuid) option" where
  "clone_done answer e =
     (case answer of
        Inr next \<Rightarrow> (e, Some (or_else (sc_playbookId e) [], v_id next))
      | Inl err \<Rightarrow> (e\<lparr>sc_cloneError := Some err, sc_cloning := False\<rparr>, None))"

definition editHref :: "uuid \<Rightarrow> uuid \<Rightarrow> jstring" where
  "editHref playbookId versionId =
     js ''/playbooks/'' @ playbookId @ js ''/versions/'' @ versionId @ js ''/edit''"

section \<open>What is on screen\<close>

datatype screen = Loading_Screen | Mismatch_Screen uuid uuid | Form_Screen

definition screen_of :: "editor \<Rightarrow> screen" where
  "screen_of e =
     (if sc_versionId e \<noteq> None \<and> rc_loading (sc_version e) \<and> rc_data (sc_version e) = None
      then Loading_Screen
      else case (sc_playbookId e, rc_data (sc_version e)) of
        (Some p, Some v) \<Rightarrow> if v_playbook_id v \<noteq> p then Mismatch_Screen (v_playbook_id v) (v_id v) else Form_Screen
      | _ \<Rightarrow> Form_Screen)"

definition can_edit :: "editor \<Rightarrow> bool" where
  "can_edit e \<longleftrightarrow> screen_of e = Form_Screen \<and> \<not> locked e"

definition can_save :: "editor \<Rightarrow> bool" where
  "can_save e \<longleftrightarrow> screen_of e = Form_Screen \<and> \<not> frozen e \<and> \<not> (locked e \<or> (sc_versionId e \<noteq> None \<and> \<not> sc_dirty e))"

definition can_publish :: "editor \<Rightarrow> bool" where
  "can_publish e \<longleftrightarrow>
     screen_of e = Form_Screen \<and> sc_versionId e \<noteq> None \<and> \<not> frozen e \<and> \<not> (locked e \<or> sc_dirty e)"

definition can_clone :: "editor \<Rightarrow> bool" where
  "can_clone e \<longleftrightarrow> screen_of e = Form_Screen \<and> frozen e \<and> sc_playbookId e \<noteq> None \<and> \<not> sc_cloning e"

end
