(* ===== verification/Editor_Edits.thy ===== *)
theory Editor_Edits
  imports Editor
begin

text \<open>
  The draft's invariant under the editor's edits, one lemma per operation: node and edge ids never
  repeat, and no edge and no root points at a node that is not there. Ids rest on the supply
  interface, so an id is new whenever \<open>newId\<close> never repeats.
\<close>

section \<open>The draft under edits\<close>

text \<open>No edge and no root points at a node that is not there.\<close>
definition closed_draft :: "playbook_draft \<Rightarrow> bool" where
  "closed_draft d \<longleftrightarrow>
     (\<forall>e\<in>set (pd_edges d). (ed_from e = [] \<or> ed_from e \<in> draft_ids d) \<and> (ed_to e = [] \<or> ed_to e \<in> draft_ids d))
     \<and> (pd_root d = [] \<or> pd_root d \<in> draft_ids d)"

text \<open>Node and edge ids are without repeats and all accounted for.\<close>
definition keyed_draft :: "uuid set \<Rightarrow> (nat \<Rightarrow> uuid) \<Rightarrow> nat \<Rightarrow> playbook_draft \<Rightarrow> bool" where
  "keyed_draft foreign newId n d \<longleftrightarrow>
     id_supply.keyed (drawn foreign newId) nd_id n (pd_nodes d)
     \<and> id_supply.keyed (drawn foreign newId) ed_id n (pd_edges d)"

definition good_draft :: "uuid set \<Rightarrow> (nat \<Rightarrow> uuid) \<Rightarrow> nat \<Rightarrow> playbook_draft \<Rightarrow> bool" where
  "good_draft foreign newId n d \<longleftrightarrow> closed_draft d \<and> keyed_draft foreign newId n d"

text \<open>What is assumed of the source of ids: it never repeats and never returns an id that
  already exists elsewhere.\<close>
definition fresh_source :: "uuid set \<Rightarrow> (nat \<Rightarrow> uuid) \<Rightarrow> bool" where
  "fresh_source foreign newId \<longleftrightarrow> inj newId \<and> range newId \<inter> foreign = {}"

lemma source_supply: "fresh_source foreign newId \<Longrightarrow> id_supply (draw newId) (drawn foreign newId)"
  by (simp add: fresh_source_def draw_supply)

lemma draw_next: "draw newId n = (newId n, Suc n)"
  by (simp add: draw_def)

lemma draft_ids_update [simp]:
  "draft_ids (d\<lparr>pd_edges := es\<rparr>) = draft_ids d" "draft_ids (d\<lparr>pd_root := r\<rparr>) = draft_ids d"
  by (simp_all add: draft_ids_def)

lemma addNode_good:
  assumes "fresh_source foreign newId" "good_draft foreign newId n d" "addNode newId kind d n = (d', n')"
  shows "good_draft foreign newId n' d'"
proof -
  note sup = source_supply [OF assms(1)]
  let ?node = "newNodeDraft \<lparr>ns_kind = Some kind, ns_title = None, ns_description = None,
      ns_terminal_resolution = None, ns_metadata = None\<rparr> (newId n)"
  have id: "nd_id ?node = newId n" by (simp add: newNodeDraft_def)
  have d': "pd_nodes d' = pd_nodes d @ [?node]" "pd_edges d' = pd_edges d" "n' = Suc n"
    "pd_root d' = pd_root d \<or> pd_root d' = newId n"
    using assms(3) by (auto simp: addNode_def Let_def id)
  have ids: "draft_ids d' = insert (newId n) (draft_ids d)"
    by (simp add: draft_ids_def d' id)
  have "id_supply.keyed (drawn foreign newId) nd_id n' (pd_nodes d')"
    unfolding d' using assms(2)
    by (intro id_supply.keyed_add [OF sup]) (simp_all add: good_draft_def keyed_draft_def draw_next id)
  moreover have "id_supply.keyed (drawn foreign newId) ed_id n' (pd_edges d')"
    unfolding d'(2,3) using assms(2)
    by (intro id_supply.keyed_later [OF sup _ draw_next]) (simp add: good_draft_def keyed_draft_def)
  moreover have "pd_root d' = [] \<or> pd_root d' \<in> draft_ids d'"
    using d'(4) assms(2) unfolding ids good_draft_def closed_draft_def by (metis insertCI)
  ultimately show ?thesis
    using assms(2) by (auto simp: good_draft_def keyed_draft_def closed_draft_def ids d'(2))
qed

lemma updateNode_good:
  assumes "fresh_source foreign newId" "good_draft foreign newId n d"
  shows "good_draft foreign newId n (updateNode i patch d)"
proof -
  have id: "nd_id (patch_node patch x) = nd_id x" for x by (simp add: patch_node_def)
  have "map nd_id (update_at i (patch_node patch) (pd_nodes d)) = map nd_id (pd_nodes d)"
    by (rule map_update_at) (rule id)
  then have "draft_ids (updateNode i patch d) = draft_ids d"
    unfolding draft_ids_def updateNode_def by (simp flip: set_map)
  then show ?thesis
    using assms(2) id_supply.keyed_update [OF source_supply [OF assms(1)], where key = nd_id, OF _ id]
    by (simp add: good_draft_def closed_draft_def keyed_draft_def updateNode_def)
qed

lemma removeNode_good:
  assumes "fresh_source foreign newId" "good_draft foreign newId n d" "i < length (pd_nodes d)"
  shows "good_draft foreign newId n (removeNode i d)"
proof -
  note sup = source_supply [OF assms(1)]
  let ?removed = "nd_id (pd_nodes d ! i)"
  have keyed: "id_supply.keyed (drawn foreign newId) nd_id n (pd_nodes d)"
    "id_supply.keyed (drawn foreign newId) ed_id n (pd_edges d)"
    using assms(2) by (simp_all add: good_draft_def keyed_draft_def)
  have "distinct (map nd_id (pd_nodes d))"
    by (rule id_supply.keyed_distinct [OF sup keyed(1)])
  then have "set (remove_at i (map nd_id (pd_nodes d))) = set (map nd_id (pd_nodes d)) - {?removed}"
    using assms(3) by (subst set_remove_at_distinct) simp_all
  then have ids: "draft_ids (removeNode i d) = draft_ids d - {?removed}"
    by (simp add: draft_ids_def removeNode_def Let_def map_remove_at [symmetric])
  have "closed_draft (removeNode i d)"
    using assms(2) unfolding closed_draft_def ids good_draft_def
    by (auto simp: removeNode_def Let_def)
  moreover have "keyed_draft foreign newId n (removeNode i d)"
    using id_supply.keyed_remove [OF sup keyed(1)] id_supply.keyed_filter [OF sup keyed(2)]
    by (simp add: keyed_draft_def removeNode_def Let_def)
  ultimately show ?thesis by (simp add: good_draft_def)
qed

lemma addEdge_good:
  assumes "fresh_source foreign newId" "good_draft foreign newId n d" "f = [] \<or> f \<in> draft_ids d"
    "addEdge newId f d n = (d', n')"
  shows "good_draft foreign newId n' d'"
proof -
  note sup = source_supply [OF assms(1)]
  from assms(4) obtain e where d': "d' = d\<lparr>pd_edges := pd_edges d @ [e]\<rparr>" "n' = Suc n"
    and e: "ed_id e = newId n" "ed_from e = f" "ed_to e = []"
    by (auto simp: addEdge_def newEdgeDraft_def)
  have "id_supply.keyed (drawn foreign newId) ed_id n' (pd_edges d @ [e])"
    unfolding d' using assms(2)
    by (intro id_supply.keyed_add [OF sup]) (simp_all add: good_draft_def keyed_draft_def draw_next e)
  moreover have "id_supply.keyed (drawn foreign newId) nd_id n' (pd_nodes d)"
    unfolding d'(2) using assms(2)
    by (intro id_supply.keyed_later [OF sup _ draw_next]) (simp add: good_draft_def keyed_draft_def)
  ultimately show ?thesis
    using assms(2,3) e by (auto simp: good_draft_def keyed_draft_def closed_draft_def d')
qed

lemma repatch_edge_simps [simp]:
  "ed_id (repatch_edge os p e) = ed_id e"
  "ed_from (repatch_edge os p e) = or_else (es_from p) (ed_from e)"
  "ed_to (repatch_edge os p e) = or_else (es_to p) (ed_to e)"
  by (auto simp: repatch_edge_def patch_edge_def split: option.split)

text \<open>An endpoint that is not picked yet, or a node of the draft.\<close>
definition endpoint_ok :: "playbook_draft \<Rightarrow> uuid \<Rightarrow> bool" where
  "endpoint_ok d x \<longleftrightarrow> x = [] \<or> x \<in> draft_ids d"

lemma closed_draft_endpoints:
  "closed_draft d \<longleftrightarrow>
     (\<forall>e\<in>set (pd_edges d). endpoint_ok d (ed_from e) \<and> endpoint_ok d (ed_to e)) \<and> endpoint_ok d (pd_root d)"
  by (simp add: closed_draft_def endpoint_ok_def)

lemma repatch_endpoints:
  assumes "endpoint_ok d (ed_from e) \<and> endpoint_ok d (ed_to e)"
    "pred_option (endpoint_ok d) (es_from p)" "pred_option (endpoint_ok d) (es_to p)"
  shows "endpoint_ok d (ed_from (repatch_edge os p e)) \<and> endpoint_ok d (ed_to (repatch_edge os p e))"
  using assms by (cases "es_from p"; cases "es_to p") simp_all

lemma updateEdge_good:
  assumes "fresh_source foreign newId" "good_draft foreign newId n d"
    "pred_option (endpoint_ok d) (es_from patch)" "pred_option (endpoint_ok d) (es_to patch)"
  shows "good_draft foreign newId n (updateEdge i patch d)"
proof -
  note sup = source_supply [OF assms(1)]
  let ?os = "remove_at i (pd_edges d)"
  have edge: "endpoint_ok d (ed_from x) \<and> endpoint_ok d (ed_to x)" if "x \<in> set (pd_edges d)" for x
    using assms(2) that by (simp add: good_draft_def closed_draft_endpoints)
  have "endpoint_ok d (ed_from x) \<and> endpoint_ok d (ed_to x)"
    if "x \<in> set (update_at i (repatch_edge ?os patch) (pd_edges d))" for x
    using set_update_at [OF that]
  proof
    assume "\<exists>y\<in>set (pd_edges d). x = repatch_edge ?os patch y"
    then obtain y where y: "y \<in> set (pd_edges d)" "x = repatch_edge ?os patch y" by blast
    from repatch_endpoints [OF edge [OF y(1)] assms(3,4)] show ?thesis by (simp only: y(2))
  qed (rule edge)
  then have "closed_draft (updateEdge i patch d)"
    using assms(2) by (simp add: closed_draft_def updateEdge_def good_draft_def endpoint_ok_def)
  moreover have "keyed_draft foreign newId n (updateEdge i patch d)"
    using assms(2) unfolding updateEdge_def
    by (simp add: good_draft_def keyed_draft_def id_supply.keyed_update [OF sup])
  ultimately show ?thesis by (simp add: good_draft_def)
qed

lemma removeEdge_good:
  assumes "fresh_source foreign newId" "good_draft foreign newId n d"
  shows "good_draft foreign newId n (removeEdge i d)"
  using assms(2) set_remove_at [of i "pd_edges d"] id_supply.keyed_remove [OF source_supply [OF assms(1)]]
  by (auto simp: good_draft_def keyed_draft_def closed_draft_def removeEdge_def)

text \<open>An endpoint select never offers a node that is not there.\<close>
lemma node_options_ids:
  assumes "x \<in> set (node_options ns sel (pd_nodes d))" "set ns \<subseteq> set (pd_nodes d)"
  shows "endpoint_ok d x"
proof -
  have "find_first (\<lambda>n. nd_id n = sel) (pd_nodes d) = Some m \<Longrightarrow> m \<in> set (pd_nodes d)" for m
    by (auto simp: find_Some_iff in_set_conv_nth)
  with assms show ?thesis
    by (auto simp: node_options_def endpoint_ok_def draft_ids_def Let_def split: option.splits if_splits)
qed

lemma edit_draft_good:
  assumes "fresh_source foreign newId" "good_draft foreign newId n d" "offered d ed"
    "edit_draft newId ed d n = (d', n')"
  shows "good_draft foreign newId n' d'"
proof (cases ed)
  case (Add_Node k)
  with assms addNode_good [OF assms(1,2)] show ?thesis by simp
next
  case (Add_Edge f)
  have "f = [] \<or> f \<in> draft_ids d"
    using assms(3) Add_Edge by (auto simp: draft_ids_def source_nodes_def split: if_splits)
  with assms(4) Add_Edge addEdge_good [OF assms(1,2)] show ?thesis by simp
next
  case (Update_Edge i patch)
  have "set (source_nodes (pd_nodes d)) \<subseteq> set (pd_nodes d)" by (auto simp: source_nodes_def)
  then have "pred_option (endpoint_ok d) (es_from patch)" "pred_option (endpoint_ok d) (es_to patch)"
    using assms(3) Update_Edge node_options_ids by (auto simp: pred_option_def split: option.splits)
  with assms(4) Update_Edge updateEdge_good [OF assms(1,2)] show ?thesis by auto
next
  case (Set_Root r)
  with assms show ?thesis
    by (auto simp: good_draft_def keyed_draft_def closed_draft_def setRoot_def draft_ids_def)
qed (use assms updateNode_good removeNode_good removeEdge_good in auto)

end
