(* ===== verification/Machine.thy ===== *)
theory Machine
  imports Prelude
begin

text \<open>
  Screens as machines: a step takes a state and an event, and is undefined for an event the screen
  does not offer in that state. Reachable states, runs of a list of events, and the interface a
  screen's invariant is stated through; \<open>allowed\<close> is what is assumed of the answers that come in.
\<close>

inductive reach :: "('s \<Rightarrow> 'e \<Rightarrow> 's option) \<Rightarrow> ('s \<Rightarrow> 'e \<Rightarrow> bool) \<Rightarrow> 's \<Rightarrow> 's \<Rightarrow> bool"
  for step allowed s0
where
  start: "reach step allowed s0 s0"
| more: "reach step allowed s0 s \<Longrightarrow> step s ev = Some s' \<Longrightarrow> allowed s ev \<Longrightarrow> reach step allowed s0 s'"

fun run :: "('s \<Rightarrow> 'e \<Rightarrow> 's option) \<Rightarrow> 's \<Rightarrow> 'e list \<Rightarrow> 's option" where
  "run step s [] = Some s"
| "run step s (ev # evs) = (case step s ev of None \<Rightarrow> None | Some s' \<Rightarrow> run step s' evs)"

lemma run_reach:
  assumes "reach step allowed s0 s" "run step s evs = Some s'" "list_all (\<lambda>ev. \<forall>t. allowed t ev) evs"
  shows "reach step allowed s0 s'"
  using assms
proof (induction evs arbitrary: s)
  case (Cons ev evs)
  then obtain t where t: "step s ev = Some t" "run step t evs = Some s'"
    by (auto split: option.splits)
  with Cons.prems have "reach step allowed s0 t"
    by (intro reach.more [OF Cons.prems(1) t(1)]) simp
  from Cons.IH [OF this t(2)] Cons.prems(3) show ?case by simp
qed simp

lemmas run_from_start = run_reach [OF reach.start]

text \<open>What every step keeps, every reachable state has.\<close>
locale machine_invariant =
  fixes step :: "'s \<Rightarrow> 'e \<Rightarrow> 's option" and allowed :: "'s \<Rightarrow> 'e \<Rightarrow> bool" and inv :: "'s \<Rightarrow> bool"
  assumes kept: "inv s \<Longrightarrow> step s ev = Some s' \<Longrightarrow> allowed s ev \<Longrightarrow> inv s'"
begin

lemma holds: "reach step allowed s0 s \<Longrightarrow> inv s0 \<Longrightarrow> inv s"
  by (induction rule: reach.induct) (auto intro: kept)

lemma holds_along:
  assumes "inv s" "run step s evs = Some s'" "list_all (\<lambda>ev. \<forall>t. allowed t ev) evs"
  shows "inv s'"
  using run_from_start [OF assms(2,3)] assms(1) by (rule holds)

end

end
