(* ===== verification/Editor_Run.thy ===== *)
theory Editor_Run
  imports Editor_Edits Machine
begin

text \<open>
  The editor screen in its world: what the designer may press, what the API may answer, and
  the invariants of every session.
\<close>

section \<open>A session\<close>

text \<open>The screen, the requests it has sent (oldest first) and the address it navigated to.\<close>
record session =
  ss_screen :: editor
  ss_log :: "editor_request list"
  ss_opened :: "(uuid \<times> uuid) option"

definition initial_session :: "uuid option \<Rightarrow> uuid option \<Rightarrow> session" where
  "initial_session playbookId versionId =
     \<lparr>ss_screen =
        \<lparr>sc_playbookId = playbookId, sc_versionId = versionId,
         sc_playbook = run_effect (playbookId \<noteq> None) (initial_resource (playbookId \<noteq> None)),
         sc_version = run_effect (versionId \<noteq> None) (initial_resource (versionId \<noteq> None)),
         sc_name = [], sc_description = [], sc_alertType = [], sc_metadataErrors = no_metadata_errors,
         sc_draft = EMPTY_DRAFT, sc_errors = [], sc_dirty = False,
         sc_saving = False, sc_saveError = None, sc_publishing = False, sc_publishError = None,
         sc_cloning = False, sc_cloneError = None, sc_justPublished = False,
         sc_seeded = None, sc_drawn = 0\<rparr>,
      ss_log = [], ss_opened = None\<rparr>"

datatype editor_event =
    Version_Answer "thrown + version_definition"
  | Playbook_Answer "thrown + playbook_with_versions"
  | Retry_Version
  | Retry_Playbook
  | Type_Name jstring
  | Type_Description jstring
  | Type_Alert_Type jstring
  | Edit draft_edit
  | Press_Save
  | Put_Answer "thrown + version_definition"
  | Create_Answer "thrown + playbook_with_versions"
  | Press_Publish
  | Publish_Answer "thrown + version_definition"
  | Press_Clone
  | Clone_Answer "thrown + version_definition"

definition send :: "editor \<times> editor_request option \<Rightarrow> session \<Rightarrow> session" where
  "send er s = s\<lparr>ss_screen := fst er,
                 ss_log := ss_log s @ (case snd er of None \<Rightarrow> [] | Some q \<Rightarrow> [q])\<rparr>"

definition land :: "editor \<times> (uuid \<times> uuid) option \<Rightarrow> session \<Rightarrow> session" where
  "land el s = s\<lparr>ss_screen := fst el, ss_opened := snd el\<rparr>"

definition show_editor :: "editor \<Rightarrow> session \<Rightarrow> session" where
  "show_editor e s = s\<lparr>ss_screen := e\<rparr>"

text \<open>A step is possible while the screen is open, when the control is enabled or the request
  is in flight.\<close>
fun editor_step :: "(nat \<Rightarrow> uuid) \<Rightarrow> editor \<Rightarrow> editor_event \<Rightarrow> session \<Rightarrow> session option" where
  "editor_step newId e (Version_Answer res) s =
     (case answer_load res (sc_version e) of None \<Rightarrow> None
      | Some r \<Rightarrow> Some (show_editor (seed_effect (e\<lparr>sc_version := r\<rparr>)) s))"
| "editor_step newId e (Playbook_Answer res) s =
     (case answer_load res (sc_playbook e) of None \<Rightarrow> None
      | Some r \<Rightarrow> Some (show_editor (e\<lparr>sc_playbook := r\<rparr>) s))"
| "editor_step newId e Retry_Version s =
     (if screen_of e = Form_Screen \<and> rc_error (sc_version e) \<noteq> None
      then Some (show_editor (e\<lparr>sc_version := retry_load (sc_version e)\<rparr>) s) else None)"
| "editor_step newId e Retry_Playbook s =
     (if screen_of e = Form_Screen \<and> rc_error (sc_playbook e) \<noteq> None
      then Some (show_editor (e\<lparr>sc_playbook := retry_load (sc_playbook e)\<rparr>) s) else None)"
| "editor_step newId e (Type_Name t) s =
     (if can_edit e \<and> sc_versionId e = None
      then Some (show_editor (clearNameError (e\<lparr>sc_name := t\<rparr>)) s) else None)"
| "editor_step newId e (Type_Description t) s =
     (if can_edit e \<and> sc_versionId e = None
      then Some (show_editor (e\<lparr>sc_description := t\<rparr>) s) else None)"
| "editor_step newId e (Type_Alert_Type t) s =
     (if can_edit e \<and> sc_versionId e = None
      then Some (show_editor (clearAlertTypeError (e\<lparr>sc_alertType := t\<rparr>)) s) else None)"
| "editor_step newId e (Edit ed) s =
     (if can_edit e \<and> offered (sc_draft e) ed
      then case edit_draft newId ed (sc_draft e) (sc_drawn e) of (d, n) \<Rightarrow>
             Some (show_editor (mutate d (e\<lparr>sc_drawn := n\<rparr>)) s)
      else None)"
| "editor_step newId e Press_Save s = (if can_save e then Some (send (save e) s) else None)"
| "editor_step newId e (Put_Answer res) s =
     (if sc_saving e \<and> sc_versionId e \<noteq> None
      then Some (show_editor (seed_effect (put_done res e)) s) else None)"
| "editor_step newId e (Create_Answer res) s =
     (if sc_saving e \<and> sc_versionId e = None then Some (land (create_done res e) s) else None)"
| "editor_step newId e Press_Publish s = (if can_publish e then Some (send (publish e) s) else None)"
| "editor_step newId e (Publish_Answer res) s =
     (if sc_publishing e then Some (show_editor (seed_effect (publish_done res e)) s) else None)"
| "editor_step newId e Press_Clone s = (if can_clone e then Some (send (startNewVersion e) s) else None)"
| "editor_step newId e (Clone_Answer res) s =
     (if sc_cloning e then Some (land (clone_done res e) s) else None)"

definition session_step :: "(nat \<Rightarrow> uuid) \<Rightarrow> session \<Rightarrow> editor_event \<Rightarrow> session option" where
  "session_step newId s ev = (if ss_opened s \<noteq> None then None else editor_step newId (ss_screen s) ev s)"

text \<open>What is assumed of a version the API returns: its graph is one that may be stored, and its
  ids are ids that existed elsewhere or that this screen has drawn.\<close>
definition stored_version :: "uuid set \<Rightarrow> version_definition \<Rightarrow> bool" where
  "stored_version ids v \<longleftrightarrow>
     coherent_graph (graph_input.truncate v)
     \<and> pn_id ` set (g_nodes v) \<subseteq> ids \<and> pe_id ` set (g_edges v) \<subseteq> ids"

fun answer_version :: "editor_event \<Rightarrow> version_definition option" where
  "answer_version (Version_Answer (Inr v)) = Some v"
| "answer_version (Put_Answer (Inr v)) = Some v"
| "answer_version (Publish_Answer (Inr v)) = Some v"
| "answer_version _ = None"

definition honest_answer :: "uuid set \<Rightarrow> (nat \<Rightarrow> uuid) \<Rightarrow> session \<Rightarrow> editor_event \<Rightarrow> bool" where
  "honest_answer foreign newId s ev \<longleftrightarrow>
     pred_option (stored_version (drawn foreign newId (sc_drawn (ss_screen s)))) (answer_version ev)"

abbreviation session_reach :: "uuid set \<Rightarrow> (nat \<Rightarrow> uuid) \<Rightarrow> session \<Rightarrow> session \<Rightarrow> bool" where
  "session_reach foreign newId \<equiv> reach (session_step newId) (honest_answer foreign newId)"

abbreviation run_session :: "(nat \<Rightarrow> uuid) \<Rightarrow> session \<Rightarrow> editor_event list \<Rightarrow> session option" where
  "run_session newId \<equiv> run (session_step newId)"

section \<open>Invariants of a session\<close>

lemma loaded_good:
  assumes "fresh_source foreign newId" "stored_version (drawn foreign newId n) v"
  shows "good_draft foreign newId n (draftFromDefinition v)"
proof -
  note sup = source_supply [OF assms(1)]
  have ids: "draft_ids (draftFromDefinition v) = pn_id ` set (g_nodes v)"
    by (simp add: draft_ids_def draftFromDefinition_def draft_of_node_def image_image)
  have g: "coherent_graph (graph_input.truncate v)" using assms(2) by (simp add: stored_version_def)
  have edges: "pe_from e \<in> pn_id ` set (g_nodes v)" "pe_to e \<in> pn_id ` set (g_nodes v)"
    if "e \<in> set (g_edges v)" for e
    using g that
    by (auto simp: coherent_graph_def storable_edge_def list_all_iff node_ids_def graph_input.truncate_def)
  have "closed_draft (draftFromDefinition v)"
    using g edges unfolding closed_draft_def ids
    by (auto simp: draftFromDefinition_def draft_of_edge_def coherent_graph_def node_ids_def
        graph_input.truncate_def or_else_def split: option.splits)
  moreover have "keyed_draft foreign newId n (draftFromDefinition v)"
    using g assms(2)
    by (auto simp: keyed_draft_def id_supply.keyed_def [OF sup] draftFromDefinition_def draft_of_node_def
        draft_of_edge_def coherent_graph_def graph_input.truncate_def stored_version_def comp_def image_image)
  ultimately show ?thesis by (simp add: good_draft_def)
qed

lemma empty_good: "fresh_source foreign newId \<Longrightarrow> good_draft foreign newId n EMPTY_DRAFT"
  by (simp add: good_draft_def closed_draft_def keyed_draft_def EMPTY_DRAFT_def
      id_supply.keyed_Nil [OF source_supply])

text \<open>Errors on screen describe the draft on screen.\<close>
definition errors_current :: "editor \<Rightarrow> bool" where
  "errors_current e \<longleftrightarrow> sc_errors e = [] \<or> serializePlaybookDraft (sc_draft e) = Inl (sc_errors e)"

text \<open>What may be asked from a screen opened for playbook \<open>p\<close> and version \<open>v\<close>.\<close>
definition legal_request :: "uuid option \<Rightarrow> uuid option \<Rightarrow> editor_request \<Rightarrow> bool" where
  "legal_request p v q \<longleftrightarrow>
     (case q of
        Put_Graph v' g \<Rightarrow> v = Some v' \<and> coherent_graph g \<and> wf_graph g
      | Create_Playbook body \<Rightarrow>
          v = None \<and> cp_name body \<noteq> [] \<and> cp_alert_type body \<noteq> []
          \<and> (case cp_definition body of None \<Rightarrow> False | Some g \<Rightarrow> coherent_graph g \<and> wf_graph g)
      | Publish_Version v' \<Rightarrow> v = Some v'
      | Create_Version p' v' \<Rightarrow> p = Some p' \<and> v = Some v')"

definition editor_inv :: "uuid set \<Rightarrow> (nat \<Rightarrow> uuid) \<Rightarrow> editor \<Rightarrow> bool" where
  "editor_inv foreign newId e \<longleftrightarrow>
     good_draft foreign newId (sc_drawn e) (sc_draft e) \<and> errors_current e
     \<and> (sc_saving e \<longrightarrow> sc_errors e = [] \<and> \<not> sc_publishing e)"

text \<open>The form has been seeded from the version it shows.\<close>
definition seeded :: "editor \<Rightarrow> bool" where
  "seeded e \<longleftrightarrow> (\<forall>v. rc_data (sc_version e) = Some v \<longrightarrow> sc_seeded e = Some (v_id v))"

lemma missing_none: "missing_metadata e = no_metadata_errors \<Longrightarrow> sc_versionId e = None \<Longrightarrow>
    trim (sc_name e) \<noteq> [] \<and> trim (sc_alertType e) \<noteq> []"
  by (auto simp: missing_metadata_def no_metadata_errors_def split: if_splits)

text \<open>What \<open>save\<close> does, case by case.\<close>
lemma save_cases:
  assumes "save e = (e', q)"
  obtains "locked e" "e' = e" "q = None"
  | errs where "\<not> locked e" "serializePlaybookDraft (sc_draft e) = Inl errs" "q = None"
      "e' = e\<lparr>sc_metadataErrors := missing_metadata e, sc_errors := errs\<rparr>"
  | g where "\<not> locked e" "serializePlaybookDraft (sc_draft e) = Inr g" "q = None"
      "missing_metadata e \<noteq> no_metadata_errors"
      "e' = e\<lparr>sc_metadataErrors := missing_metadata e, sc_errors := []\<rparr>"
  | g where "\<not> locked e" "serializePlaybookDraft (sc_draft e) = Inr g"
      "missing_metadata e = no_metadata_errors"
      "e' = e\<lparr>sc_metadataErrors := missing_metadata e, sc_errors := [], sc_saving := True,
              sc_saveError := None, sc_publishError := None\<rparr>"
      "q = Some (case sc_versionId e of Some v \<Rightarrow> Put_Graph v g
            | None \<Rightarrow> Create_Playbook \<lparr>cp_name = trim (sc_name e), cp_description = trim (sc_description e),
                cp_alert_type = trim (sc_alertType e), cp_definition = Some g\<rparr>)"
proof (cases "locked e")
  case True
  show ?thesis
    by (rule that(1)) (use True assms in \<open>simp_all add: save_def\<close>)
next
  case False
  show ?thesis
  proof (cases "serializePlaybookDraft (sc_draft e)")
    case (Inl errs)
    show ?thesis
      by (rule that(2)) (use False Inl assms in \<open>auto simp add: save_def Let_def\<close>)
  next
    case (Inr g)
    show ?thesis
    proof (cases "missing_metadata e = no_metadata_errors")
      case True
      show ?thesis
        by (rule that(4)) (use False Inr True assms in \<open>auto simp add: save_def Let_def\<close>)
    next
      case missing: False
      show ?thesis
        by (rule that(3)) (use False Inr missing assms in \<open>auto simp add: save_def Let_def\<close>)
    qed
  qed
qed

lemma save_legal: "save e = (e', Some q) \<Longrightarrow>
    legal_request (sc_playbookId e) (sc_versionId e) q \<and> \<not> locked e \<and> sc_saving e'"
  by (erule save_cases)
    (auto simp: legal_request_def serialize_ok graph_of_wf split: option.split dest: missing_none)

lemma save_inv:
  assumes "editor_inv foreign newId e" "save e = (e', q)"
  shows "editor_inv foreign newId e'"
  using assms(2)
proof (cases rule: save_cases)
  case 1
  with assms(1) show ?thesis by simp
qed (use assms(1) in \<open>auto simp: editor_inv_def errors_current_def locked_def\<close>)

lemma seed_effect_inv:
  assumes "fresh_source foreign newId" "editor_inv foreign newId e"
    "seeded e \<or> pred_option (stored_version (drawn foreign newId (sc_drawn e))) (rc_data (sc_version e))"
  shows "editor_inv foreign newId (seed_effect e) \<and> seeded (seed_effect e)"
proof (cases "rc_data (sc_version e)")
  case None
  with assms show ?thesis by (simp add: seed_effect_def seeded_def)
next
  case (Some v)
  show ?thesis
  proof (cases "sc_seeded e = Some (v_id v)")
    case True
    with Some assms(2) show ?thesis by (simp add: seed_effect_def seeded_def)
  next
    case False
    with assms(3) Some have "stored_version (drawn foreign newId (sc_drawn e)) v"
      by (simp add: seeded_def)
    from loaded_good [OF assms(1) this] False Some assms(2) show ?thesis
      by (simp add: seed_effect_def seeded_def editor_inv_def errors_current_def)
  qed
qed

lemma publish_cases:
  assumes "publish e = (e', q)"
  shows "(q = None \<and> e' = e) \<or> (\<exists>v. sc_versionId e = Some v \<and> \<not> locked e \<and> q = Some (Publish_Version v)
     \<and> e' = e\<lparr>sc_publishing := True, sc_publishError := None, sc_saveError := None\<rparr>)"
  using assms by (auto simp: publish_def split: option.splits if_splits)

lemma clone_cases:
  assumes "startNewVersion e = (e', q)"
  shows "(q = None \<and> e' = e) \<or> (\<exists>p v. sc_playbookId e = Some p \<and> sc_versionId e = Some v \<and> \<not> sc_cloning e
     \<and> q = Some (Create_Version p v) \<and> e' = e\<lparr>sc_cloning := True, sc_cloneError := None\<rparr>)"
  using assms by (auto simp: startNewVersion_def split: option.splits if_splits)

text \<open>What each step does to the screen and the log.\<close>
lemma editor_step_log:
  assumes "editor_step newId e ev s = Some s'"
  shows "ss_log s' = ss_log s
    \<or> (\<exists>q. ss_log s' = ss_log s @ [q] \<and>
         ((ev = Press_Save \<and> can_save e \<and> save e = (ss_screen s', Some q))
          \<or> (ev = Press_Publish \<and> can_publish e \<and> publish e = (ss_screen s', Some q))
          \<or> (ev = Press_Clone \<and> can_clone e \<and> startNewVersion e = (ss_screen s', Some q))))"
proof -
  have send: "ss_log (send er s) = ss_log s \<or> (\<exists>q. ss_log (send er s) = ss_log s @ [q] \<and> er = (ss_screen (send er s), Some q))" for er
    by (cases er; cases "snd er") (auto simp: send_def)
  show ?thesis
  proof (cases ev)
    case Press_Save
    with assms send [of "save e"] show ?thesis by (auto split: if_splits)
  next
    case Press_Publish
    with assms send [of "publish e"] show ?thesis by (auto split: if_splits)
  next
    case Press_Clone
    with assms send [of "startNewVersion e"] show ?thesis by (auto split: if_splits)
  qed (use assms in \<open>auto simp: show_editor_def land_def split: if_splits option.splits prod.splits\<close>)
qed


lemma editor_inv_frame:
  assumes "editor_inv foreign newId e" "sc_draft e' = sc_draft e" "sc_drawn e' = sc_drawn e"
    "sc_errors e' = sc_errors e" "sc_saving e' \<longrightarrow> sc_saving e" "sc_publishing e' \<longrightarrow> sc_publishing e"
  shows "editor_inv foreign newId e'"
  using assms by (auto simp: editor_inv_def errors_current_def)

lemma seeded_frame:
  "seeded e \<Longrightarrow> rc_data (sc_version e') = rc_data (sc_version e) \<Longrightarrow> sc_seeded e' = sc_seeded e \<Longrightarrow> seeded e'"
  by (simp add: seeded_def)

lemma version_answer_inv:
  assumes src: "fresh_source foreign newId" and inv: "editor_inv foreign newId e" "seeded e"
    and ans: "pred_option (stored_version (drawn foreign newId (sc_drawn e))) (case res of Inr v \<Rightarrow> Some v | Inl _ \<Rightarrow> None)"
    and data: "rc_data (sc_version e') = (case res of Inr v \<Rightarrow> Some v | Inl _ \<Rightarrow> rc_data (sc_version e))"
    and frame: "editor_inv foreign newId e'" "sc_seeded e' = sc_seeded e" "sc_drawn e' = sc_drawn e"
  shows "editor_inv foreign newId (seed_effect e') \<and> seeded (seed_effect e')"
proof (rule seed_effect_inv [OF src frame(1)])
  show "seeded e' \<or> pred_option (stored_version (drawn foreign newId (sc_drawn e'))) (rc_data (sc_version e'))"
    using inv(2) ans data frame(2,3) by (cases res) (auto simp: seeded_def)
qed

lemma put_done_inv:
  assumes "fresh_source foreign newId" "editor_inv foreign newId e" "sc_saving e"
    "pred_option (stored_version (drawn foreign newId (sc_drawn e))) (case res of Inr v \<Rightarrow> Some v | Inl _ \<Rightarrow> None)"
  shows "editor_inv foreign newId (put_done res e)"
proof (cases res)
  case (Inl err)
  with assms(2) show ?thesis by (simp add: put_done_def editor_inv_def errors_current_def)
next
  case (Inr v)
  with assms(4) have "stored_version (drawn foreign newId (sc_drawn e)) v" by simp
  from loaded_good [OF assms(1) this] Inr assms(2,3) show ?thesis
    by (simp add: put_done_def editor_inv_def errors_current_def)
qed

lemma edit_inv:
  assumes "fresh_source foreign newId" "editor_inv foreign newId e" "offered (sc_draft e) ed" "\<not> locked e"
    "edit_draft newId ed (sc_draft e) (sc_drawn e) = (d, n)"
  shows "editor_inv foreign newId (mutate d (e\<lparr>sc_drawn := n\<rparr>))"
  using edit_draft_good [OF assms(1) _ assms(3,5)] assms(2,4)
  by (simp add: editor_inv_def mutate_def errors_current_def locked_def)

lemma step_inv:
  assumes src: "fresh_source foreign newId" and inv: "editor_inv foreign newId e" "seeded e"
    and ans: "pred_option (stored_version (drawn foreign newId (sc_drawn e))) (answer_version ev)"
    and step: "editor_step newId e ev s = Some s'" and e: "e = ss_screen s"
  shows "editor_inv foreign newId (ss_screen s') \<and> seeded (ss_screen s')"
proof (cases ev)
  case (Version_Answer res)
  with step obtain r where r: "answer_load res (sc_version e) = Some r"
    "ss_screen s' = seed_effect (e\<lparr>sc_version := r\<rparr>)"
    by (auto simp: show_editor_def split: option.splits)
  have "editor_inv foreign newId (e\<lparr>sc_version := r\<rparr>)"
    by (rule editor_inv_frame [OF inv(1)]) simp_all
  moreover have "pred_option (stored_version (drawn foreign newId (sc_drawn e))) (case res of Inr v \<Rightarrow> Some v | Inl _ \<Rightarrow> None)"
    using ans Version_Answer by (cases res) simp_all
  ultimately show ?thesis
    unfolding r(2) by (intro version_answer_inv [OF src inv]) (simp_all add: answer_load_data [OF r(1)])
next
  case (Playbook_Answer res)
  with step obtain r where "ss_screen s' = e\<lparr>sc_playbook := r\<rparr>"
    by (auto simp: show_editor_def split: option.splits)
  then show ?thesis
    using editor_inv_frame [OF inv(1)] seeded_frame [OF inv(2)] by simp
next
  case Retry_Version
  with step have "ss_screen s' = e\<lparr>sc_version := retry_load (sc_version e)\<rparr>"
    by (auto simp: show_editor_def split: if_splits)
  then show ?thesis
    using editor_inv_frame [OF inv(1)] seeded_frame [OF inv(2)] by simp
next
  case Retry_Playbook
  with step have "ss_screen s' = e\<lparr>sc_playbook := retry_load (sc_playbook e)\<rparr>"
    by (auto simp: show_editor_def split: if_splits)
  then show ?thesis
    using editor_inv_frame [OF inv(1)] seeded_frame [OF inv(2)] by simp
next
  case (Type_Name t)
  with step have "ss_screen s' = clearNameError (e\<lparr>sc_name := t\<rparr>)"
    by (auto simp: show_editor_def split: if_splits)
  then show ?thesis
    using editor_inv_frame [OF inv(1)] seeded_frame [OF inv(2)] by (simp add: clearNameError_def)
next
  case (Type_Description t)
  with step have "ss_screen s' = e\<lparr>sc_description := t\<rparr>"
    by (auto simp: show_editor_def split: if_splits)
  then show ?thesis
    using editor_inv_frame [OF inv(1)] seeded_frame [OF inv(2)] by simp
next
  case (Type_Alert_Type t)
  with step have "ss_screen s' = clearAlertTypeError (e\<lparr>sc_alertType := t\<rparr>)"
    by (auto simp: show_editor_def split: if_splits)
  then show ?thesis
    using editor_inv_frame [OF inv(1)] seeded_frame [OF inv(2)] by (simp add: clearAlertTypeError_def)
next
  case (Edit ed)
  with step obtain d n where d: "edit_draft newId ed (sc_draft e) (sc_drawn e) = (d, n)" "can_edit e"
    "offered (sc_draft e) ed" "ss_screen s' = mutate d (e\<lparr>sc_drawn := n\<rparr>)"
    by (auto simp: show_editor_def split: if_splits prod.splits)
  have "seeded (ss_screen s')"
    unfolding d(4) by (rule seeded_frame [OF inv(2)]) (simp_all add: mutate_def)
  with edit_inv [OF src inv(1) d(3) _ d(1)] d(2,4) show ?thesis by (simp add: can_edit_def)
next
  case Press_Save
  obtain e' q where s: "save e = (e', q)" by (metis surj_pair)
  with step Press_Save have e': "ss_screen s' = e'" by (auto simp: send_def split: if_splits)
  have "rc_data (sc_version e') = rc_data (sc_version e) \<and> sc_seeded e' = sc_seeded e"
    using s by (rule save_cases) simp_all
  with save_inv [OF inv(1) s] seeded_frame [OF inv(2)] show ?thesis by (simp add: e')
next
  case (Put_Answer res)
  with step have s': "ss_screen s' = seed_effect (put_done res e)" "sc_saving e"
    by (auto simp: show_editor_def split: if_splits)
  have ans': "pred_option (stored_version (drawn foreign newId (sc_drawn e))) (case res of Inr v \<Rightarrow> Some v | Inl _ \<Rightarrow> None)"
    using ans Put_Answer by (cases res) simp_all
  show ?thesis
    unfolding s'(1)
    by (rule version_answer_inv [OF src inv ans' _ put_done_inv [OF src inv(1) s'(2) ans']])
      (auto simp: put_done_def set_resource_def split: sum.split)
next
  case (Create_Answer res)
  with step have s': "ss_screen s' = fst (create_done res e)"
    by (auto simp: land_def split: if_splits)
  have "sc_draft (fst (create_done res e)) = sc_draft e" "sc_drawn (fst (create_done res e)) = sc_drawn e"
    "sc_errors (fst (create_done res e)) = sc_errors e" "\<not> sc_saving (fst (create_done res e))"
    "sc_publishing (fst (create_done res e)) = sc_publishing e"
    "sc_version (fst (create_done res e)) = sc_version e" "sc_seeded (fst (create_done res e)) = sc_seeded e"
    by (auto simp: create_done_def split: sum.splits list.splits)
  then show ?thesis
    unfolding s' using editor_inv_frame [OF inv(1)] seeded_frame [OF inv(2)] by auto
next
  case Press_Publish
  obtain e' q where s: "publish e = (e', q)" by (metis surj_pair)
  with step Press_Publish have e': "ss_screen s' = e'" by (auto simp: send_def split: if_splits)
  from publish_cases [OF s] show ?thesis
    unfolding e' using inv by (auto simp: editor_inv_def errors_current_def seeded_def locked_def)
next
  case (Publish_Answer res)
  with step have s': "ss_screen s' = seed_effect (publish_done res e)"
    by (auto simp: show_editor_def split: if_splits)
  have "editor_inv foreign newId (publish_done res e)"
    by (rule editor_inv_frame [OF inv(1)]) (auto simp: publish_done_def split: sum.split)
  moreover have "pred_option (stored_version (drawn foreign newId (sc_drawn e))) (case res of Inr v \<Rightarrow> Some v | Inl _ \<Rightarrow> None)"
    using ans Publish_Answer by (cases res) simp_all
  ultimately show ?thesis
    unfolding s' by (intro version_answer_inv [OF src inv])
      (auto simp: publish_done_def set_resource_def split: sum.split)
next
  case Press_Clone
  obtain e' q where s: "startNewVersion e = (e', q)" by (metis surj_pair)
  with step Press_Clone have e': "ss_screen s' = e'" by (auto simp: send_def split: if_splits)
  from clone_cases [OF s] show ?thesis
    unfolding e' using inv by (auto simp: editor_inv_def errors_current_def seeded_def)
next
  case (Clone_Answer res)
  with step have s': "ss_screen s' = fst (clone_done res e)"
    by (auto simp: land_def split: if_splits)
  then show ?thesis
    using inv by (cases res) (auto simp: clone_done_def editor_inv_def errors_current_def seeded_def)
qed

lemma initial_inv: "fresh_source foreign newId \<Longrightarrow>
    editor_inv foreign newId (ss_screen (initial_session p v)) \<and> seeded (ss_screen (initial_session p v))"
  using empty_good [of foreign newId 0]
  by (simp add: initial_session_def editor_inv_def errors_current_def seeded_def run_effect_def initial_resource_def)

interpretation session_draft: machine_invariant "session_step newId" "honest_answer foreign newId"
    "\<lambda>s. fresh_source foreign newId \<and> editor_inv foreign newId (ss_screen s) \<and> seeded (ss_screen s)" for foreign newId
proof
  fix s ev s'
  assume "fresh_source foreign newId \<and> editor_inv foreign newId (ss_screen s) \<and> seeded (ss_screen s)"
    "session_step newId s ev = Some s'" "honest_answer foreign newId s ev"
  then show "fresh_source foreign newId \<and> editor_inv foreign newId (ss_screen s') \<and> seeded (ss_screen s')"
    using step_inv [of foreign newId "ss_screen s" ev s s'] by (auto simp: session_step_def honest_answer_def split: if_splits)
qed

lemma session_inv:
  assumes "session_reach foreign newId (initial_session p v) s" "fresh_source foreign newId"
  shows "editor_inv foreign newId (ss_screen s) \<and> seeded (ss_screen s)"
  using session_draft.holds [OF assms(1)] initial_inv [OF assms(2)] assms(2) by blast

text \<open>The props of the screen never change.\<close>
lemma step_props:
  "editor_step newId e ev s = Some s' \<Longrightarrow> e = ss_screen s \<Longrightarrow>
     sc_versionId (ss_screen s') = sc_versionId e \<and> sc_playbookId (ss_screen s') = sc_playbookId e"
proof (cases ev)
  case Press_Save
  assume step: "editor_step newId e ev s = Some s'"
  obtain e' q where saved: "save e = (e', q)" by (metis surj_pair)
  with step Press_Save have "ss_screen s' = e'" by (auto simp: send_def split: if_splits)
  with saved show ?thesis by (auto elim: save_cases)
next
  case (Edit ed)
  moreover assume "editor_step newId e ev s = Some s'"
  ultimately show ?thesis by (auto simp: show_editor_def mutate_def split: if_splits prod.splits)
qed (auto simp: show_editor_def land_def send_def seed_effect_def put_done_def create_done_def publish_def
      publish_done_def startNewVersion_def clone_done_def clearNameError_def clearAlertTypeError_def
      split: if_splits option.splits sum.splits list.splits)

lemma request_legal:
  assumes "session_step newId s ev = Some s'" "e = ss_screen s" "ss_log s' = ss_log s @ [q]"
  shows "legal_request (sc_playbookId e) (sc_versionId e) q"
proof -
  from assms have "editor_step newId e ev s = Some s'" by (auto simp: session_step_def split: if_splits)
  from editor_step_log [OF this] assms(3) consider "save e = (ss_screen s', Some q)"
    | "publish e = (ss_screen s', Some q)" | "startNewVersion e = (ss_screen s', Some q)"
    by auto
  then show ?thesis
  proof cases
    case 1
    then show ?thesis by (simp add: save_legal)
  next
    case 2
    from publish_cases [OF this] show ?thesis by (auto simp: legal_request_def)
  next
    case 3
    from clone_cases [OF this] show ?thesis by (auto simp: legal_request_def)
  qed
qed

lemma run_session_reach:
  assumes "session_reach foreign newId s0 s" "run_session newId s evs = Some s'"
    "list_all (\<lambda>ev. answer_version ev = None) evs"
  shows "session_reach foreign newId s0 s'"
  using assms(3) by (intro run_reach [OF assms(1,2)]) (simp add: list_all_iff honest_answer_def)

lemmas session_run_defs = initial_session_def session_step_def show_editor_def send_def can_edit_def
  can_save_def screen_of_def locked_def frozen_def mutate_def addNode_def updateNode_def patch_node_def
  newNodeDraft_def seed_effect_def answer_load_def settle_def run_effect_def initial_resource_def
  EMPTY_DRAFT_def

section \<open>Properties\<close>

text \<open>A problem the designer can put right on the row it is shown on: a text, or an endpoint that
  was never picked.\<close>
definition correctable :: "playbook_draft \<Rightarrow> draft_scope \<times> int \<times> draft_error_field \<Rightarrow> bool" where
  "correctable d p \<longleftrightarrow>
     (case p of (scope, i, field) \<Rightarrow>
        if scope = ScopeNode then field \<in> {FTitle, FTerminalResolution, FMetadata}
        else if scope = ScopeRoot then False
        else field = FLabel \<or> (field = FFromNodeId \<and> ed_from (pd_edges d ! nat i) = [])
             \<or> (field = FToNodeId \<and> ed_to (pd_edges d ! nat i) = []))"

lemma keyed_prefix:
  assumes "distinct (map key xs)" "i < length xs"
  shows "key (xs ! i) \<notin> key ` set (take i xs)"
  using assms by (simp add: distinct_map_prefix)

lemma node_problem_correctable:
  assumes "node_problem ns i f" "nd_id (ns ! i) \<notin> nd_id ` set (take i ns)"
  shows "f \<in> {FTitle, FTerminalResolution, FMetadata}"
  using assms by (cases f) auto

lemma edge_problem_correctable:
  assumes "edge_problem ids es i f" "ed_id (es ! i) \<notin> ed_id ` set (take i es)"
    "ed_from (es ! i) = [] \<or> ed_from (es ! i) \<in> ids" "ed_to (es ! i) = [] \<or> ed_to (es ! i) \<in> ids"
  shows "f = FLabel \<or> (f = FFromNodeId \<and> ed_from (es ! i) = []) \<or> (f = FToNodeId \<and> ed_to (es ! i) = [])"
  using assms by (cases f) auto

lemma good_correctable:
  assumes "fresh_source foreign newId" "good_draft foreign newId n d" "p \<in> draft_problems d"
  shows "correctable d p"
proof -
  note sup = source_supply [OF assms(1)]
  from assms(2) have keyed: "id_supply.keyed (drawn foreign newId) nd_id n (pd_nodes d)"
    "id_supply.keyed (drawn foreign newId) ed_id n (pd_edges d)" and closed: "closed_draft d"
    by (simp_all add: good_draft_def keyed_draft_def)
  note nodes = keyed_prefix [OF id_supply.keyed_distinct [OF sup keyed(1)]]
  note edges = keyed_prefix [OF id_supply.keyed_distinct [OF sup keyed(2)]]
  consider (node) i f where "p = (ScopeNode, int i, f)" "i < length (pd_nodes d)" "node_problem (pd_nodes d) i f"
    | (edge) i f where "p = (ScopeEdge, int i, f)" "i < length (pd_edges d)"
        "edge_problem (draft_ids d) (pd_edges d) i f"
    using assms(3) closed by (auto simp: draft_problems_def closed_draft_def split: if_splits)
  then show ?thesis
  proof cases
    case node
    from node_problem_correctable [OF node(3) nodes [OF node(2)]] node(1) show ?thesis
      by (simp add: correctable_def)
  next
    case edge
    have "pd_edges d ! i \<in> set (pd_edges d)" using edge(2) by simp
    with edge_problem_correctable [OF edge(3) edges [OF edge(2)]] closed edge(1) show ?thesis
      by (auto simp: correctable_def closed_draft_def)
  qed
qed

text \<open>C9. Whatever the designer does, the only problems a draft can have are texts to fill in and
  endpoints not yet picked: ids never collide, the root and every picked endpoint always name a
  node of the draft, and nothing else can make a save be refused.\<close>
theorem session_problems_correctable:
  assumes "session_reach foreign newId (initial_session p v) s" "fresh_source foreign newId"
    "q \<in> draft_problems (sc_draft (ss_screen s))"
  shows "correctable (sc_draft (ss_screen s)) q"
  using session_inv [OF assms(1,2)] good_correctable [OF assms(2) _ assms(3)]
  unfolding editor_inv_def by blast

theorem session_problems_correctable_witness:
  "\<exists>s. session_reach {} (\<lambda>n. js ''n'' @ nat_text n) (initial_session None None) s
     \<and> (ScopeNode, 0, FTitle) \<in> draft_problems (sc_draft (ss_screen s))
     \<and> correctable (sc_draft (ss_screen s)) (ScopeNode, 0, FTitle)"
proof -
  let ?newId = "\<lambda>n. js ''n'' @ nat_text n"
  have "\<exists>s. run_session ?newId (initial_session None None) [Edit (Add_Node Decision)] = Some s
      \<and> (ScopeNode, 0, FTitle) \<in> draft_problems (sc_draft (ss_screen s))"
    by (simp add: session_run_defs draft_problems_def Let_def trim_js)
  then obtain s where s: "run_session ?newId (initial_session None None) [Edit (Add_Node Decision)] = Some s"
    and problem: "(ScopeNode, 0, FTitle) \<in> draft_problems (sc_draft (ss_screen s))" by blast
  have reach: "session_reach {} ?newId (initial_session None None) s"
    by (rule run_session_reach [OF reach.start s]) simp
  have "fresh_source {} ?newId" by (simp add: fresh_source_def inj_def)
  from session_problems_correctable [OF reach this problem] reach problem show ?thesis by blast
qed

text \<open>The errors on screen always describe the draft on screen: either none is shown, or they
  are what serializing this very draft gives, so no message points at a row it is not about.\<close>
theorem errors_describe_draft:
  assumes "session_reach foreign newId (initial_session p v) s" "fresh_source foreign newId"
  shows "sc_errors (ss_screen s) = []
    \<or> serializePlaybookDraft (sc_draft (ss_screen s)) = Inl (sc_errors (ss_screen s))"
  using session_inv [OF assms] by (simp add: editor_inv_def errors_current_def)

theorem errors_describe_draft_witness:
  "\<exists>s. session_reach {} (\<lambda>n. replicate n 65) (initial_session None None) s \<and> sc_errors (ss_screen s) \<noteq> []
     \<and> serializePlaybookDraft (sc_draft (ss_screen s)) = Inl (sc_errors (ss_screen s))"
proof -
  have "\<exists>s. run_session (\<lambda>n. replicate n 65) (initial_session None None) [Edit (Add_Node Decision), Press_Save] = Some s
      \<and> sc_errors (ss_screen s) \<noteq> []"
    by (simp add: session_run_defs Let_def save_def serializePlaybookDraft_def node_errors_def trim_js
        parseMetadata_def root_errors_def)
  then obtain s where s: "run_session (\<lambda>n. replicate n 65) (initial_session None None) [Edit (Add_Node Decision), Press_Save] = Some s"
    and errs: "sc_errors (ss_screen s) \<noteq> []" by blast
  have reach: "session_reach {} (\<lambda>n. replicate n 65) (initial_session None None) s"
    by (rule run_session_reach [OF reach.start s]) simp
  have "fresh_source {} (\<lambda>n. replicate n 65)"
    by (auto simp: fresh_source_def inj_def dest: arg_cong [where f = length])
  from errors_describe_draft [OF reach this] reach errs show ?thesis by blast
qed

text \<open>C16. What guards a write. Every request is sent by a screen that shows the form, never while a clone is
  under way. A graph, a creation and a publication are sent one at a time, with no save and no publication
  in flight, and never for a version known to be published: a graph only while unsaved edits may
  exist, a publication only of what is saved. A new version is sent only from a frozen one; it is the
  one request that does not wait for a save (\<open>clone_beside_save\<close>). On the page of a mismatched version
  nothing is ever sent.\<close>
theorem writes_are_guarded:
  assumes "session_step newId s ev = Some s'" "ss_log s' \<noteq> ss_log s" "e = ss_screen s"
  shows "\<exists>q. ss_log s' = ss_log s @ [q] \<and> screen_of e = Form_Screen \<and> \<not> sc_cloning e
    \<and> (case q of
         Put_Graph _ _ \<Rightarrow> \<not> frozen e \<and> \<not> sc_saving e \<and> \<not> sc_publishing e \<and> sc_dirty e
       | Create_Playbook _ \<Rightarrow> \<not> frozen e \<and> \<not> sc_saving e \<and> \<not> sc_publishing e
       | Publish_Version _ \<Rightarrow> \<not> frozen e \<and> \<not> sc_saving e \<and> \<not> sc_publishing e \<and> \<not> sc_dirty e
       | Create_Version _ _ \<Rightarrow> frozen e)"
proof -
  from assms have "editor_step newId e ev s = Some s'" by (auto simp: session_step_def split: if_splits)
  from editor_step_log [OF this] assms(2) obtain q where log: "ss_log s' = ss_log s @ [q]"
    and by_press: "(can_save e \<and> save e = (ss_screen s', Some q))
      \<or> (can_publish e \<and> publish e = (ss_screen s', Some q))
      \<or> (can_clone e \<and> startNewVersion e = (ss_screen s', Some q))"
    by blast
  from by_press consider (saved) "can_save e" "save e = (ss_screen s', Some q)"
    | (published) "can_publish e" "publish e = (ss_screen s', Some q)"
    | (cloned) "can_clone e" "startNewVersion e = (ss_screen s', Some q)" by blast
  then show ?thesis
  proof cases
    case saved
    from saved(2) show ?thesis
      by (rule save_cases) (use saved(1) log in \<open>auto simp: can_save_def locked_def split: option.split\<close>)
  next
    case published
    from publish_cases [OF published(2)] published(1) log show ?thesis
      by (auto simp: can_publish_def locked_def)
  next
    case cloned
    from clone_cases [OF cloned(2)] cloned(1) log show ?thesis
      by (auto simp: can_clone_def)
  qed
qed

theorem writes_are_guarded_witness:
  "\<exists>s s'. session_step (\<lambda>n. replicate n 65) s Press_Clone = Some s'
     \<and> ss_log s' = ss_log s @ [Create_Version (js ''p'') (js ''v'')] \<and> frozen (ss_screen s)"
proof -
  let ?v = "\<lparr>g_root = None, g_nodes = [], g_edges = [], v_id = js ''v'', v_playbook_id = js ''p'', v_version = 1,
      v_status = Published, v_created_at = [], v_published_at = None\<rparr>"
  let ?run = "run_session (\<lambda>n. replicate n 65) (initial_session (Some (js ''p'')) (Some (js ''v''))) [Version_Answer (Inr ?v)]"
  have "?run \<noteq> None" by (simp add: session_run_defs)
  then obtain s where s: "?run = Some s" by blast
  then have "session_step (\<lambda>n. replicate n 65) s Press_Clone \<noteq> None"
    by (auto simp: session_run_defs can_clone_def draftFromDefinition_def)
  then obtain s' where s': "session_step (\<lambda>n. replicate n 65) s Press_Clone = Some s'" by blast
  then have log: "ss_log s' = ss_log s @ [Create_Version (js ''p'') (js ''v'')]"
    using s by (auto simp: session_run_defs can_clone_def startNewVersion_def draftFromDefinition_def)
  from writes_are_guarded [OF s' _ refl] log have "frozen (ss_screen s)" by simp
  with s' log show ?thesis by blast
qed

lemma session_ids:
  assumes "session_reach foreign newId (initial_session p v) s"
  shows "sc_playbookId (ss_screen s) = p \<and> sc_versionId (ss_screen s) = v"
  using assms
proof (induction rule: reach.induct)
  case start
  show ?case by (simp add: initial_session_def)
next
  case (more s ev s')
  then have "editor_step newId (ss_screen s) ev s = Some s'"
    by (auto simp: session_step_def split: if_splits)
  from step_props [OF this refl] more.IH show ?case by simp
qed

lemma log_legal:
  assumes "session_reach foreign newId (initial_session p v) s"
  shows "list_all (legal_request p v) (ss_log s)"
proof -
  have "list_all (legal_request p v) (ss_log s)
      \<and> sc_playbookId (ss_screen s) = p \<and> sc_versionId (ss_screen s) = v"
    using assms
  proof (induction rule: reach.induct)
    case start
    show ?case by (simp add: initial_session_def)
  next
    case (more s ev s')
    then have step: "editor_step newId (ss_screen s) ev s = Some s'"
      by (auto simp: session_step_def split: if_splits)
    from editor_step_log [OF this] consider "ss_log s' = ss_log s" | q where "ss_log s' = ss_log s @ [q]"
      by blast
    then have "list_all (legal_request p v) (ss_log s')"
      using request_legal [OF more.hyps(2) refl] more.IH by cases simp_all
    with step_props [OF step refl] more.IH show ?case by simp
  qed
  then show ?thesis ..
qed

text \<open>Every request of a session is about the playbook and the version of its address, and is
  one the contract accepts: graphs satisfy the write-time rules, names and alert types are not
  blank.\<close>
theorem requests_match_address:
  assumes "session_reach foreign newId (initial_session p v) s"
  shows "list_all (legal_request p v) (ss_log s)"
  using assms by (rule log_legal)

text \<open>A version whose load failed.\<close>
lemma unseen_run:
  "\<exists>s. run_session newId (initial_session (Some p) (Some v))
         [Version_Answer (Inl err), Edit (Add_Node Decision),
          Edit (Update_Node 0 \<lparr>ns_kind = None, ns_title = Some (js ''A''), ns_description = None,
            ns_terminal_resolution = None, ns_metadata = None\<rparr>), Press_Save] = Some s
     \<and> rc_data (sc_version (ss_screen s)) = None
     \<and> (\<exists>g. ss_log s = [Put_Graph v g] \<and> length (g_nodes g) = 1 \<and> g_edges g = [])"
proof -
  let ?node = "\<lparr>nd_id = newId 0, nd_kind = Decision, nd_title = js ''A'', nd_description = [],
      nd_terminal_resolution = [], nd_metadata = []\<rparr>"
  let ?d = "\<lparr>pd_root = newId 0, pd_nodes = [?node], pd_edges = []\<rparr>"
  have "serializePlaybookDraft ?d = Inr (graph_of ?d)"
    by (simp add: serialize_ok graph_of_def serialize_node_def coherent_graph_def storable_node_def
        readable_metadata_def node_ids_def null_if_blank_def trim_js strip_def blank_char_def)
  then show ?thesis
    by (simp add: session_run_defs Let_def save_def missing_metadata_def no_metadata_errors_def update_at_def)
qed

lemma unseen_reach:
  "\<exists>s. session_reach foreign newId (initial_session (Some p) (Some v)) s
     \<and> rc_data (sc_version (ss_screen s)) = None
     \<and> (\<exists>g. ss_log s = [Put_Graph v g] \<and> length (g_nodes g) = 1 \<and> g_edges g = [])"
proof -
  obtain s where s: "run_session newId (initial_session (Some p) (Some v))
         [Version_Answer (Inl (Other_Failure [])), Edit (Add_Node Decision),
          Edit (Update_Node 0 \<lparr>ns_kind = None, ns_title = Some (js ''A''), ns_description = None,
            ns_terminal_resolution = None, ns_metadata = None\<rparr>), Press_Save] = Some s"
    and shown: "rc_data (sc_version (ss_screen s)) = None"
      "\<exists>g. ss_log s = [Put_Graph v g] \<and> length (g_nodes g) = 1 \<and> g_edges g = []"
    using unseen_run by blast
  from run_session_reach [OF reach.start s] shown show ?thesis by auto
qed

theorem requests_match_address_witness:
  "\<exists>s g. session_reach {} (\<lambda>n. replicate n 65) (initial_session (Some (js ''p'')) (Some (js ''v''))) s
     \<and> ss_log s = [Put_Graph (js ''v'') g] \<and> coherent_graph g"
proof -
  obtain s g where s: "session_reach {} (\<lambda>n. replicate n 65) (initial_session (Some (js ''p'')) (Some (js ''v''))) s"
    "ss_log s = [Put_Graph (js ''v'') g]"
    using unseen_reach by blast
  from requests_match_address [OF s(1)] s show ?thesis by (auto simp: legal_request_def)
qed

text \<open>A load that failed, a save, a retry that finds the version published by then: a new version is asked
  for while the save is in flight.\<close>
lemma clone_beside_save:
  "\<exists>s s'. session_reach foreign newId (initial_session (Some (js ''p'')) (Some (js ''v''))) s \<and> sc_saving (ss_screen s)
     \<and> session_step newId s Press_Clone = Some s' \<and> ss_log s' = ss_log s @ [Create_Version (js ''p'') (js ''v'')]"
proof -
  let ?start = "initial_session (Some (js ''p'')) (Some (js ''v''))"
  let ?v = "\<lparr>g_root = None, g_nodes = [], g_edges = [], v_id = js ''v'', v_playbook_id = js ''p'', v_version = 1,
      v_status = Published, v_created_at = [], v_published_at = None\<rparr>"
  let ?evs = "[Version_Answer (Inl (Other_Failure [])), Edit (Add_Node Decision), Edit (Remove_Node 0), Press_Save,
      Retry_Version, Version_Answer (Inr ?v)]"
  have empty: "serializePlaybookDraft EMPTY_DRAFT = Inr (graph_of EMPTY_DRAFT)"
    by (simp add: serialize_ok graph_of_def coherent_graph_def EMPTY_DRAFT_def null_if_blank_def)
  then have "\<exists>s. run_session newId ?start ?evs = Some s \<and> sc_saving (ss_screen s) \<and> ss_opened s = None
      \<and> can_clone (ss_screen s) \<and> sc_playbookId (ss_screen s) = Some (js ''p'') \<and> sc_versionId (ss_screen s) = Some (js ''v'')
      \<and> \<not> sc_cloning (ss_screen s)"
    by (simp add: session_run_defs Let_def save_def missing_metadata_def no_metadata_errors_def removeNode_def
        remove_at_def can_clone_def retry_load_def reload_resource_def)
  then obtain s where s: "run_session newId ?start ?evs = Some s" "sc_saving (ss_screen s)" "ss_opened s = None"
    "can_clone (ss_screen s)" "sc_playbookId (ss_screen s) = Some (js ''p'')" "sc_versionId (ss_screen s) = Some (js ''v'')"
    "\<not> sc_cloning (ss_screen s)" by blast
  have "list_all (\<lambda>ev. \<forall>t. honest_answer foreign newId t ev) ?evs"
    by (simp add: honest_answer_def stored_version_def coherent_graph_def graph_input.truncate_def)
  from run_from_start [OF s(1) this] have reach: "session_reach foreign newId ?start s" .
  have "\<exists>s'. session_step newId s Press_Clone = Some s' \<and> ss_log s' = ss_log s @ [Create_Version (js ''p'') (js ''v'')]"
    using s by (simp add: session_step_def send_def startNewVersion_def)
  with reach s(2) show ?thesis by blast
qed

text \<open>A version once loaded stays, and an answer that brings one loads it.\<close>
lemma data_stays:
  assumes "editor_step newId e ev s = Some s'" "e = ss_screen s" "rc_data (sc_version (ss_screen s')) = None"
  shows "rc_data (sc_version e) = None \<and> answer_version ev = None \<and> sc_seeded (ss_screen s') = sc_seeded e"
proof (cases ev)
  case (Version_Answer res)
  with assms(1) obtain r where r: "answer_load res (sc_version e) = Some r"
    "ss_screen s' = seed_effect (e\<lparr>sc_version := r\<rparr>)" by (auto simp: show_editor_def split: option.splits)
  then have "rc_data r = None" using assms(3) by (simp add: seed_effect_def split: option.splits if_splits)
  with r Version_Answer show ?thesis
    by (cases res) (auto simp: answer_load_data [OF r(1)] seed_effect_def)
next
  case Press_Save
  obtain e' q where saved: "save e = (e', q)" by (metis surj_pair)
  with assms(1) Press_Save have "ss_screen s' = e'" by (auto simp: send_def split: if_splits)
  with saved assms(3) Press_Save show ?thesis by (auto elim: save_cases)
next
  case Press_Publish
  obtain e' q where sent: "publish e = (e', q)" by (metis surj_pair)
  with assms(1) Press_Publish have "ss_screen s' = e'" by (auto simp: send_def split: if_splits)
  with publish_cases [OF sent] assms(3) Press_Publish show ?thesis by auto
next
  case Press_Clone
  obtain e' q where sent: "startNewVersion e = (e', q)" by (metis surj_pair)
  with assms(1) Press_Clone have "ss_screen s' = e'" by (auto simp: send_def split: if_splits)
  with clone_cases [OF sent] assms(3) Press_Clone show ?thesis by auto
next
  case (Put_Answer res)
  with assms show ?thesis
    by (cases res) (auto simp: show_editor_def put_done_def set_resource_def seed_effect_def split: if_splits option.splits)
next
  case (Publish_Answer res)
  with assms show ?thesis
    by (cases res) (auto simp: show_editor_def publish_done_def set_resource_def seed_effect_def split: if_splits option.splits)
next
  case (Create_Answer res)
  with assms show ?thesis
    by (cases res) (auto simp: land_def create_done_def split: if_splits list.splits)
next
  case (Clone_Answer res)
  with assms show ?thesis
    by (cases res) (auto simp: land_def clone_done_def split: if_splits)
qed (use assms in \<open>auto simp: show_editor_def mutate_def clearNameError_def clearAlertTypeError_def
      split: if_splits option.splits prod.splits\<close>)

text \<open>As long as no version was loaded, the form holds what was made on it and nothing else.\<close>
definition unseen :: "(nat \<Rightarrow> uuid) \<Rightarrow> editor \<Rightarrow> bool" where
  "unseen newId e \<longleftrightarrow> (rc_data (sc_version e) = None \<longrightarrow> sc_seeded e = None \<and> editor_inv {} newId e)"

interpretation unseen_form: machine_invariant "session_step newId" "honest_answer foreign newId"
    "\<lambda>s. inj newId \<and> unseen newId (ss_screen s)" for foreign newId
proof
  fix s ev s'
  assume inv: "inj newId \<and> unseen newId (ss_screen s)" and "session_step newId s ev = Some s'"
  then have step: "editor_step newId (ss_screen s) ev s = Some s'" by (auto simp: session_step_def split: if_splits)
  have src: "fresh_source {} newId" using inv by (simp add: fresh_source_def)
  have "unseen newId (ss_screen s')"
  proof (cases "rc_data (sc_version (ss_screen s'))")
    case None
    from data_stays [OF step refl None] inv have
      here: "editor_inv {} newId (ss_screen s)" "seeded (ss_screen s)" "answer_version ev = None"
        "sc_seeded (ss_screen s') = None"
      by (auto simp: unseen_def seeded_def)
    then have "pred_option (stored_version (drawn {} newId (sc_drawn (ss_screen s)))) (answer_version ev)" by simp
    from step_inv [OF src here(1,2) this step refl] here(4) show ?thesis by (simp add: unseen_def)
  qed (simp add: unseen_def)
  with inv show "inj newId \<and> unseen newId (ss_screen s')" by simp
qed

lemma unseen_ids:
  assumes "session_reach foreign newId (initial_session p v) s" "inj newId" "rc_data (sc_version (ss_screen s)) = None"
  shows "sc_seeded (ss_screen s) = None" "draft_ids (sc_draft (ss_screen s)) \<subseteq> newId ` {..<sc_drawn (ss_screen s)}"
proof -
  have src: "fresh_source {} newId" using assms(2) by (simp add: fresh_source_def)
  have "unseen newId (ss_screen (initial_session p v))"
    using initial_inv [OF src, of p v] by (simp add: unseen_def) (simp add: initial_session_def)
  then have "unseen newId (ss_screen s)" using unseen_form.holds [OF assms(1)] assms(2) by blast
  with assms(3) have "sc_seeded (ss_screen s) = None" "editor_inv {} newId (ss_screen s)" by (simp_all add: unseen_def)
  then show "sc_seeded (ss_screen s) = None" "draft_ids (sc_draft (ss_screen s)) \<subseteq> newId ` {..<sc_drawn (ss_screen s)}"
    by (auto simp: editor_inv_def good_draft_def keyed_draft_def id_supply.keyed_def [OF source_supply [OF src]] draft_ids_def drawn_def)
qed

text \<open>C19. A version that could not be loaded is written from an empty form. Whenever the load of a version
  has failed and none succeeded before, the screen shows the form, unfrozen, under the notice; the
  graph on it consists of nodes made there and of none that is stored; and once the form was edited
  and can be serialized, while no save, publication or clone is under way, Save sends it as the whole
  graph of that version, without anything known of the version's status or playbook, since each
  guard reads the version that was not loaded. (The backend refuses the write unless the version is a
  draft.)\<close>
theorem unseen_version_overwritten:
  assumes "session_reach foreign newId (initial_session p (Some v)) s" "fresh_source foreign newId" "e = ss_screen s"
    "ss_opened s = None" "rc_error (sc_version e) \<noteq> None" "\<not> rc_loading (sc_version e)" "rc_data (sc_version e) = None"
    "sc_dirty e" "\<not> locked e" "serializePlaybookDraft (sc_draft e) = Inr g"
  shows "screen_of e = Form_Screen \<and> \<not> frozen e
    \<and> node_ids (g_nodes g) \<subseteq> newId ` {..<sc_drawn e} \<and> node_ids (g_nodes g) \<inter> foreign = {}
    \<and> (\<exists>s'. session_step newId s Press_Save = Some s' \<and> ss_log s' = ss_log s @ [Put_Graph v g])"
proof -
  have version: "sc_versionId e = Some v" using session_ids [OF assms(1)] assms(3) by simp
  have inj: "inj newId" "range newId \<inter> foreign = {}" using assms(2) by (simp_all add: fresh_source_def)
  have form: "screen_of e = Form_Screen" "\<not> frozen e"
    using assms(6,7) by (simp_all add: screen_of_def frozen_def split: option.split)
  have "node_ids (g_nodes g) = draft_ids (sc_draft e)"
    using assms(10) by (auto simp: serialize_ok node_ids_def draft_ids_def)
  with unseen_ids(2) [OF assms(1) inj(1)] assms(3,7) have ids: "node_ids (g_nodes g) \<subseteq> newId ` {..<sc_drawn e}" by simp
  have "missing_metadata e = no_metadata_errors" by (simp add: missing_metadata_def no_metadata_errors_def version)
  then have "snd (save e) = Some (Put_Graph v g)" using assms(9,10) by (simp add: save_def version)
  with form version assms(3,4,8,9) have "\<exists>s'. session_step newId s Press_Save = Some s' \<and> ss_log s' = ss_log s @ [Put_Graph v g]"
    by (simp add: session_step_def can_save_def send_def)
  with form ids inj(2) show ?thesis by blast
qed

lemma unseen_ready:
  "\<exists>s g. session_reach foreign newId (initial_session (Some p) (Some v)) s \<and> ss_opened s = None
     \<and> rc_error (sc_version (ss_screen s)) \<noteq> None \<and> \<not> rc_loading (sc_version (ss_screen s))
     \<and> rc_data (sc_version (ss_screen s)) = None \<and> sc_dirty (ss_screen s) \<and> \<not> locked (ss_screen s)
     \<and> serializePlaybookDraft (sc_draft (ss_screen s)) = Inr g \<and> length (g_nodes g) = 1 \<and> ss_log s = []"
proof -
  let ?node = "\<lparr>nd_id = newId 0, nd_kind = Decision, nd_title = js ''A'', nd_description = [],
      nd_terminal_resolution = [], nd_metadata = []\<rparr>"
  let ?d = "\<lparr>pd_root = newId 0, pd_nodes = [?node], pd_edges = []\<rparr>"
  let ?evs = "[Version_Answer (Inl (Other_Failure [])), Edit (Add_Node Decision),
          Edit (Update_Node 0 \<lparr>ns_kind = None, ns_title = Some (js ''A''), ns_description = None,
            ns_terminal_resolution = None, ns_metadata = None\<rparr>)]"
  have g: "serializePlaybookDraft ?d = Inr (graph_of ?d)"
    by (simp add: serialize_ok graph_of_def serialize_node_def coherent_graph_def storable_node_def
        readable_metadata_def node_ids_def null_if_blank_def trim_js strip_def blank_char_def)
  have "\<exists>s. run_session newId (initial_session (Some p) (Some v)) ?evs = Some s \<and> ss_opened s = None
     \<and> rc_error (sc_version (ss_screen s)) \<noteq> None \<and> \<not> rc_loading (sc_version (ss_screen s))
     \<and> rc_data (sc_version (ss_screen s)) = None \<and> sc_dirty (ss_screen s) \<and> \<not> locked (ss_screen s)
     \<and> sc_draft (ss_screen s) = ?d \<and> ss_log s = []"
    by (simp add: session_run_defs Let_def update_at_def)
  then obtain s where s: "run_session newId (initial_session (Some p) (Some v)) ?evs = Some s" "ss_opened s = None"
     "rc_error (sc_version (ss_screen s)) \<noteq> None" "\<not> rc_loading (sc_version (ss_screen s))"
     "rc_data (sc_version (ss_screen s)) = None" "sc_dirty (ss_screen s)" "\<not> locked (ss_screen s)"
     "sc_draft (ss_screen s) = ?d" "ss_log s = []" by blast
  have "session_reach foreign newId (initial_session (Some p) (Some v)) s"
    by (rule run_session_reach [OF reach.start s(1)]) simp
  with s g show ?thesis by (intro exI [of _ s] exI [of _ "graph_of ?d"]) simp
qed

theorem unseen_version_overwritten_witness:
  "\<exists>s s' g. session_reach {} (\<lambda>n. replicate n 65) (initial_session (Some (js ''p'')) (Some (js ''v''))) s
     \<and> session_step (\<lambda>n. replicate n 65) s Press_Save = Some s' \<and> ss_log s' = [Put_Graph (js ''v'') g] \<and> length (g_nodes g) = 1"
proof -
  obtain s g where s: "session_reach {} (\<lambda>n. replicate n 65) (initial_session (Some (js ''p'')) (Some (js ''v''))) s"
    and st: "ss_opened s = None" "rc_error (sc_version (ss_screen s)) \<noteq> None" "\<not> rc_loading (sc_version (ss_screen s))"
     "rc_data (sc_version (ss_screen s)) = None" "sc_dirty (ss_screen s)" "\<not> locked (ss_screen s)"
     "serializePlaybookDraft (sc_draft (ss_screen s)) = Inr g" and g: "length (g_nodes g) = 1" "ss_log s = []"
    using unseen_ready by blast
  have "fresh_source {} (\<lambda>n. replicate n 65)"
    by (auto simp: fresh_source_def inj_def dest: arg_cong [where f = length])
  from unseen_version_overwritten [OF s this refl st] s g show ?thesis by auto
qed

end
