(* ===== verification/Publish_Rules.thy ===== *)
theory Publish_Rules
  imports Draft_Rules
begin

text \<open>
  The publish-time rules of \<open>docs/domain-model.md\<close> section 5 as a predicate on graphs: what a
  version must satisfy before an investigation may run against it. Unlike the write-time
  rules they speak of the whole procedure, so reachability and acyclicity are those of
  the edge relation.
\<close>

definition edge_rel :: "'a graph_input_scheme \<Rightarrow> (uuid \<times> uuid) set" where
  "edge_rel g = (\<lambda>e. (pe_from e, pe_to e)) ` set (g_edges g)"

definition has_choice :: "'a graph_input_scheme \<Rightarrow> playbook_node \<Rightarrow> bool" where
  "has_choice g n \<longleftrightarrow> (\<exists>e\<in>set (g_edges g). pe_from e = pn_id n)"

definition publishable :: "'a graph_input_scheme \<Rightarrow> bool" where
  "publishable g \<longleftrightarrow>
     (\<exists>r. g_root g = Some r \<and> r \<in> node_ids (g_nodes g)
          \<and> (\<forall>n\<in>set (g_nodes g). (r, pn_id n) \<in> (edge_rel g)\<^sup>*))
     \<and> (\<forall>e\<in>set (g_edges g). pe_from e \<in> node_ids (g_nodes g) \<and> pe_to e \<in> node_ids (g_nodes g))
     \<and> (\<forall>n\<in>set (g_nodes g). pn_kind n = Decision \<longleftrightarrow> has_choice g n)
     \<and> (\<forall>n\<in>set (g_nodes g). pn_kind n = Terminal \<longleftrightarrow> pn_terminal_resolution n \<noteq> None)
     \<and> acyclic (edge_rel g)"

text \<open>A ranking that every edge increases shows there is no cycle.\<close>
lemma acyclic_rank:
  assumes "\<And>a b. (a, b) \<in> R \<Longrightarrow> rank a < (rank b :: nat)"
  shows "acyclic R"
proof -
  have "(a, b) \<in> R\<^sup>+ \<Longrightarrow> rank a < rank b" for a b
    by (induction rule: trancl.induct) (auto dest: assms)
  then show ?thesis by (auto simp: acyclic_def)
qed

text \<open>In a graph where every node but the root has a predecessor of smaller rank, every node is
  reachable from the root.\<close>
lemma reachable_rank:
  fixes rank :: "'a \<Rightarrow> nat"
  assumes "\<And>x. x \<in> X \<Longrightarrow> x \<noteq> r \<Longrightarrow> \<exists>y\<in>X. (y, x) \<in> R \<and> rank y < rank x" and "x \<in> X"
  shows "(r, x) \<in> R\<^sup>*"
  using assms(2)
proof (induction "rank x" arbitrary: x rule: less_induct)
  case less
  show ?case
  proof (cases "x = r")
    case True
    then show ?thesis by simp
  next
    case False
    with assms(1) less.prems obtain y where "y \<in> X" "(y, x) \<in> R" "rank y < rank x" by blast
    with less.hyps show ?thesis by (meson rtrancl.rtrancl_into_rtrancl)
  qed
qed

end
