(* ===== verification/Evidence.thy ===== *)
theory Evidence
  imports Types Supply
begin

text \<open>
  \<open>frontend/src/lib/evidence.ts\<close> and the edits of \<open>components/EvidenceEditor.tsx\<close>: the
  evidence rows of the decision form and their serialization. The module's \<open>counter\<close> is a
  state that \<open>newEvidenceDraft\<close> threads; its keys interpret the supply interface.
\<close>

section \<open>Rows\<close>

record evidence_draft =
  ev_key :: jstring
  ev_type :: jstring
  ev_summary :: jstring
  ev_data :: jstring

text \<open>\<open>Partial<Omit<EvidenceDraft, "key">>\<close>: a seed, and the patches the editor applies.\<close>
record evidence_seed =
  evs_type :: "jstring option"
  evs_summary :: "jstring option"
  evs_data :: "jstring option"

definition evidence_key :: "nat \<Rightarrow> jstring" where
  "evidence_key n = js ''ev-'' @ nat_text n"

text \<open>Returns the row and the module's counter after it.\<close>
definition newEvidenceDraft :: "evidence_seed \<Rightarrow> nat \<Rightarrow> evidence_draft \<times> nat" where
  "newEvidenceDraft seed counter =
     (\<lparr>ev_key = evidence_key (Suc counter),
       ev_type = or_else (evs_type seed) [],
       ev_summary = or_else (evs_summary seed) [],
       ev_data = or_else (evs_data seed) []\<rparr>, Suc counter)"

definition no_evidence_seed :: evidence_seed where
  "no_evidence_seed = \<lparr>evs_type = None, evs_summary = None, evs_data = None\<rparr>"

section \<open>Serialization\<close>

datatype evidence_field = EvType | EvSummary | EvData

record evidence_error =
  ee_index :: nat
  ee_field :: evidence_field
  ee_message :: jstring

definition evidence_error :: "nat \<Rightarrow> evidence_field \<Rightarrow> jstring \<Rightarrow> evidence_error" where
  "evidence_error i f m = \<lparr>ee_index = i, ee_field = f, ee_message = m\<rparr>"

definition data_not_object :: jstring where
  "data_not_object = js ''Data must be a JSON object, for example {'' @ [34] @ js ''asset'' @ [34]
     @ js '': '' @ [34] @ js ''ENG-WS-14'' @ [34] @ js ''}.''"

text \<open>One iteration of the \<open>forEach\<close>: the errors it pushes and the item it pushes, with the
  early returns of the callback.\<close>
definition evidence_row :: "nat \<Rightarrow> evidence_draft \<Rightarrow> evidence_error list \<times> evidence_item list" where
  "evidence_row index draft =
     (let type = trim (ev_type draft);
          summary = trim (ev_summary draft);
          data = trim (ev_data draft)
      in if type = [] \<and> summary = [] \<and> data = [] then ([], [])
         else let errs =
                (if type = [] then [evidence_error index EvType (js ''Type is required.'')] else [])
                @ (if summary = [] then [evidence_error index EvSummary (js ''Summary is required.'')] else [])
         in if data = [] then
              (errs, if type = [] \<or> summary = [] then []
                     else [\<lparr>ei_type = type, ei_summary = summary, ei_data = None\<rparr>])
            else case parse_json data of
              None \<Rightarrow> (errs @ [evidence_error index EvData (js ''Data is not valid JSON.'')], [])
            | Some (JObj kvs) \<Rightarrow>
                (errs, if type = [] \<or> summary = [] then []
                       else [\<lparr>ei_type = type, ei_summary = summary, ei_data = Some kvs\<rparr>])
            | Some _ \<Rightarrow> (errs @ [evidence_error index EvData data_not_object], []))"

fun serialize_rows :: "nat \<Rightarrow> evidence_draft list \<Rightarrow> evidence_error list \<times> evidence_item list" where
  "serialize_rows index [] = ([], [])"
| "serialize_rows index (draft # rest) =
     (case evidence_row index draft of (errs, items) \<Rightarrow>
      case serialize_rows (Suc index) rest of (errs', items') \<Rightarrow> (errs @ errs', items @ items'))"

definition serializeEvidence :: "evidence_draft list \<Rightarrow> evidence_error list + evidence_item list" where
  "serializeEvidence drafts =
     (case serialize_rows 0 drafts of (errors, evidence) \<Rightarrow>
        if errors \<noteq> [] then Inl errors else Inr evidence)"

definition formatEvidenceData :: "json_object option \<Rightarrow> jstring" where
  "formatEvidenceData data = (case data of None \<Rightarrow> [] | Some kvs \<Rightarrow> stringify_indented (JObj kvs))"

section \<open>Editing rows\<close>

definition add_evidence :: "evidence_draft list \<Rightarrow> nat \<Rightarrow> evidence_draft list \<times> nat" where
  "add_evidence drafts counter =
     (case newEvidenceDraft no_evidence_seed counter of (d, counter') \<Rightarrow> (drafts @ [d], counter'))"

definition patch_evidence :: "evidence_seed \<Rightarrow> evidence_draft \<Rightarrow> evidence_draft" where
  "patch_evidence patch d =
     d\<lparr>ev_type := or_else (evs_type patch) (ev_type d),
       ev_summary := or_else (evs_summary patch) (ev_summary d),
       ev_data := or_else (evs_data patch) (ev_data d)\<rparr>"

definition update_evidence :: "nat \<Rightarrow> evidence_seed \<Rightarrow> evidence_draft list \<Rightarrow> evidence_draft list" where
  "update_evidence index patch drafts = update_at index (patch_evidence patch) drafts"

definition remove_evidence :: "nat \<Rightarrow> evidence_draft list \<Rightarrow> evidence_draft list" where
  "remove_evidence index drafts = remove_at index drafts"

text \<open>The message shown beside a control.\<close>
definition evidence_errorFor :: "evidence_error list \<Rightarrow> nat \<Rightarrow> evidence_field \<Rightarrow> jstring option" where
  "evidence_errorFor errors index field =
     map_option ee_message (find_first (\<lambda>e. ee_index e = index \<and> ee_field e = field) errors)"

section \<open>Keys\<close>

definition fresh_key :: "nat \<Rightarrow> jstring \<times> nat" where
  "fresh_key counter = (case newEvidenceDraft no_evidence_seed counter of (d, counter') \<Rightarrow> (ev_key d, counter'))"

definition issued_keys :: "nat \<Rightarrow> jstring set" where
  "issued_keys counter = evidence_key ` {1..counter}"

lemma evidence_key_inject [simp]: "evidence_key m = evidence_key n \<longleftrightarrow> m = n"
  by (simp add: evidence_key_def)

interpretation row_keys: id_supply fresh_key issued_keys
proof
  fix s i s' assume "fresh_key s = (i, s')"
  then have i: "i = evidence_key (Suc s)" "s' = Suc s"
    by (auto simp: fresh_key_def newEvidenceDraft_def)
  show "i \<notin> issued_keys s" by (auto simp: i issued_keys_def)
  show "issued_keys s' = insert i (issued_keys s)"
    by (auto simp: i issued_keys_def le_Suc_eq image_iff)
qed

text \<open>The rows on screen, with the module's counter, under the editor's three edits.\<close>
datatype evidence_edit = EvAdd | EvUpdate nat evidence_seed | EvRemove nat

fun edit_evidence :: "evidence_edit \<Rightarrow> evidence_draft list \<times> nat \<Rightarrow> evidence_draft list \<times> nat" where
  "edit_evidence EvAdd (drafts, counter) = add_evidence drafts counter"
| "edit_evidence (EvUpdate i patch) (drafts, counter) = (update_evidence i patch drafts, counter)"
| "edit_evidence (EvRemove i) (drafts, counter) = (remove_evidence i drafts, counter)"

lemma edit_evidence_keyed:
  assumes "row_keys.keyed ev_key counter drafts" "edit_evidence e (drafts, counter) = (drafts', counter')"
  shows "row_keys.keyed ev_key counter' drafts'"
  using assms
proof (cases e)
  case EvAdd
  with assms show ?thesis
    by (auto simp: add_evidence_def newEvidenceDraft_def fresh_key_def no_evidence_seed_def
        intro!: row_keys.keyed_add)
next
  case (EvUpdate i patch)
  have "ev_key (patch_evidence patch d) = ev_key d" for d
    by (simp add: patch_evidence_def)
  with EvUpdate assms show ?thesis
    by (auto simp: update_evidence_def intro: row_keys.keyed_update)
next
  case (EvRemove i)
  with assms show ?thesis
    by (auto simp: remove_evidence_def intro: row_keys.keyed_remove)
qed

lemma edits_evidence_keyed:
  assumes "row_keys.keyed ev_key counter drafts" "fold edit_evidence es (drafts, counter) = (drafts', counter')"
  shows "row_keys.keyed ev_key counter' drafts'"
  using assms
proof (induction es arbitrary: drafts counter)
  case Nil
  then show ?case by simp
next
  case (Cons e es)
  obtain d c where "edit_evidence e (drafts, counter) = (d, c)" by fastforce
  with Cons.prems Cons.IH [of c d] edit_evidence_keyed show ?case by auto
qed


section \<open>What serialization promises\<close>

definition blank_row :: "evidence_draft \<Rightarrow> bool" where
  "blank_row d \<longleftrightarrow> trim (ev_type d) = [] \<and> trim (ev_summary d) = [] \<and> trim (ev_data d) = []"

text \<open>The data box as an optional object, when it is blank or holds one.\<close>
definition data_of :: "evidence_draft \<Rightarrow> json_object option" where
  "data_of d = (case parse_json (trim (ev_data d)) of Some (JObj kvs) \<Rightarrow> Some kvs | _ \<Rightarrow> None)"

fun row_problem :: "evidence_draft \<Rightarrow> evidence_field \<Rightarrow> bool" where
  "row_problem d EvType = (\<not> blank_row d \<and> trim (ev_type d) = [])"
| "row_problem d EvSummary = (\<not> blank_row d \<and> trim (ev_summary d) = [])"
| "row_problem d EvData = (trim (ev_data d) \<noteq> [] \<and> data_of d = None)"

definition evidence_problems :: "evidence_draft list \<Rightarrow> (nat \<times> evidence_field) set" where
  "evidence_problems ds = {(i, f). i < length ds \<and> row_problem (ds ! i) f}"

definition item_of :: "evidence_draft \<Rightarrow> evidence_item" where
  "item_of d =
     \<lparr>ei_type = trim (ev_type d), ei_summary = trim (ev_summary d),
      ei_data = (if trim (ev_data d) = [] then None else data_of d)\<rparr>"

definition ee_position :: "evidence_error \<Rightarrow> nat \<times> evidence_field" where
  "ee_position e = (ee_index e, ee_field e)"

lemma ee_position_error [simp]: "ee_position (evidence_error i f m) = (i, f)"
  by (simp add: ee_position_def evidence_error_def)

lemma row_errors_positions:
  "map ee_position (fst (evidence_row i d)) = map (Pair i) (filter (row_problem d) [EvType, EvSummary, EvData])"
  by (auto simp: evidence_row_def blank_row_def data_of_def Let_def split: option.splits json.splits)

lemma row_items:
  "fst (evidence_row i d) = [] \<Longrightarrow> snd (evidence_row i d) = (if blank_row d then [] else [item_of d])"
  by (auto simp: evidence_row_def blank_row_def data_of_def item_of_def Let_def
      split: option.splits json.splits if_splits)

lemma serialize_rows_positions:
  "map ee_position (fst (serialize_rows k ds)) =
     concat (map_idx k (\<lambda>i d. map (Pair i) (filter (row_problem d) [EvType, EvSummary, EvData])) ds)"
  by (induction ds arbitrary: k) (simp_all add: row_errors_positions split_beta del: filter.simps)

lemma serialize_rows_items:
  "fst (serialize_rows k ds) = [] \<Longrightarrow> snd (serialize_rows k ds) = map item_of (filter (\<lambda>d. \<not> blank_row d) ds)"
  by (induction ds arbitrary: k) (simp_all add: row_items split_beta)

lemma set_serialize_rows:
  "set (map ee_position (fst (serialize_rows 0 ds))) = evidence_problems ds"
proof -
  have "p \<in> set (map ee_position (fst (serialize_rows 0 ds))) \<longleftrightarrow> p \<in> evidence_problems ds" for p
  proof (cases p)
    case (Pair i f)
    have "f \<in> {EvType, EvSummary, EvData}" by (cases f) simp_all
    then show ?thesis
      unfolding serialize_rows_positions mem_concat_map_idx Pair evidence_problems_def
      by (auto simp del: filter.simps)
  qed
  then show ?thesis by blast
qed

lemma distinct_serialize_rows: "distinct (map ee_position (fst (serialize_rows k ds)))"
  unfolding serialize_rows_positions
  by (rule distinct_concat_map_idx [where key = fst, THEN conjunct1])
    (auto simp add: distinct_map inj_on_def simp del: filter.simps)

lemma serializeEvidence_ok:
  "serializeEvidence ds = Inr ev \<longleftrightarrow>
     evidence_problems ds = {} \<and> ev = map item_of (filter (\<lambda>d. \<not> blank_row d) ds)"
proof -
  have "fst (serialize_rows 0 ds) = [] \<longleftrightarrow> evidence_problems ds = {}"
    using set_serialize_rows [of ds] by (metis list.set(1) map_is_Nil_conv set_empty)
  then show ?thesis
    using serialize_rows_items [of 0 ds] by (auto simp: serializeEvidence_def split_beta)
qed

text \<open>What an accepted item looks like: the published \<open>EvidenceItem\<close> schema.\<close>
definition contract_evidence :: "evidence_item \<Rightarrow> bool" where
  "contract_evidence e \<longleftrightarrow>
     ei_type e \<noteq> [] \<and> ei_summary e \<noteq> [] \<and> trim (ei_type e) = ei_type e
     \<and> trim (ei_summary e) = ei_summary e \<and> wf_evidence e"

lemma item_of_contract:
  assumes "\<not> blank_row d" "\<And>f. \<not> row_problem d f"
  shows "contract_evidence (item_of d)"
proof -
  have "trim (ev_type d) \<noteq> []" "trim (ev_summary d) \<noteq> []"
    using assms(1) assms(2) [of EvType] assms(2) [of EvSummary] by auto
  moreover have "data_of d = Some kvs \<Longrightarrow> wf_object kvs" for kvs
    using parse_json_wf [of "trim (ev_data d)"]
    by (auto simp: data_of_def wf_JObj split: option.splits json.splits)
  ultimately show ?thesis
    by (auto simp: contract_evidence_def item_of_def wf_evidence_def split: option.split)
qed

lemma serializeEvidence_contract:
  assumes "serializeEvidence ds = Inr ev"
  shows "list_all contract_evidence ev"
proof -
  have none: "evidence_problems ds = {}" and ev: "ev = map item_of (filter (\<lambda>d. \<not> blank_row d) ds)"
    using assms by (auto simp: serializeEvidence_ok)
  have "\<not> row_problem d f" if "d \<in> set ds" for d f
  proof -
    from that obtain i where "i < length ds" "ds ! i = d" by (auto simp: in_set_conv_nth)
    with none show ?thesis unfolding evidence_problems_def by blast
  qed
  then show ?thesis
    unfolding ev list_all_iff by (auto intro: item_of_contract)
qed

text \<open>A row that holds a given item.\<close>
definition row_of :: "jstring \<Rightarrow> evidence_item \<Rightarrow> evidence_draft" where
  "row_of key e =
     \<lparr>ev_key = key, ev_type = ei_type e, ev_summary = ei_summary e,
      ev_data = formatEvidenceData (ei_data e)\<rparr>"

lemma row_of_item:
  assumes "contract_evidence e"
  shows "item_of (row_of key e) = e" and "\<not> blank_row (row_of key e)" and "\<not> row_problem (row_of key e) f"
proof -
  have data: "trim (formatEvidenceData (ei_data e)) = formatEvidenceData (ei_data e)"
    "formatEvidenceData (ei_data e) = [] \<longleftrightarrow> ei_data e = None"
    "ei_data e \<noteq> None \<Longrightarrow> data_of (row_of key e) = ei_data e"
    using assms indented.parse_show indented.trim_show_object indented.show_object_nonempty
    by (auto simp: formatEvidenceData_def data_of_def row_of_def contract_evidence_def wf_evidence_def
        wf_JObj split: option.splits)
  show "item_of (row_of key e) = e"
    using assms data by (cases e) (auto simp: item_of_def row_of_def contract_evidence_def)
  show blank: "\<not> blank_row (row_of key e)"
    using assms by (simp add: blank_row_def row_of_def contract_evidence_def)
  show "\<not> row_problem (row_of key e) f"
    using assms data by (cases f) (auto simp: row_of_def contract_evidence_def)
qed


lemma filter_rows_of:
  assumes "list_all contract_evidence es"
  shows "map item_of (filter (\<lambda>d. \<not> blank_row d) (map (row_of key) es)) = es"
  using assms by (induction es) (auto simp: row_of_item)

section \<open>Properties\<close>

text \<open>Evidence is accepted exactly when no row has a problem, and what is sent is then the
  rows that are not blank, in order, trimmed; every item sent satisfies the published schema.\<close>
theorem evidence_accepted:
  "case serializeEvidence ds of
     Inr ev \<Rightarrow> evidence_problems ds = {} \<and> ev = map item_of (filter (\<lambda>d. \<not> blank_row d) ds)
               \<and> list_all contract_evidence ev
   | Inl errs \<Rightarrow> evidence_problems ds \<noteq> {}"
proof (cases "serializeEvidence ds")
  case (Inl errs)
  moreover have "evidence_problems ds \<noteq> {}"
    using Inl serializeEvidence_ok [of ds "map item_of (filter (\<lambda>d. \<not> blank_row d) ds)"] by auto
  ultimately show ?thesis by simp
next
  case (Inr ev)
  then have ok: "evidence_problems ds = {}" "ev = map item_of (filter (\<lambda>d. \<not> blank_row d) ds)"
    by (auto simp: serializeEvidence_ok)
  with Inr serializeEvidence_contract [OF Inr] show ?thesis by simp
qed

text \<open>When evidence is refused, every problem of every row is reported at its own row and
  field, nothing else is, and no field carries two messages; a blank row reports nothing.\<close>
theorem evidence_errors_exact:
  assumes "serializeEvidence ds = Inl errs"
  shows "set (map ee_position errs) = evidence_problems ds \<and> distinct (map ee_position errs)
         \<and> (\<forall>i<length ds. blank_row (ds ! i) \<longrightarrow> (\<forall>f. evidence_errorFor errs i f = None))"
proof -
  have errs: "errs = fst (serialize_rows 0 ds)"
    using assms by (auto simp: serializeEvidence_def split_beta split: if_splits)
  have blank: "evidence_errorFor errs i f = None" if "i < length ds" "blank_row (ds ! i)" for i f
  proof -
    have "\<not> row_problem (ds ! i) f"
      using that by (cases f) (auto simp: blank_row_def)
    then have "(i, f) \<notin> set (map ee_position errs)"
      unfolding errs set_serialize_rows by (auto simp: evidence_problems_def)
    then show ?thesis
      by (auto simp: evidence_errorFor_def find_None_iff ee_position_def image_iff)
  qed
  then show ?thesis
    using set_serialize_rows [of ds] distinct_serialize_rows [of 0 ds] errs by auto
qed

theorem evidence_errors_exact_witness:
  "\<exists>errs. serializeEvidence [row_of (js ''ev-1'') \<lparr>ei_type = [], ei_summary = js ''seen'', ei_data = None\<rparr>] = Inl errs
     \<and> set (map ee_position errs)
       = evidence_problems [row_of (js ''ev-1'') \<lparr>ei_type = [], ei_summary = js ''seen'', ei_data = None\<rparr>]"
proof -
  let ?ds = "[row_of (js ''ev-1'') \<lparr>ei_type = [], ei_summary = js ''seen'', ei_data = None\<rparr>]"
  have "serializeEvidence ?ds = Inl [evidence_error 0 EvType (js ''Type is required.'')]"
    by (simp add: serializeEvidence_def evidence_row_def row_of_def formatEvidenceData_def trim_js
        strip_def blank_char_def)
  with evidence_errors_exact [OF this] show ?thesis by blast
qed

text \<open>Evidence that satisfies the schema, put back into rows with its data pretty-printed,
  serializes to the same items: nothing an example or an analyst supplied is altered.\<close>
theorem evidence_round_trip:
  assumes "list_all contract_evidence es"
  shows "serializeEvidence (map (row_of key) es) = Inr es"
proof -
  have "evidence_problems (map (row_of key) es) = {}"
    using assms row_of_item(3) by (auto simp: evidence_problems_def list_all_length)
  then show ?thesis
    using filter_rows_of [OF assms] by (simp add: serializeEvidence_ok)
qed

theorem evidence_round_trip_witness:
  "serializeEvidence [row_of (js ''ev-1'') \<lparr>ei_type = js ''log'', ei_summary = js ''seen'', ei_data = Some [(js ''a'', JBool True)]\<rparr>]
   = Inr [\<lparr>ei_type = js ''log'', ei_summary = js ''seen'', ei_data = Some [(js ''a'', JBool True)]\<rparr>]"
  using evidence_round_trip [of "[\<lparr>ei_type = js ''log'', ei_summary = js ''seen'', ei_data = Some [(js ''a'', JBool True)]\<rparr>]" "js ''ev-1''"]
  by (simp add: contract_evidence_def wf_evidence_def wf_object_iff canonical_def trim_js strip_def blank_char_def)

text \<open>However rows are added, edited and removed, no two rows of the form ever share the
  key React tracks them by, and every key is one the page's counter has handed out.\<close>
theorem evidence_keys_distinct:
  "case fold edit_evidence es ([], n) of (ds, n') \<Rightarrow>
     distinct (map ev_key ds) \<and> ev_key ` set ds \<subseteq> evidence_key ` {1..n'}"
proof -
  obtain ds n' where run: "fold edit_evidence es ([], n) = (ds, n')"
    by (metis surj_pair)
  have "row_keys.keyed ev_key n' ds"
    by (rule edits_evidence_keyed [OF row_keys.keyed_Nil run])
  then have "distinct (map ev_key ds)" "ev_key ` set ds \<subseteq> issued_keys n'"
    by (simp_all only: row_keys.keyed_def)
  then show ?thesis
    by (simp only: run split_conv issued_keys_def)
qed

section \<open>Errors after an edit\<close>

text \<open>The editor keeps the errors of the last submission while rows come and go, so after
  a removal a message points at another row: row 1 was wrong, row 0 is removed, and the message
  is gone from the wrong row, which is now row 0.\<close>
definition two_rows :: "evidence_draft list" where
  "two_rows =
     [row_of (js ''ev-1'') \<lparr>ei_type = js ''log'', ei_summary = js ''seen'', ei_data = None\<rparr>,
      row_of (js ''ev-2'') \<lparr>ei_type = [], ei_summary = js ''seen'', ei_data = None\<rparr>]"

lemma two_rows_refused:
  "serializeEvidence two_rows = Inl [evidence_error 1 EvType (js ''Type is required.'')]"
  by (simp add: two_rows_def serializeEvidence_def evidence_row_def row_of_def formatEvidenceData_def
      trim_js strip_def blank_char_def)

lemma errors_outlive_rows:
  "row_problem (remove_evidence 0 two_rows ! 0) EvType
   \<and> evidence_errorFor [evidence_error 1 EvType (js ''Type is required.'')] 0 EvType = None"
  by (simp add: two_rows_def remove_evidence_def remove_at_def row_of_def blank_row_def evidence_errorFor_def
      evidence_error_def trim_js strip_def blank_char_def)

end
