(* ===== verification/Demo.thy ===== *)
theory Demo
  imports Publish_Rules Evidence
begin

text \<open>
  \<open>frontend/src/lib/demo.ts\<close>: the worked example the console can install, its alert and the
  suggested decisions. Node keys are a datatype; \<open>newId\<close> is an argument of the source too,
  here the sequence of ids it returns. The publish rules of \<open>docs/domain-model.md\<close> section 5 are
  stated as \<open>publishable\<close>, and the installed graph is proved to satisfy them.
\<close>

section \<open>The example\<close>

definition ALERT_TYPE :: jstring where "ALERT_TYPE = js ''unauthorized_plc_register_write''"

datatype node_key =
    K_known_workstation
  | K_maintenance_window
  | K_safety_register
  | K_historian_anomaly
  | K_seen_before
  | K_close_authorized
  | K_escalate_safety
  | K_escalate_unauthorized
  | K_contain_isolate
  | K_escalate_suspicious
  | K_escalate_intrusion

record demo_node =
  dn_key :: node_key
  dn_kind :: node_kind
  dn_title :: jstring
  dn_description :: jstring
  dn_terminal_resolution :: "jstring option"
  dn_metadata :: "json_object option"

record demo_edge =
  de_from :: node_key
  de_to :: node_key
  de_label :: jstring
  de_description :: "jstring option"
  de_order :: number

definition DEMO_NODES :: "demo_node list" where
  "DEMO_NODES = [
     \<lparr>dn_key = K_known_workstation, dn_kind = Decision,
      dn_title = js ''Write came from a known engineering workstation?'',
      dn_description = js ''Resolve the source address against the asset inventory.'',
      dn_terminal_resolution = None,
      dn_metadata = Some [(js ''suggested_evidence'', JArr [JStr (js ''asset_inventory_lookup'')]), (js ''payload_fields'', JArr [JStr (js ''source_ip'')])]\<rparr>,
     \<lparr>dn_key = K_maintenance_window, dn_kind = Decision,
      dn_title = js ''Inside an approved maintenance window?'',
      dn_description = js ''Check the change calendar for an approved window covering this asset.'',
      dn_terminal_resolution = None,
      dn_metadata = Some [(js ''suggested_evidence'', JArr [JStr (js ''change_calendar_lookup'')])]\<rparr>,
     \<lparr>dn_key = K_safety_register, dn_kind = Decision,
      dn_title = js ''Register tied to a safety (SIS) function?'',
      dn_description = js ''Determine whether the register participates in a safety instrumented function.'',
      dn_terminal_resolution = None,
      dn_metadata = Some [(js ''suggested_evidence'', JArr [JStr (js ''register_map_lookup'')])]\<rparr>,
     \<lparr>dn_key = K_historian_anomaly, dn_kind = Decision,
      dn_title = js ''Historian shows anomalous process values?'',
      dn_description = js ''Compare process values around the write against the historian baseline.'',
      dn_terminal_resolution = None,
      dn_metadata = Some [(js ''suggested_evidence'', JArr [JStr (js ''historian_query'')])]\<rparr>,
     \<lparr>dn_key = K_seen_before, dn_kind = Decision,
      dn_title = js ''Source device seen on this network before?'',
      dn_description = js ''Check whether the source address has prior presence on this segment.'',
      dn_terminal_resolution = None,
      dn_metadata = Some [(js ''suggested_evidence'', JArr [JStr (js ''network_flow_history'')])]\<rparr>,
     \<lparr>dn_key = K_close_authorized, dn_kind = Terminal,
      dn_title = js ''Close: authorized maintenance'',
      dn_description = js ''Known workstation, approved window, non-safety register.'',
      dn_terminal_resolution = Some (js ''close_authorized_maintenance''),
      dn_metadata = None\<rparr>,
     \<lparr>dn_key = K_escalate_safety, dn_kind = Terminal,
      dn_title = js ''Escalate: safety review'',
      dn_description = js ''Authorized change touching a safety function requires review.'',
      dn_terminal_resolution = Some (js ''escalate_safety_review''),
      dn_metadata = None\<rparr>,
     \<lparr>dn_key = K_escalate_unauthorized, dn_kind = Terminal,
      dn_title = js ''Escalate: unauthorized change'',
      dn_description = js ''Known workstation, but outside any approved maintenance window.'',
      dn_terminal_resolution = Some (js ''escalate_unauthorized_change''),
      dn_metadata = None\<rparr>,
     \<lparr>dn_key = K_contain_isolate, dn_kind = Terminal,
      dn_title = js ''Contain: isolate segment, start incident response'',
      dn_description = js ''Unknown source combined with anomalous process values.'',
      dn_terminal_resolution = Some (js ''contain_isolate_segment''),
      dn_metadata = None\<rparr>,
     \<lparr>dn_key = K_escalate_suspicious, dn_kind = Terminal,
      dn_title = js ''Escalate: suspicious activity'',
      dn_description = js ''Unknown source, no process anomaly, device seen before.'',
      dn_terminal_resolution = Some (js ''escalate_suspicious_activity''),
      dn_metadata = None\<rparr>,
     \<lparr>dn_key = K_escalate_intrusion, dn_kind = Terminal,
      dn_title = js ''Escalate: possible intrusion'',
      dn_description = js ''Unknown source never seen on this network before.'',
      dn_terminal_resolution = Some (js ''escalate_possible_intrusion''),
      dn_metadata = None\<rparr>]"

definition DEMO_EDGES :: "demo_edge list" where
  "DEMO_EDGES = [
     \<lparr>de_from = K_known_workstation, de_to = K_maintenance_window, de_label = js ''Yes'',
      de_description = Some (js ''Source resolves to a registered engineering workstation.''), de_order = Fin 1\<rparr>,
     \<lparr>de_from = K_known_workstation, de_to = K_historian_anomaly, de_label = js ''No'',
      de_description = Some (js ''Source is unknown or not an engineering workstation.''), de_order = Fin 2\<rparr>,
     \<lparr>de_from = K_maintenance_window, de_to = K_safety_register, de_label = js ''Yes'',
      de_description = None, de_order = Fin 1\<rparr>,
     \<lparr>de_from = K_maintenance_window, de_to = K_escalate_unauthorized, de_label = js ''No'',
      de_description = None, de_order = Fin 2\<rparr>,
     \<lparr>de_from = K_safety_register, de_to = K_escalate_safety, de_label = js ''Yes'',
      de_description = None, de_order = Fin 1\<rparr>,
     \<lparr>de_from = K_safety_register, de_to = K_close_authorized, de_label = js ''No'',
      de_description = None, de_order = Fin 2\<rparr>,
     \<lparr>de_from = K_historian_anomaly, de_to = K_contain_isolate, de_label = js ''Yes'',
      de_description = None, de_order = Fin 1\<rparr>,
     \<lparr>de_from = K_historian_anomaly, de_to = K_seen_before, de_label = js ''No'',
      de_description = None, de_order = Fin 2\<rparr>,
     \<lparr>de_from = K_seen_before, de_to = K_escalate_suspicious, de_label = js ''Yes'',
      de_description = None, de_order = Fin 1\<rparr>,
     \<lparr>de_from = K_seen_before, de_to = K_escalate_intrusion, de_label = js ''No'',
      de_description = None, de_order = Fin 2\<rparr>]"

text \<open>\<open>ids\<close>: one fresh id per node key, in the order of \<open>DEMO_NODES\<close>.\<close>
definition demo_ids :: "(nat \<Rightarrow> uuid) \<Rightarrow> node_key \<Rightarrow> uuid option" where
  "demo_ids newId = map_of (map_idx 0 (\<lambda>i node. (dn_key node, newId i)) DEMO_NODES)"

definition demo_id :: "(nat \<Rightarrow> uuid) \<Rightarrow> node_key \<Rightarrow> uuid" where
  "demo_id newId key = or_else (demo_ids newId key) []"

definition demo_graph :: "(nat \<Rightarrow> uuid) \<Rightarrow> graph_input" where
  "demo_graph newId =
     \<lparr>g_root = demo_ids newId K_known_workstation,
      g_nodes = map (\<lambda>node.
        \<lparr>pn_id = demo_id newId (dn_key node), pn_kind = dn_kind node, pn_title = dn_title node,
         pn_description = dn_description node, pn_terminal_resolution = dn_terminal_resolution node,
         pn_metadata = dn_metadata node\<rparr>) DEMO_NODES,
      g_edges = map_idx (length DEMO_NODES) (\<lambda>i edge.
        \<lparr>pe_id = newId i, pe_from = demo_id newId (de_from edge), pe_to = demo_id newId (de_to edge),
         pe_label = de_label edge, pe_description = de_description edge,
         pe_sort_order = de_order edge\<rparr>) DEMO_EDGES\<rparr>"

definition buildDemoPlaybookRequest :: "(nat \<Rightarrow> uuid) \<Rightarrow> create_playbook_request" where
  "buildDemoPlaybookRequest newId =
     \<lparr>cp_name = js ''Unauthorized PLC Register Write'',
      cp_description = js ''Triage procedure for an unexpected write to a PLC holding register.'',
      cp_alert_type = ALERT_TYPE,
      cp_definition = Some (demo_graph newId)\<rparr>"

definition DEMO_ALERT :: create_alert_request where
  "DEMO_ALERT =
     \<lparr>ca_external_id = Some (js ''INTERBELLUM-2026-0001''),
      ca_alert_type = ALERT_TYPE,
      ca_title = js ''Unauthorized PLC Register Write'',
      ca_description = js ''Write detected on PLC-17'',
      ca_occurred_at = js ''2026-08-19T10:30:00Z'',
      ca_payload = [(js ''plc'', JStr (js ''PLC-17'')), (js ''register'', JStr (js ''40021'')),
                    (js ''source_ip'', JStr (js ''10.20.1.44''))]\<rparr>"

record suggestion =
  sg_rationale :: jstring
  sg_evidence :: evidence_seed

definition demo_suggestion :: "jstring \<Rightarrow> jstring \<Rightarrow> jstring \<Rightarrow> jstring \<Rightarrow> suggestion" where
  "demo_suggestion rationale type summary data =
     \<lparr>sg_rationale = rationale,
      sg_evidence = \<lparr>evs_type = Some type, evs_summary = Some summary, evs_data = Some data\<rparr>\<rparr>"

definition DEMO_DECISIONS :: "(jstring \<times> suggestion) list" where
  "DEMO_DECISIONS = [
     (js ''Write came from a known engineering workstation?|Yes'',
      demo_suggestion
        (js ''The source address belongs to ENG-WS-14, a registered engineering workstation.'')
        (js ''asset_inventory_lookup'')
        (js ''10.20.1.44 maps to ENG-WS-14'')
        (js ''{'' @ [10] @ js ''  '' @ [34] @ js ''asset'' @ [34] @ js '': '' @ [34] @ js ''ENG-WS-14'' @ [34] @ js '','' @ [10] @ js ''  '' @ [34] @ js ''trusted'' @ [34] @ js '': true'' @ [10] @ js ''}'')),
     (js ''Inside an approved maintenance window?|Yes'',
      demo_suggestion
        (js ''Change calendar shows an approved window 10:00-12:00 UTC covering PLC-17.'')
        (js ''change_calendar_lookup'')
        (js ''Approved window 10:00-12:00 UTC'')
        (js ''{'' @ [10] @ js ''  '' @ [34] @ js ''change_id'' @ [34] @ js '': '' @ [34] @ js ''CHG-4471'' @ [34] @ [10] @ js ''}'')),
     (js ''Register tied to a safety (SIS) function?|No'',
      demo_suggestion
        (js ''Register 40021 is a non-safety setpoint; the SIS range is 41000-41100.'')
        (js ''register_map_lookup'')
        (js ''40021 is outside the SIS register range'')
        (js ''{'' @ [10] @ js ''  '' @ [34] @ js ''sis_range'' @ [34] @ js '': '' @ [34] @ js ''41000-41100'' @ [34] @ [10] @ js ''}''))]"

text \<open>\<open>DEMO_DECISIONS[`${nodeTitle}|${choiceLabel}`] ?? null\<close>: a key with a bar is never one that
  every object inherits.\<close>
definition suggestedDecision :: "jstring \<Rightarrow> jstring \<Rightarrow> suggestion option" where
  "suggestedDecision nodeTitle choiceLabel = map_of DEMO_DECISIONS (nodeTitle @ js ''|'' @ choiceLabel)"

section \<open>The installed graph\<close>

fun key_index :: "node_key \<Rightarrow> nat" where
  "key_index K_known_workstation = 0"
| "key_index K_maintenance_window = 1"
| "key_index K_safety_register = 2"
| "key_index K_historian_anomaly = 3"
| "key_index K_seen_before = 4"
| "key_index K_close_authorized = 5"
| "key_index K_escalate_safety = 6"
| "key_index K_escalate_unauthorized = 7"
| "key_index K_contain_isolate = 8"
| "key_index K_escalate_suspicious = 9"
| "key_index K_escalate_intrusion = 10"

lemma key_index_inject [simp]: "key_index a = key_index b \<longleftrightarrow> a = b"
  by (cases a; cases b) simp_all

lemma key_index_less: "key_index k < length DEMO_NODES"
  by (cases k) (simp_all add: DEMO_NODES_def)

lemma demo_ids_eq: "demo_ids newId k = Some (newId (key_index k))"
  by (cases k) (simp_all add: demo_ids_def DEMO_NODES_def eval_nat_numeral)

lemma demo_id_eq [simp]: "demo_id newId k = newId (key_index k)"
  by (simp add: demo_id_def demo_ids_eq)

lemma demo_keys: "map (\<lambda>n. key_index (dn_key n)) DEMO_NODES = [0..<11]"
  by (simp add: DEMO_NODES_def upt_rec)

lemma demo_key_node: "\<exists>n\<in>set DEMO_NODES. dn_key n = k"
  by (cases k) (simp_all add: DEMO_NODES_def)

lemma demo_edges_increase: "e \<in> set DEMO_EDGES \<Longrightarrow> key_index (de_from e) < key_index (de_to e)"
  by (auto simp: DEMO_EDGES_def)

lemma demo_predecessor: "k \<noteq> K_known_workstation \<Longrightarrow> \<exists>e\<in>set DEMO_EDGES. de_to e = k"
  by (cases k) (simp_all add: DEMO_EDGES_def)

lemma demo_node_rules:
  "n \<in> set DEMO_NODES \<Longrightarrow>
     dn_title n \<noteq> [] \<and> (dn_kind n = Terminal \<longleftrightarrow> dn_terminal_resolution n \<noteq> None)
     \<and> dn_terminal_resolution n \<noteq> Some []
     \<and> (dn_kind n = Decision \<longleftrightarrow> (\<exists>e\<in>set DEMO_EDGES. de_from e = dn_key n))"
  by (auto simp: DEMO_NODES_def DEMO_EDGES_def)

lemma demo_labels:
  "distinct (map (\<lambda>e. (de_from e, de_label e)) DEMO_EDGES) \<and> list_all (\<lambda>e. de_label e \<noteq> []) DEMO_EDGES"
  by (simp add: DEMO_EDGES_def)

lemma demo_node_ids: "map pn_id (g_nodes (demo_graph newId)) = map newId [0..<11]"
  by (simp add: demo_graph_def comp_def demo_keys [symmetric])

lemma demo_ids_of: "node_ids (g_nodes (demo_graph newId)) = newId ` {..<11}"
  by (simp only: node_ids_def demo_node_ids set_map set_upt) auto

lemma demo_id_member: "newId (key_index k) \<in> node_ids (g_nodes (demo_graph newId))"
  using key_index_less [of k] by (auto simp: demo_ids_of DEMO_NODES_def)

text \<open>The edges of the installed graph, endpoint by endpoint.\<close>
lemma demo_edges_map:
  "(\<And>e i. f (mk e i) = g e) \<Longrightarrow> map f (map_idx k (\<lambda>i e. mk e i) es) = map g es"
  by (induction es arbitrary: k) simp_all

lemma demo_edge_rel:
  "edge_rel (demo_graph newId) =
     (\<lambda>e. (newId (key_index (de_from e)), newId (key_index (de_to e)))) ` set DEMO_EDGES"
proof -
  have "map (\<lambda>e. (pe_from e, pe_to e)) (g_edges (demo_graph newId)) =
      map (\<lambda>e. (newId (key_index (de_from e)), newId (key_index (de_to e)))) DEMO_EDGES"
    by (simp add: demo_graph_def map_map_idx map_idx_const)
  then show ?thesis
    unfolding edge_rel_def set_map [symmetric] by simp
qed

lemma demo_edge_cases:
  assumes "e \<in> set (g_edges (demo_graph newId))"
  obtains d where "d \<in> set DEMO_EDGES" "pe_from e = newId (key_index (de_from d))"
    "pe_to e = newId (key_index (de_to d))" "pe_label e = de_label d"
proof -
  from assms obtain i where "i < length DEMO_EDGES" "e = g_edges (demo_graph newId) ! i"
    by (auto simp: demo_graph_def in_set_conv_nth)
  then show thesis
    by (intro that [of "DEMO_EDGES ! i"]) (simp_all add: demo_graph_def)
qed

lemma demo_node_cases:
  assumes "n \<in> set (g_nodes (demo_graph newId))"
  obtains d where "d \<in> set DEMO_NODES" "pn_id n = newId (key_index (dn_key d))" "pn_kind n = dn_kind d"
    "pn_title n = dn_title d" "pn_terminal_resolution n = dn_terminal_resolution d"
  using assms by (auto simp: demo_graph_def)

lemma demo_storable:
  assumes "inj newId" "\<And>k. newId k \<noteq> []"
  shows "coherent_graph (demo_graph newId)"
proof -
  have "distinct (map pn_id (g_nodes (demo_graph newId)))"
    unfolding demo_node_ids distinct_map using assms(1) by (auto intro: inj_on_subset)
  moreover have "storable_node n" if "n \<in> set (g_nodes (demo_graph newId))" for n
    using that by (elim demo_node_cases) (frule demo_node_rules, simp add: storable_node_def)
  then have "list_all storable_node (g_nodes (demo_graph newId))"
    by (simp add: list_all_iff)
  moreover have "map pe_id (g_edges (demo_graph newId)) = map newId [length DEMO_NODES..<length DEMO_NODES + length DEMO_EDGES]"
    by (rule nth_equalityI) (simp_all add: demo_graph_def)
  then have "distinct (map pe_id (g_edges (demo_graph newId)))"
    using assms(1) by (simp only: distinct_map) (auto intro: inj_on_subset)
  moreover have "list_all (storable_edge (node_ids (g_nodes (demo_graph newId)))) (g_edges (demo_graph newId))"
    using assms(2) assms(2) [symmetric] demo_labels
    by (auto simp: list_all_iff storable_edge_def demo_id_member elim!: demo_edge_cases)
  moreover have "map (\<lambda>e. (pe_from e, pe_label e)) (g_edges (demo_graph newId)) =
      map (\<lambda>e. (newId (key_index (de_from e)), de_label e)) DEMO_EDGES"
    by (simp add: demo_graph_def map_map_idx map_idx_const)
  then have "distinct (map (\<lambda>e. (pe_from e, pe_label e)) (g_edges (demo_graph newId)))"
    using demo_labels injD [OF assms(1)] by (auto simp: distinct_map inj_on_def) (metis key_index_inject)+
  moreover have "g_root (demo_graph newId) = Some (newId (key_index K_known_workstation))"
    by (simp add: demo_graph_def demo_ids_eq)
  ultimately show ?thesis
    unfolding coherent_graph_def using demo_id_member [of newId K_known_workstation] by simp
qed

lemma demo_reachable: "(newId (key_index K_known_workstation), newId (key_index k)) \<in> (edge_rel (demo_graph newId))\<^sup>*"
proof (induction "key_index k" arbitrary: k rule: less_induct)
  case less
  show ?case
  proof (cases "k = K_known_workstation")
    case False
    then obtain e where e: "e \<in> set DEMO_EDGES" "de_to e = k" using demo_predecessor by blast
    with demo_edges_increase have "key_index (de_from e) < key_index k" by blast
    moreover have "(newId (key_index (de_from e)), newId (key_index k)) \<in> edge_rel (demo_graph newId)"
      using e by (auto simp: demo_edge_rel)
    ultimately show ?thesis using less by (meson rtrancl.rtrancl_into_rtrancl)
  qed simp
qed

lemma demo_publishable:
  assumes "inj newId"
  shows "publishable (demo_graph newId)"
proof -
  have injD: "newId a = newId b \<longleftrightarrow> a = b" for a b
    using assms by (auto dest: injD)
  have choice: "has_choice (demo_graph newId) n \<longleftrightarrow> (\<exists>e\<in>set DEMO_EDGES. de_from e = dn_key d)"
    if "pn_id n = newId (key_index (dn_key d))" for n d
  proof -
    have "has_choice (demo_graph newId) n \<longleftrightarrow> pn_id n \<in> fst ` edge_rel (demo_graph newId)"
      by (auto simp: has_choice_def edge_rel_def image_iff) metis
    then show ?thesis
      unfolding demo_edge_rel that image_image by (simp add: image_iff injD) metis
  qed
  have "acyclic (edge_rel (demo_graph newId))"
    by (rule acyclic_rank [where rank = "inv newId"])
      (use assms demo_edges_increase in \<open>auto simp: demo_edge_rel\<close>)
  moreover have "g_root (demo_graph newId) = Some (newId (key_index K_known_workstation))"
    by (simp add: demo_graph_def demo_ids_eq)
  moreover have "\<forall>n\<in>set (g_nodes (demo_graph newId)).
      (newId (key_index K_known_workstation), pn_id n) \<in> (edge_rel (demo_graph newId))\<^sup>*"
    using demo_reachable by (auto elim!: demo_node_cases)
  moreover have "(pn_kind n = Decision \<longleftrightarrow> has_choice (demo_graph newId) n)
      \<and> (pn_kind n = Terminal \<longleftrightarrow> pn_terminal_resolution n \<noteq> None)" if "n \<in> set (g_nodes (demo_graph newId))" for n
  proof -
    from that obtain d where d: "d \<in> set DEMO_NODES" "pn_id n = newId (key_index (dn_key d))"
      "pn_kind n = dn_kind d" "pn_terminal_resolution n = dn_terminal_resolution d"
      by (rule demo_node_cases)
    show ?thesis
      using demo_node_rules [OF d(1)] choice [OF d(2)] d by simp
  qed
  moreover have "pe_from e \<in> node_ids (g_nodes (demo_graph newId))
      \<and> pe_to e \<in> node_ids (g_nodes (demo_graph newId))" if "e \<in> set (g_edges (demo_graph newId))" for e
    using that demo_id_member by (auto elim!: demo_edge_cases)
  ultimately show ?thesis
    unfolding publishable_def using demo_id_member by blast
qed

section \<open>Properties\<close>

text \<open>Installing the worked example sends a graph the API stores and can publish, whatever
  distinct, non-empty ids the browser mints: it satisfies every write-time and publish-time
  rule, so the demo action can be repeated without colliding.\<close>
theorem demo_installs:
  assumes "inj newId" "\<And>k. newId k \<noteq> []"
  shows "\<exists>g. cp_definition (buildDemoPlaybookRequest newId) = Some g \<and> coherent_graph g \<and> publishable g"
  using demo_storable [OF assms] demo_publishable [OF assms(1)]
  by (simp add: buildDemoPlaybookRequest_def)

theorem demo_installs_witness:
  "\<exists>g. cp_definition (buildDemoPlaybookRequest nat_text) = Some g \<and> coherent_graph g \<and> publishable g"
  by (rule demo_installs) (simp_all add: inj_def)

end
