(* ===== verification/Decision.thy ===== *)
theory Decision
  imports Demo Api_Error Machine
begin

text \<open>
  \<open>components/DecisionForm.tsx\<close> inside \<open>app/investigations/[id]/InvestigationRunner.tsx\<close>: the
  form a decision is made in, its idempotency key and the calls it sends. The form's React
  state and refs are one record; a handler is a function on it. \<open>submit\<close> is cut at its
  \<open>await\<close>: the part before it returns the request, the parts after it are \<open>decision_landed\<close>
  and \<open>decision_failed\<close>. \<open>crypto.randomUUID\<close> is a parameter (the sequence of ids it
  returns) and so is what the server answers.
\<close>

section \<open>The form\<close>

record decision_form =
  df_edgeId :: "uuid option"
  df_actorType :: actor_type
  df_actorId :: jstring
  df_rationale :: jstring
  df_evidence :: "evidence_draft list"
  df_evidenceErrors :: "evidence_error list"
  df_submitting :: bool
  df_error :: "thrown option"
  df_keyRef :: "jstring option"
  df_keyForRef :: "jstring option"

definition initial_form :: decision_form where
  "initial_form =
     \<lparr>df_edgeId = None, df_actorType = Human, df_actorId = js ''analyst'', df_rationale = [],
      df_evidence = [], df_evidenceErrors = [], df_submitting = False, df_error = None,
      df_keyRef = None, df_keyForRef = None\<rparr>"

definition signature :: "submit_decision_request \<Rightarrow> jstring" where
  "signature body = stringify (decision_json body)"

text \<open>The key, the form with its refs and the number of ids minted so far.\<close>
definition idempotencyKeyFor ::
  "(nat \<Rightarrow> uuid) \<Rightarrow> submit_decision_request \<Rightarrow> decision_form \<Rightarrow> nat \<Rightarrow> jstring \<times> decision_form \<times> nat"
where
  "idempotencyKeyFor newId body f n =
     (case df_keyRef f of
        Some key \<Rightarrow>
          if df_keyForRef f = Some (signature body) then (key, f, n)
          else (newId n, f\<lparr>df_keyRef := Some (newId n), df_keyForRef := Some (signature body)\<rparr>, Suc n)
      | None \<Rightarrow>
          (newId n, f\<lparr>df_keyRef := Some (newId n), df_keyForRef := Some (signature body)\<rparr>, Suc n))"

definition selected_choice :: "available_choice list \<Rightarrow> decision_form \<Rightarrow> available_choice option" where
  "selected_choice choices f = find_first (\<lambda>c. Some (ch_edge_id c) = df_edgeId f) choices"

text \<open>\<open>counter\<close> is the evidence module's.\<close>
definition chooseEdge ::
  "playbook_node \<Rightarrow> available_choice \<Rightarrow> decision_form \<Rightarrow> nat \<Rightarrow> decision_form \<times> nat"
where
  "chooseEdge currentNode choice f counter =
     (let f' = f\<lparr>df_edgeId := Some (ch_edge_id choice), df_error := None\<rparr>
      in case suggestedDecision (pn_title currentNode) (ch_label choice) of
           Some suggestion \<Rightarrow>
             if trim (df_rationale f) = [] \<and> df_evidence f = []
             then case newEvidenceDraft (sg_evidence suggestion) counter of (d, counter') \<Rightarrow>
               (f'\<lparr>df_rationale := sg_rationale suggestion, df_evidence := [d]\<rparr>, counter')
             else (f', counter)
         | None \<Rightarrow> (f', counter))"

definition decision_body :: "uuid \<Rightarrow> evidence_item list \<Rightarrow> decision_form \<Rightarrow> submit_decision_request" where
  "decision_body edgeId evidence f =
     \<lparr>sd_edge_id = edgeId,
      sd_actor = \<lparr>ac_type = df_actorType f, ac_id = null_if_blank (trim (df_actorId f))\<rparr>,
      sd_rationale = null_if_blank (trim (df_rationale f)),
      sd_evidence = evidence\<rparr>"

text \<open>A request: the idempotency key and the body.\<close>
type_synonym decision_request = "jstring \<times> submit_decision_request"

text \<open>\<open>submit\<close> up to its \<open>await\<close>.\<close>
definition submit ::
  "(nat \<Rightarrow> uuid) \<Rightarrow> decision_form \<Rightarrow> nat \<Rightarrow> decision_form \<times> nat \<times> decision_request option"
where
  "submit newId f n =
     (if df_submitting f then (f, n, None)
      else case df_edgeId f of
        None \<Rightarrow> (f, n, None)
      | Some edgeId \<Rightarrow>
          if edgeId = [] then (f, n, None)
          else case serializeEvidence (df_evidence f) of
            Inl errs \<Rightarrow> (f\<lparr>df_evidenceErrors := errs\<rparr>, n, None)
          | Inr evidence \<Rightarrow>
              let body = decision_body edgeId evidence f;
                  f' = f\<lparr>df_evidenceErrors := [], df_submitting := True, df_error := None\<rparr>
              in case idempotencyKeyFor newId body f' n of (key, f'', n') \<Rightarrow>
                   (f'', n', Some (key, body)))"

text \<open>After the \<open>await\<close>: the decision landed, or the call threw; \<open>finally\<close> unlocks the form.\<close>
definition decision_landed :: "decision_form \<Rightarrow> decision_form" where
  "decision_landed f =
     f\<lparr>df_keyRef := None, df_keyForRef := None, df_edgeId := None, df_rationale := [],
       df_evidence := [], df_submitting := False\<rparr>"

definition decision_failed :: "thrown \<Rightarrow> decision_form \<Rightarrow> decision_form" where
  "decision_failed err f = f\<lparr>df_error := Some err, df_submitting := False\<rparr>"

section \<open>The form in the runner\<close>

text \<open>The investigation on screen, the form, the counters of the two id sources and the
  requests sent so far, oldest first.\<close>
record runner =
  rn_state :: investigation_state
  rn_form :: decision_form
  rn_counter :: nat
  rn_minted :: nat
  rn_sent :: "decision_request list"

definition initial_runner :: "investigation_state \<Rightarrow> nat \<Rightarrow> nat \<Rightarrow> runner" where
  "initial_runner st counter minted =
     \<lparr>rn_state = st, rn_form = initial_form, rn_counter = counter, rn_minted = minted, rn_sent = []\<rparr>"

datatype runner_event =
    Set_Actor_Type actor_type
  | Set_Actor_Id jstring
  | Set_Rationale jstring
  | Edit_Evidence evidence_edit
  | Choose available_choice
  | Submit
  | Landed investigation_state
  | Failed thrown

text \<open>The form is on screen while the investigation is in progress; its \<open>fieldset\<close> is disabled
  while a submission is in flight.\<close>
definition form_shown :: "runner \<Rightarrow> bool" where
  "form_shown r \<longleftrightarrow> iv_status (rn_state r) = InProgress"

definition controls_enabled :: "runner \<Rightarrow> bool" where
  "controls_enabled r \<longleftrightarrow> form_shown r \<and> \<not> df_submitting (rn_form r)"

fun runner_step :: "(nat \<Rightarrow> uuid) \<Rightarrow> runner \<Rightarrow> runner_event \<Rightarrow> runner option" where
  "runner_step newId r (Set_Actor_Type t) =
     (if controls_enabled r then Some (r\<lparr>rn_form := (rn_form r)\<lparr>df_actorType := t\<rparr>\<rparr>) else None)"
| "runner_step newId r (Set_Actor_Id s) =
     (if controls_enabled r then Some (r\<lparr>rn_form := (rn_form r)\<lparr>df_actorId := s\<rparr>\<rparr>) else None)"
| "runner_step newId r (Set_Rationale s) =
     (if controls_enabled r then Some (r\<lparr>rn_form := (rn_form r)\<lparr>df_rationale := s\<rparr>\<rparr>) else None)"
| "runner_step newId r (Edit_Evidence e) =
     (if controls_enabled r
      then case edit_evidence e (df_evidence (rn_form r), rn_counter r) of (ds, c) \<Rightarrow>
             Some (r\<lparr>rn_form := (rn_form r)\<lparr>df_evidence := ds\<rparr>, rn_counter := c\<rparr>)
      else None)"
| "runner_step newId r (Choose choice) =
     (if controls_enabled r \<and> choice \<in> set (iv_available_choices (rn_state r))
      then case chooseEdge (iv_current_node (rn_state r)) choice (rn_form r) (rn_counter r) of (f, c) \<Rightarrow>
             Some (r\<lparr>rn_form := f, rn_counter := c\<rparr>)
      else None)"
| "runner_step newId r Submit =
     (if form_shown r
      then case submit newId (rn_form r) (rn_minted r) of (f, n, request) \<Rightarrow>
             Some (r\<lparr>rn_form := f, rn_minted := n,
                     rn_sent := rn_sent r @ (case request of None \<Rightarrow> [] | Some q \<Rightarrow> [q])\<rparr>)
      else None)"
| "runner_step newId r (Landed st) =
     (if df_submitting (rn_form r)
      then Some (r\<lparr>rn_form := decision_landed (rn_form r), rn_state := st\<rparr>) else None)"
| "runner_step newId r (Failed err) =
     (if df_submitting (rn_form r)
      then Some (r\<lparr>rn_form := decision_failed err (rn_form r)\<rparr>) else None)"

abbreviation runner_reach :: "(nat \<Rightarrow> uuid) \<Rightarrow> runner \<Rightarrow> runner \<Rightarrow> bool" where
  "runner_reach newId \<equiv> reach (runner_step newId) (\<lambda>_ _. True)"

abbreviation run_runner :: "(nat \<Rightarrow> uuid) \<Rightarrow> runner \<Rightarrow> runner_event list \<Rightarrow> runner option" where
  "run_runner newId \<equiv> run (runner_step newId)"

section \<open>Lemmas\<close>

lemma signature_inject:
  assumes "list_all wf_evidence (sd_evidence a)" "list_all wf_evidence (sd_evidence b)"
  shows "signature a = signature b \<longleftrightarrow> a = b"
  using assms compact.show_inject [of "decision_json a" "decision_json b"]
  by (simp add: signature_def decision_json_wf)

text \<open>When a request leaves the form, and what it is.\<close>
definition sendable :: "decision_form \<Rightarrow> submit_decision_request option" where
  "sendable f =
     (if df_submitting f then None
      else case df_edgeId f of
        None \<Rightarrow> None
      | Some edgeId \<Rightarrow>
          if edgeId = [] then None
          else case serializeEvidence (df_evidence f) of
            Inl _ \<Rightarrow> None | Inr evidence \<Rightarrow> Some (decision_body edgeId evidence f))"

lemma submit_cases:
  assumes "submit newId f n = (f', n', q)"
  shows "(sendable f = None \<and> q = None \<and> n' = n \<and> df_keyRef f' = df_keyRef f \<and> df_keyForRef f' = df_keyForRef f
            \<and> df_submitting f' = df_submitting f \<and> df_edgeId f' = df_edgeId f)
       \<or> (\<exists>body. sendable f = Some body \<and> df_submitting f' \<and> df_edgeId f' = df_edgeId f
            \<and> df_keyForRef f' = Some (signature body)
            \<and> (if df_keyRef f \<noteq> None \<and> df_keyForRef f = Some (signature body)
               then n' = n \<and> df_keyRef f' = df_keyRef f \<and> q = Some (the (df_keyRef f), body)
               else n' = Suc n \<and> df_keyRef f' = Some (newId n) \<and> q = Some (newId n, body)))"
proof (cases "sendable f")
  case None
  have "q = None \<and> n' = n \<and> (\<exists>errs. f' = f \<or> f' = f\<lparr>df_evidenceErrors := errs\<rparr>)"
  proof (cases "df_submitting f \<or> df_edgeId f = None \<or> df_edgeId f = Some []")
    case True
    with assms show ?thesis
      by (cases "df_submitting f"; cases "df_edgeId f") (auto simp: submit_def)
  next
    case False
    with None obtain errs where "serializeEvidence (df_evidence f) = Inl errs"
      by (auto simp: sendable_def split: if_splits sum.splits)
    with False assms show ?thesis by (auto simp: submit_def)
  qed
  with None show ?thesis by auto
next
  case (Some body)
  then obtain e ev where f: "\<not> df_submitting f" "df_edgeId f = Some e" "e \<noteq> []"
    "serializeEvidence (df_evidence f) = Inr ev" "body = decision_body e ev f"
    by (auto simp: sendable_def split: if_splits option.splits sum.splits)
  let ?f = "f\<lparr>df_evidenceErrors := [], df_submitting := True, df_error := None\<rparr>"
  have "submit newId f n =
      (case idempotencyKeyFor newId body ?f n of (key, f'', n') \<Rightarrow> (f'', n', Some (key, body)))"
    using f by (simp add: submit_def Let_def)
  with assms Some show ?thesis
    by (cases "df_keyRef f") (auto simp: idempotencyKeyFor_def split: if_splits)
qed

lemma sendable_evidence:
  "sendable f = Some body \<Longrightarrow> list_all contract_evidence (sd_evidence body)"
  by (auto simp: sendable_def decision_body_def dest: serializeEvidence_contract
      split: if_splits option.splits sum.splits)

lemma contract_evidence_wf: "list_all contract_evidence es \<Longrightarrow> list_all wf_evidence es"
  by (auto simp: list_all_iff contract_evidence_def)

lemma chooseEdge_refs:
  "chooseEdge node choice f c = (f', c') \<Longrightarrow>
     df_keyRef f' = df_keyRef f \<and> df_keyForRef f' = df_keyForRef f \<and> df_submitting f' = df_submitting f
     \<and> df_edgeId f' = Some (ch_edge_id choice)"
  by (auto simp: chooseEdge_def Let_def split: option.splits if_splits prod.splits)

section \<open>Invariant\<close>

text \<open>Keys are minted in order, one per body; the key the form holds was minted for the
  request it was last sent with; the chosen edge is one of the offered ones.\<close>
definition keys_minted :: "(nat \<Rightarrow> uuid) \<Rightarrow> nat \<Rightarrow> decision_request list \<Rightarrow> bool" where
  "keys_minted newId n sent \<longleftrightarrow> (\<forall>q\<in>set sent. \<exists>i<n. fst q = newId i)"

definition one_body :: "decision_request list \<Rightarrow> bool" where
  "one_body sent \<longleftrightarrow> (\<forall>p\<in>set sent. \<forall>q\<in>set sent. fst p = fst q \<longrightarrow> snd p = snd q)"

definition key_held :: "decision_form \<Rightarrow> decision_request list \<Rightarrow> bool" where
  "key_held f sent \<longleftrightarrow>
     (\<forall>k. df_keyRef f = Some k \<longrightarrow> (\<exists>b. df_keyForRef f = Some (signature b) \<and> (k, b) \<in> set sent))"

definition runner_inv :: "(nat \<Rightarrow> uuid) \<Rightarrow> runner \<Rightarrow> bool" where
  "runner_inv newId r \<longleftrightarrow>
     keys_minted newId (rn_minted r) (rn_sent r) \<and> one_body (rn_sent r)
     \<and> (\<forall>q\<in>set (rn_sent r). list_all contract_evidence (sd_evidence (snd q)))
     \<and> key_held (rn_form r) (rn_sent r)
     \<and> (\<forall>e. df_edgeId (rn_form r) = Some e \<longrightarrow> e \<in> ch_edge_id ` set (iv_available_choices (rn_state r)))"

lemma runner_inv_initial: "runner_inv newId (initial_runner st c m)"
  by (simp add: runner_inv_def initial_runner_def initial_form_def keys_minted_def one_body_def key_held_def)

lemma fresh_key_unsent:
  assumes "inj newId" "keys_minted newId n sent"
  shows "newId n \<notin> fst ` set sent"
proof
  assume "newId n \<in> fst ` set sent"
  then obtain p where "p \<in> set sent" "fst p = newId n" by force
  with assms(2) obtain i where "i < n" "newId n = newId i" by (auto simp: keys_minted_def)
  with assms(1) show False by (auto dest: injD)
qed

lemma one_body_snoc:
  assumes "one_body sent" "(k, body) \<in> set sent \<or> k \<notin> fst ` set sent"
  shows "one_body (sent @ [(k, body)])"
proof -
  have same: "snd p = body" if p: "p \<in> set sent" "fst p = k" for p
  proof -
    from p(1) have "k \<in> fst ` set sent" by (rule rev_image_eqI) (simp add: p(2))
    with assms(2) have "(k, body) \<in> set sent" by blast
    from assms(1) [unfolded one_body_def, rule_format, OF p(1) this] p(2) show ?thesis by simp
  qed
  show ?thesis
    unfolding one_body_def
  proof (intro ballI impI)
    fix p q assume "p \<in> set (sent @ [(k, body)])" "q \<in> set (sent @ [(k, body)])" "fst p = fst q"
    then have mem: "p \<in> set sent \<or> p = (k, body)" "q \<in> set sent \<or> q = (k, body)" by auto
    show "snd p = snd q"
    proof (cases "fst p = k")
      case True
      with same mem \<open>fst p = fst q\<close> show ?thesis by (metis snd_conv)
    next
      case False
      with mem \<open>fst p = fst q\<close> have "p \<in> set sent" "q \<in> set sent" by auto
      from assms(1) [unfolded one_body_def, rule_format, OF this \<open>fst p = fst q\<close>] show ?thesis .
    qed
  qed
qed

lemma keys_minted_snoc:
  assumes "keys_minted newId n sent"
  shows "keys_minted newId (Suc n) (sent @ [(newId n, body)])"
proof -
  have "\<exists>i<Suc n. fst q = newId i" if "q \<in> set sent" for q
    using assms that less_SucI unfolding keys_minted_def by blast
  then show ?thesis by (auto simp: keys_minted_def)
qed

lemma submit_preserves:
  assumes newId: "inj newId"
    and minted: "keys_minted newId n sent" and one: "one_body sent" and held: "key_held f sent"
    and ev: "\<forall>q\<in>set sent. list_all contract_evidence (sd_evidence (snd q))"
    and submit: "submit newId f n = (f', n', Some q)"
  shows "keys_minted newId n' (sent @ [q]) \<and> one_body (sent @ [q]) \<and> key_held f' (sent @ [q])"
proof -
  from submit_cases [OF submit] obtain body where body: "sendable f = Some body"
    "df_keyForRef f' = Some (signature body)"
    "if df_keyRef f \<noteq> None \<and> df_keyForRef f = Some (signature body)
     then n' = n \<and> df_keyRef f' = df_keyRef f \<and> q = (the (df_keyRef f), body)
     else n' = Suc n \<and> df_keyRef f' = Some (newId n) \<and> q = (newId n, body)"
    by (auto split: if_splits)
  note wf = contract_evidence_wf [OF sendable_evidence [OF body(1)]]
  show ?thesis
  proof (cases "df_keyRef f \<noteq> None \<and> df_keyForRef f = Some (signature body)")
    case True
    then obtain k where k: "df_keyRef f = Some k" by blast
    with True held obtain b where b: "signature body = signature b" "(k, b) \<in> set sent"
      by (auto simp: key_held_def)
    have "list_all wf_evidence (sd_evidence b)"
      using ev b(2) contract_evidence_wf by fastforce
    with wf b(1) have "b = body" using signature_inject by blast
    then have sent: "(k, body) \<in> set sent" using b(2) by simp
    then have "keys_minted newId n (sent @ [(k, body)])"
      using minted unfolding keys_minted_def by fastforce
    moreover have "q = (k, body)" "n' = n" "df_keyRef f' = Some k"
      using True k body(3) by auto
    ultimately show ?thesis
      using one_body_snoc [OF one] sent body(2) by (auto simp: key_held_def)
  next
    case False
    with body(3) have q: "q = (newId n, body)" "n' = Suc n" "df_keyRef f' = Some (newId n)"
      by auto
    show ?thesis
      using keys_minted_snoc [OF minted] one_body_snoc [OF one] fresh_key_unsent [OF newId minted] body(2)
      by (auto simp: q key_held_def)
  qed
qed

lemma runner_inv_step:
  assumes newId: "inj newId" and inv: "runner_inv newId r" and step: "runner_step newId r e = Some r'"
  shows "runner_inv newId r'"
proof (cases e)
  case Submit
  obtain f n q where s: "submit newId (rn_form r) (rn_minted r) = (f, n, q)"
    by (metis prod_cases3)
  have r': "r' = r\<lparr>rn_form := f, rn_minted := n, rn_sent := rn_sent r @ (case q of None \<Rightarrow> [] | Some q \<Rightarrow> [q])\<rparr>"
    using step Submit s by (auto split: if_splits)
  have edge: "df_edgeId f = df_edgeId (rn_form r)"
    using submit_cases [OF s] by auto
  show ?thesis
  proof (cases q)
    case None
    with submit_cases [OF s] have "n = rn_minted r" "df_keyRef f = df_keyRef (rn_form r)"
      "df_keyForRef f = df_keyForRef (rn_form r)" by (auto split: if_splits)
    with None inv edge show ?thesis by (simp add: runner_inv_def r' key_held_def)
  next
    case (Some p)
    with submit_cases [OF s] have "list_all contract_evidence (sd_evidence (snd p))"
      by (auto dest: sendable_evidence split: if_splits)
    with submit_preserves [OF newId _ _ _ _ s [unfolded Some], of "rn_sent r"] Some inv edge
    show ?thesis by (simp add: runner_inv_def r')
  qed
next
  case (Choose choice)
  with step obtain f c where "controls_enabled r" "choice \<in> set (iv_available_choices (rn_state r))"
    "chooseEdge (iv_current_node (rn_state r)) choice (rn_form r) (rn_counter r) = (f, c)"
    "r' = r\<lparr>rn_form := f, rn_counter := c\<rparr>"
    by (auto split: if_splits prod.splits)
  with inv chooseEdge_refs show ?thesis
    by (fastforce simp: runner_inv_def key_held_def)
next
  case (Landed st)
  with step inv show ?thesis
    by (auto simp: runner_inv_def key_held_def decision_landed_def split: if_splits)
qed (use step inv in \<open>auto simp: runner_inv_def key_held_def decision_failed_def split: if_splits prod.splits\<close>)

interpretation runner_keys: machine_invariant "runner_step newId" "\<lambda>_ _. True"
    "\<lambda>r. inj newId \<and> runner_inv newId r" for newId
  by unfold_locales (auto intro: runner_inv_step)

lemma runner_reach_inv: "runner_reach newId r0 r \<Longrightarrow> inj newId \<Longrightarrow> runner_inv newId r0 \<Longrightarrow> runner_inv newId r"
  using runner_keys.holds by blast


text \<open>What a step does to the log: nothing, or one more request, sent by \<open>submit\<close>.\<close>
lemma step_log:
  assumes "runner_step newId r e = Some r'"
  shows "rn_sent r' = rn_sent r
       \<or> (\<exists>k body f n. e = Submit \<and> submit newId (rn_form r) (rn_minted r) = (f, n, Some (k, body))
            \<and> form_shown r \<and> rn_form r' = f \<and> rn_sent r' = rn_sent r @ [(k, body)])"
proof (cases e)
  case Submit
  obtain f n q where s: "submit newId (rn_form r) (rn_minted r) = (f, n, q)"
    by (metis prod_cases3)
  with assms Submit show ?thesis by (cases q) (auto split: if_splits)
qed (use assms in \<open>auto split: if_splits prod.splits\<close>)

text \<open>Once the form holds no key, the keys of earlier requests are gone for good.\<close>
definition retired :: "(nat \<Rightarrow> uuid) \<Rightarrow> jstring set \<Rightarrow> runner \<Rightarrow> bool" where
  "retired newId old r \<longleftrightarrow>
     (\<forall>k\<in>old. \<exists>i<rn_minted r. k = newId i) \<and> (\<forall>k. df_keyRef (rn_form r) = Some k \<longrightarrow> k \<notin> old)"

lemma runner_step_refs:
  assumes "runner_step newId r e = Some r'" "e \<noteq> Submit"
  shows "rn_minted r' = rn_minted r
       \<and> (df_keyRef (rn_form r') = df_keyRef (rn_form r) \<or> df_keyRef (rn_form r') = None)"
  using assms
proof (cases e)
  case (Choose choice)
  with assms show ?thesis
    by (auto split: if_splits prod.splits dest: chooseEdge_refs)
qed (auto simp: decision_landed_def decision_failed_def split: if_splits prod.splits)

lemma retired_step:
  assumes newId: "inj newId" and old: "retired newId old r" and step: "runner_step newId r e = Some r'"
  shows "retired newId old r'"
    and "set (rn_sent r') \<subseteq> set (rn_sent r) \<union> {q. fst q \<notin> old}"
proof -
  have fresh: "newId (rn_minted r) \<notin> old"
    using old newId by (auto simp: retired_def dest: injD)
  have "retired newId old r' \<and> set (rn_sent r') \<subseteq> set (rn_sent r) \<union> {q. fst q \<notin> old}"
  proof (cases "e = Submit")
    case True
    obtain f n q where s: "submit newId (rn_form r) (rn_minted r) = (f, n, q)"
      by (metis prod_cases3)
    with step True have r': "rn_form r' = f" "rn_minted r' = n"
      "rn_sent r' = rn_sent r @ (case q of None \<Rightarrow> [] | Some q \<Rightarrow> [q])"
      by (auto split: if_splits)
    have minted: "\<forall>k\<in>old. \<exists>i<Suc (rn_minted r). k = newId i"
      using old less_SucI unfolding retired_def by blast
    show ?thesis
      using submit_cases [OF s] old fresh minted
      by (auto simp: retired_def r' split: if_splits)
  next
    case False
    with runner_step_refs [OF step] old have "retired newId old r'" by (auto simp: retired_def)
    with step_log [OF step] False show ?thesis by auto
  qed
  then show "retired newId old r'" "set (rn_sent r') \<subseteq> set (rn_sent r) \<union> {q. fst q \<notin> old}"
    by blast+
qed

lemma retired_reach:
  assumes "runner_reach newId r0 r" "inj newId" "retired newId old r0"
  shows "retired newId old r \<and> (\<exists>later. rn_sent r = rn_sent r0 @ later \<and> (\<forall>q\<in>set later. fst q \<notin> old))"
  using assms
proof (induction rule: reach.induct)
  case start
  then show ?case by simp
next
  case (more r e r')
  then obtain later where later: "rn_sent r = rn_sent r0 @ later" "\<forall>q\<in>set later. fst q \<notin> old"
    and r: "retired newId old r" by blast
  have "retired newId old r'" using retired_step(1) [OF more.prems(1) r more.hyps(2)] .
  moreover have "\<exists>later'. rn_sent r' = rn_sent r0 @ later' \<and> (\<forall>q\<in>set later'. fst q \<notin> old)"
    using step_log [OF more.hyps(2)]
  proof
    assume "rn_sent r' = rn_sent r"
    then show ?thesis using later by auto
  next
    assume "\<exists>k body f n. e = Submit \<and> submit newId (rn_form r) (rn_minted r) = (f, n, Some (k, body))
            \<and> form_shown r \<and> rn_form r' = f \<and> rn_sent r' = rn_sent r @ [(k, body)]"
    then obtain k body f n where s: "submit newId (rn_form r) (rn_minted r) = (f, n, Some (k, body))"
      and sent: "rn_sent r' = rn_sent r @ [(k, body)]" by blast
    have "newId (rn_minted r) \<notin> old"
      using r more.prems(1) by (auto simp: retired_def dest: injD)
    then have "k \<notin> old"
      using submit_cases [OF s] r by (auto simp: retired_def split: if_splits)
    then show ?thesis using later sent by (intro exI [of _ "later @ [(k, body)]"]) auto
  qed
  ultimately show ?case by blast
qed


section \<open>Executing a trace\<close>

lemma runner_run: "run_runner newId r es = Some r' \<Longrightarrow> runner_reach newId r r'"
  by (rule run_from_start) (simp_all add: list_all_iff)

text \<open>A two-choice question, for concrete instances.\<close>
definition sample_choice :: "string \<Rightarrow> string \<Rightarrow> available_choice" where
  "sample_choice e l = \<lparr>ch_edge_id = js e, ch_label = js l, ch_description = None, ch_to_node_id = js ''n2''\<rparr>"

definition sample_alert :: alert where
  "sample_alert = \<lparr>al_id = js ''a1'', al_external_id = None, al_alert_type = js ''t'', al_title = js ''A'',
     al_description = [], al_payload = [], al_occurred_at = [], al_created_at = []\<rparr>"

definition sample_state :: investigation_state where
  "sample_state =
     \<lparr>iv_id = js ''i1'', iv_alert = sample_alert, iv_playbook_version_id = js ''v1'', iv_status = InProgress,
      iv_current_node = g_nodes sample_graph ! 0,
      iv_available_choices = [sample_choice ''e1'' ''Yes'', sample_choice ''e2'' ''No''],
      iv_final_resolution = None, iv_started_at = [], iv_completed_at = None, iv_steps = []\<rparr>"

lemma no_suggestion: "suggestedDecision (js ''Known device?'') (js ''Yes'') = None"
  by (simp add: suggestedDecision_def DEMO_DECISIONS_def flip: js_append)

lemma sample_run:
  "\<exists>r. run_runner nat_text (initial_runner sample_state 0 0)
         [Choose (sample_choice ''e1'' ''Yes''), Submit] = Some r
       \<and> rn_sent r = [(nat_text 0, decision_body (js ''e1'') [] initial_form)]
       \<and> df_submitting (rn_form r) \<and> rn_minted r = 1 \<and> rn_state r = sample_state"
  by (simp add: initial_runner_def initial_form_def sample_state_def sample_graph_def sample_choice_def
      controls_enabled_def form_shown_def chooseEdge_def no_suggestion submit_def serializeEvidence_def
      idempotencyKeyFor_def decision_body_def Let_def)

lemma sample_retry:
  "\<exists>r. run_runner nat_text (initial_runner sample_state 0 0)
         [Choose (sample_choice ''e1'' ''Yes''), Submit, Failed (Aborted []), Submit] = Some r
       \<and> length (rn_sent r) = 2 \<and> fst (rn_sent r ! 0) = fst (rn_sent r ! 1)"
  by (simp add: initial_runner_def initial_form_def sample_state_def sample_graph_def sample_choice_def
      controls_enabled_def form_shown_def chooseEdge_def no_suggestion submit_def serializeEvidence_def
      idempotencyKeyFor_def decision_body_def Let_def decision_failed_def)

lemma sample_run_landed:
  "\<exists>r. run_runner nat_text (initial_runner sample_state 0 0)
         [Choose (sample_choice ''e1'' ''Yes''), Submit] = Some r
       \<and> runner_step nat_text r (Landed sample_state) = Some (r\<lparr>rn_form := decision_landed (rn_form r), rn_state := sample_state\<rparr>)"
  using sample_run by fastforce

section \<open>Properties\<close>

text \<open>C4. An idempotency key names one decision: in every run of the form, whatever is edited,
  retried or decided, two requests that carry the same key carry the same body, so the server
  never sees a key reused with different content.\<close>
theorem key_names_one_decision:
  assumes "inj newId" "runner_reach newId (initial_runner st c m) r"
    "p \<in> set (rn_sent r)" "q \<in> set (rn_sent r)" "fst p = fst q"
  shows "snd p = snd q"
  using runner_reach_inv [OF assms(2,1) runner_inv_initial] assms(3-5)
  unfolding runner_inv_def one_body_def by blast

theorem key_names_one_decision_witness:
  "\<exists>r. runner_reach nat_text (initial_runner sample_state 0 0) r \<and> length (rn_sent r) = 2
     \<and> fst (rn_sent r ! 0) = fst (rn_sent r ! 1) \<and> snd (rn_sent r ! 0) = snd (rn_sent r ! 1)"
proof -
  obtain r where r: "runner_reach nat_text (initial_runner sample_state 0 0) r"
    "length (rn_sent r) = 2" "fst (rn_sent r ! 0) = fst (rn_sent r ! 1)"
    using sample_retry runner_run by blast
  have "inj nat_text" by (simp add: inj_def)
  from key_names_one_decision [OF this r(1) _ _ r(3)] r show ?thesis by auto
qed

text \<open>C22. Submitting again after a failure, with nothing edited, repeats the very same request:
  same key, same body, and no new key is minted.\<close>
theorem retry_repeats_request:
  assumes "submit newId f n = (f', n', Some q)"
  shows "\<exists>f''. submit newId (decision_failed err f') n' = (f'', n', Some q)"
proof -
  from assms obtain e ev where f: "\<not> df_submitting f" "df_edgeId f = Some e" "e \<noteq> []"
    "serializeEvidence (df_evidence f) = Inr ev"
    by (auto simp: submit_def split: if_splits option.splits sum.splits)
  let ?f = "f\<lparr>df_evidenceErrors := [], df_submitting := True, df_error := None\<rparr>"
  let ?body = "decision_body e ev f"
  from assms f have key: "idempotencyKeyFor newId ?body ?f n = (fst q, f', n')" "snd q = ?body"
    by (auto simp: submit_def Let_def split: prod.splits)
  then have f': "df_keyRef f' = Some (fst q)" "df_keyForRef f' = Some (signature ?body)"
    "df_edgeId f' = df_edgeId f" "df_evidence f' = df_evidence f"
    "decision_body e ev (decision_failed err f') = ?body"
    by (auto simp: idempotencyKeyFor_def decision_body_def decision_failed_def split: option.splits if_splits)
  have "decision_body e ev (decision_failed err f'\<lparr>df_evidenceErrors := [], df_submitting := True, df_error := None\<rparr>) = ?body"
    using f'(5) by (simp add: decision_body_def decision_failed_def)
  then show ?thesis
    using f f' key(2) by (cases q) (simp add: submit_def decision_failed_def Let_def idempotencyKeyFor_def)
qed

theorem retry_repeats_request_witness:
  "\<exists>f f'' n q. submit nat_text (decision_failed (Aborted []) f) n = (f'', n, Some q)"
proof -
  let ?f = "initial_form\<lparr>df_edgeId := Some (js ''e1'')\<rparr>"
  obtain f' n' q where "submit nat_text ?f 0 = (f', n', Some q)"
    by (simp add: submit_def initial_form_def serializeEvidence_def idempotencyKeyFor_def Let_def)
  from retry_repeats_request [OF this, of "Aborted []"] show ?thesis by blast
qed

text \<open>C5. A decision that landed is never repeated: every request sent after it carries a key
  that no request before it carried, even when the same choice is made again.\<close>
theorem landed_keys_retired:
  assumes "inj newId" "runner_reach newId (initial_runner st c m) r"
    "runner_step newId r (Landed next) = Some r1" "runner_reach newId r1 r2"
  shows "\<exists>later. rn_sent r2 = rn_sent r @ later \<and> (\<forall>q\<in>set later. fst q \<notin> fst ` set (rn_sent r))"
proof -
  have "keys_minted newId (rn_minted r) (rn_sent r)"
    using runner_reach_inv [OF assms(2,1) runner_inv_initial] by (simp add: runner_inv_def)
  moreover have r1: "rn_sent r1 = rn_sent r" "rn_minted r1 = rn_minted r" "df_keyRef (rn_form r1) = None"
    using assms(3) by (auto simp: decision_landed_def split: if_splits)
  ultimately have "retired newId (fst ` set (rn_sent r)) r1"
    by (auto simp: retired_def keys_minted_def)
  from retired_reach [OF assms(4,1) this] show ?thesis by (simp add: r1)
qed

theorem landed_keys_retired_witness:
  "\<exists>r r1 later. runner_reach nat_text (initial_runner sample_state 0 0) r
     \<and> runner_step nat_text r (Landed sample_state) = Some r1
     \<and> rn_sent r1 = rn_sent r @ later \<and> (\<forall>q\<in>set later. fst q \<notin> fst ` set (rn_sent r))"
proof -
  obtain r r1 where r: "runner_reach nat_text (initial_runner sample_state 0 0) r"
    "runner_step nat_text r (Landed sample_state) = Some r1"
    using sample_run_landed runner_run by blast
  have "inj nat_text" by (simp add: inj_def)
  from landed_keys_retired [OF this r reach.start] r show ?thesis by blast
qed

lemma sample_submit:
  "\<exists>r r'. runner_reach nat_text (initial_runner sample_state 0 0) r
     \<and> runner_step nat_text r Submit = Some r' \<and> rn_sent r' \<noteq> rn_sent r \<and> rn_state r = sample_state"
proof -
  from sample_run obtain r' where r': "run_runner nat_text (initial_runner sample_state 0 0)
      [Choose (sample_choice ''e1'' ''Yes''), Submit] = Some r'" "rn_sent r' \<noteq> []" by fastforce
  then obtain r where r: "runner_step nat_text (initial_runner sample_state 0 0) (Choose (sample_choice ''e1'' ''Yes'')) = Some r"
    "runner_step nat_text r Submit = Some r'"
    by (auto simp del: runner_step.simps split: option.splits)
  then have reach: "runner_reach nat_text (initial_runner sample_state 0 0) r"
    by (rule_tac reach.more [OF reach.start]) (rule r(1), rule TrueI)
  moreover have "rn_sent r = []"
    using step_log [OF r(1)] by (auto simp: initial_runner_def)
  moreover have "rn_state r = sample_state"
    using r(1) by (auto simp: initial_runner_def split: if_splits prod.splits)
  ultimately show ?thesis using r(2) r'(2) by metis
qed

lemma sent_legal:
  assumes "inj newId" "runner_reach newId (initial_runner st c m) r"
    "runner_step newId r e = Some r'" "rn_sent r' \<noteq> rn_sent r"
  shows "iv_status (rn_state r) = InProgress \<and> \<not> df_submitting (rn_form r) \<and> df_submitting (rn_form r')
    \<and> (\<exists>key body. rn_sent r' = rn_sent r @ [(key, body)]
         \<and> sd_edge_id body \<in> ch_edge_id ` set (iv_available_choices (rn_state r))
         \<and> list_all contract_evidence (sd_evidence body))"
proof -
  have inv: "runner_inv newId r"
    by (rule runner_reach_inv [OF assms(2,1) runner_inv_initial])
  from step_log [OF assms(3)] assms(4) obtain k body f n
    where s: "submit newId (rn_form r) (rn_minted r) = (f, n, Some (k, body))" "form_shown r"
      "rn_form r' = f" "rn_sent r' = rn_sent r @ [(k, body)]" by blast
  from submit_cases [OF s(1)] have b: "sendable (rn_form r) = Some body" "df_submitting f"
    by (auto split: if_splits)
  then obtain x where x: "df_edgeId (rn_form r) = Some x" "sd_edge_id body = x" "\<not> df_submitting (rn_form r)"
    by (auto simp: sendable_def decision_body_def split: if_splits option.splits sum.splits)
  with inv s b sendable_evidence [OF b(1)] show ?thesis
    by (auto simp: runner_inv_def form_shown_def)
qed

text \<open>A request leaves the form only while the investigation is in progress and no other
  request is in flight; it selects one of the edges the server offered, and its evidence
  satisfies the published schema.\<close>
theorem requests_are_legal:
  assumes "inj newId" "runner_reach newId (initial_runner st c m) r"
    "runner_step newId r e = Some r'" "rn_sent r' \<noteq> rn_sent r"
  shows "iv_status (rn_state r) = InProgress \<and> \<not> df_submitting (rn_form r) \<and> df_submitting (rn_form r')
    \<and> (\<exists>key body. rn_sent r' = rn_sent r @ [(key, body)]
         \<and> sd_edge_id body \<in> ch_edge_id ` set (iv_available_choices (rn_state r))
         \<and> list_all contract_evidence (sd_evidence body))"
  using assms by (rule sent_legal)

theorem requests_are_legal_witness:
  "\<exists>r r'. runner_reach nat_text (initial_runner sample_state 0 0) r
     \<and> runner_step nat_text r Submit = Some r' \<and> rn_sent r' \<noteq> rn_sent r \<and> df_submitting (rn_form r')"
proof -
  obtain r r' where r: "runner_reach nat_text (initial_runner sample_state 0 0) r"
    "runner_step nat_text r Submit = Some r'" "rn_sent r' \<noteq> rn_sent r"
    using sample_submit by blast
  have "inj nat_text" by (simp add: inj_def)
  from requests_are_legal [OF this r] r show ?thesis by blast
qed

text \<open>Choosing an answer never overwrites what the analyst has typed: with a rationale or an
  evidence row present, only the choice and the stale error change.\<close>
theorem choosing_keeps_typed_text:
  assumes "trim (df_rationale f) \<noteq> [] \<or> df_evidence f \<noteq> []"
  shows "chooseEdge node choice f counter
           = (f\<lparr>df_edgeId := Some (ch_edge_id choice), df_error := None\<rparr>, counter)"
  using assms by (auto simp: chooseEdge_def Let_def split: option.split)

theorem choosing_keeps_typed_text_witness:
  "chooseEdge (g_nodes sample_graph ! 0) (sample_choice ''e1'' ''Yes'') (initial_form\<lparr>df_rationale := js ''why''\<rparr>) 3
     = (initial_form\<lparr>df_rationale := js ''why'', df_edgeId := Some (js ''e1'')\<rparr>, 3)"
  by (subst choosing_keeps_typed_text)
    (simp_all add: sample_choice_def initial_form_def trim_js strip_def blank_char_def)

end
