(* ===== verification/Search.thy ===== *)
theory Search
  imports Uri
begin

text \<open>
  \<open>URLSearchParams\<close>, which the screens keep their selection in: the string it writes to the
  address bar (\<open>application/x-www-form-urlencoded\<close>: UTF-8 bytes, \<open>+\<close> for a space, percent
  escapes for the rest, a lone surrogate replaced) and the reading of such a string, which is
  shown to invert the writing.
\<close>

section \<open>Writing\<close>

text \<open>Letters, digits and \<open>* - . _\<close>.\<close>
definition form_safe :: "jchar \<Rightarrow> bool" where
  "form_safe c \<longleftrightarrow>
     (65 \<le> c \<and> c \<le> 90) \<or> (97 \<le> c \<and> c \<le> 122) \<or> (48 \<le> c \<and> c \<le> 57) \<or> c \<in> {42, 45, 46, 95}"

fun scalar_values :: "jstring \<Rightarrow> nat list" where
  "scalar_values [] = []"
| "scalar_values [c] = [if is_high c \<or> is_low c then 0xFFFD else unat c]"
| "scalar_values (c # d # r) =
     (if is_high c \<and> is_low d then join_surrogates c d # scalar_values r
      else (if is_high c \<or> is_low c then 0xFFFD else unat c) # scalar_values (d # r))"

definition form_byte :: "nat \<Rightarrow> jstring" where
  "form_byte b =
     (if b = 32 then [43] else if b < 0x80 \<and> form_safe (of_nat b) then [of_nat b] else percent b)"

definition form_text :: "jstring \<Rightarrow> jstring" where
  "form_text s = concat (map form_byte (concat (map utf8 (scalar_values s))))"

type_synonym search_params = "(jstring \<times> jstring) list"

definition search_string :: "search_params \<Rightarrow> jstring" where
  "search_string kvs = join_with [38] (map (\<lambda>(k, v). form_text k @ 61 # form_text v) kvs)"

text \<open>\<open>set\<close>: the first pair of that name takes the value, any other is dropped.\<close>
fun set_param :: "jstring \<Rightarrow> jstring \<Rightarrow> search_params \<Rightarrow> search_params" where
  "set_param k v [] = [(k, v)]"
| "set_param k v ((k', v') # r) =
     (if k' = k then (k, v) # filter (\<lambda>(k', _). k' \<noteq> k) r else (k', v') # set_param k v r)"

section \<open>Reading\<close>

definition read_text :: "jstring \<Rightarrow> jstring option" where
  "read_text t = decode_uri (map (\<lambda>c. if c = 43 then 32 else c) t)"

text \<open>A piece is cut at its first \<open>=\<close>.\<close>
definition read_pair :: "jstring \<Rightarrow> (jstring \<times> jstring) option" where
  "read_pair t =
     (case (read_text (takeWhile (\<lambda>c. c \<noteq> 61) t), read_text (drop 1 (dropWhile (\<lambda>c. c \<noteq> 61) t))) of
        (Some k, Some v) \<Rightarrow> Some (k, v) | _ \<Rightarrow> None)"

fun read_pairs :: "jstring list \<Rightarrow> search_params option" where
  "read_pairs [] = Some []"
| "read_pairs (t # ts) =
     (case (read_pair t, read_pairs ts) of (Some kv, Some kvs) \<Rightarrow> Some (kv # kvs) | _ \<Rightarrow> None)"

definition read_search :: "jstring \<Rightarrow> search_params option" where
  "read_search t = read_pairs (filter (\<lambda>p. p \<noteq> []) (split_on 38 t))"

text \<open>What \<open>useSearchParams\<close> holds at an address.\<close>
definition address_params :: "jstring \<Rightarrow> search_params option" where
  "address_params href = read_search (drop 1 (dropWhile (\<lambda>c. c \<noteq> 63) href))"

section \<open>The round trip\<close>

text \<open>UTF-16 without lone surrogates, as every id and every text typed in is.\<close>
definition well_formed :: "jstring \<Rightarrow> bool" where
  "well_formed s \<longleftrightarrow> code_points s \<noteq> None"

lemma scalar_values_points: "code_points s = Some ps \<Longrightarrow> scalar_values s = ps"
  by (induction s arbitrary: ps rule: code_points.induct) (auto split: if_splits)

lemma well_formed_plain: "list_all unreserved s \<Longrightarrow> well_formed s"
  by (simp add: well_formed_def code_points_plain)

definition unplus :: "jchar \<Rightarrow> jchar" where
  "unplus c = (if c = 43 then 32 else c)"

lemma percent_unplus: "b < 256 \<Longrightarrow> map unplus (percent b) = percent b"
proof -
  assume "b < 256"
  then have "unreserved (upper_hex (b div 16))" "unreserved (upper_hex (b mod 16))"
    by (simp_all add: upper_hex_unreserved)
  moreover have "\<not> unreserved 43" by (simp add: unreserved_def)
  ultimately show ?thesis by (auto simp: percent_def unplus_def)
qed

lemma form_safe_plain: "form_safe c \<Longrightarrow> c \<noteq> 43 \<and> c \<noteq> 37 \<and> c \<noteq> 38 \<and> c \<noteq> 61"
  by (auto simp: form_safe_def)

lemma bytes_form_byte:
  assumes "b < 256"
  shows "percent_bytes (map unplus (form_byte b) @ r) = map_option (Cons b) (percent_bytes r)"
proof -
  consider "b = 32" | "b \<noteq> 32" "b < 0x80" "form_safe (of_nat b)"
    | "b \<noteq> 32" "\<not> (b < 0x80 \<and> form_safe (of_nat b))"
    by blast
  then show ?thesis
  proof cases
    case 1
    then show ?thesis by (simp add: form_byte_def unplus_def)
  next
    case 2
    then have "unat (of_nat b :: jchar) = b" by (intro unat_of_nat_jchar) simp
    with 2 form_safe_plain [OF 2(3)] show ?thesis by (simp add: form_byte_def unplus_def)
  next
    case 3
    then have "form_byte b = percent b" unfolding form_byte_def by presburger
    with assms percent_unplus show ?thesis by simp
  qed
qed

lemma bytes_form_bytes:
  "list_all (\<lambda>b. b < 256) bs \<Longrightarrow> percent_bytes (map unplus (concat (map form_byte bs))) = Some bs"
proof (induction bs)
  case (Cons b bs)
  then show ?case by (simp add: bytes_form_byte)
qed simp

lemma read_form_text:
  assumes "well_formed s"
  shows "read_text (form_text s) = Some s"
proof -
  obtain ps where ps: "code_points s = Some ps" using assms by (auto simp: well_formed_def)
  then have small: "list_all (\<lambda>n. n < 0x110000) ps" and whole: "concat (map utf16 ps) = s"
    using code_points_decode [OF ps] by simp_all
  have "list_all (\<lambda>b. b < 256) (concat (map utf8 ps))"
    using small utf8_bytes by (fastforce simp: list_all_iff)
  from bytes_form_bytes [OF this] utf8_points_points [OF small] whole show ?thesis
    by (simp add: read_text_def decode_uri_def form_text_def scalar_values_points [OF ps] flip: unplus_def)
qed

lemma form_byte_chars: "b < 256 \<Longrightarrow> 38 \<notin> set (form_byte b) \<and> 61 \<notin> set (form_byte b)"
proof -
  assume "b < 256"
  then have "unreserved (upper_hex (b div 16))" "unreserved (upper_hex (b mod 16))"
    by (simp_all add: upper_hex_unreserved)
  moreover have "\<not> unreserved 38" "\<not> unreserved 61" by (simp_all add: unreserved_def)
  ultimately show ?thesis using form_safe_plain [of "of_nat b"] by (auto simp: form_byte_def percent_def)
qed

lemma form_text_chars:
  assumes "well_formed s"
  shows "38 \<notin> set (form_text s)" "61 \<notin> set (form_text s)"
proof -
  obtain ps where ps: "code_points s = Some ps" using assms by (auto simp: well_formed_def)
  then have "list_all (\<lambda>b. b < 256) (concat (map utf8 ps))"
    using code_points_decode [OF ps] utf8_bytes by (fastforce simp: list_all_iff)
  with form_byte_chars show "38 \<notin> set (form_text s)" "61 \<notin> set (form_text s)"
    by (fastforce simp: form_text_def scalar_values_points [OF ps] list_all_iff)+
qed

lemma read_pair_text:
  assumes "well_formed k" "well_formed v"
  shows "read_pair (form_text k @ 61 # form_text v) = Some (k, v)"
proof -
  have "takeWhile (\<lambda>c. c \<noteq> 61) (form_text k @ 61 # form_text v) = form_text k"
    "dropWhile (\<lambda>c. c \<noteq> 61) (form_text k @ 61 # form_text v) = 61 # form_text v"
    using form_text_chars(2) [OF assms(1)] by (subst takeWhile_append2 dropWhile_append2; auto)+
  with assms show ?thesis by (simp add: read_pair_def read_form_text)
qed

lemma read_search_string:
  assumes "kvs \<noteq> []" "list_all (\<lambda>(k, v). well_formed k \<and> well_formed v) kvs"
  shows "read_search (search_string kvs) = Some kvs"
proof -
  let ?piece = "\<lambda>(k, v). form_text k @ 61 # form_text v"
  have "list_all (\<lambda>p. 38 \<notin> set p) (map ?piece kvs)"
    using assms(2) form_text_chars(1) by (fastforce simp: list_all_iff)
  then have "split_on 38 (search_string kvs) = map ?piece kvs"
    unfolding search_string_def using assms(1) by (intro split_on_join) simp_all
  moreover have "filter (\<lambda>p. p \<noteq> []) (map ?piece kvs) = map ?piece kvs"
    by (rule filter_True) auto
  moreover have "read_pairs (map ?piece kvs) = Some kvs"
    using assms(2) by (induction kvs) (auto simp: read_pair_text)
  ultimately show ?thesis by (simp add: read_search_def)
qed

definition href_with :: "jstring \<Rightarrow> search_params \<Rightarrow> jstring" where
  "href_with path kvs = (if kvs = [] then path else path @ 63 # search_string kvs)"

lemma address_params_href:
  assumes "63 \<notin> set path" "list_all (\<lambda>(k, v). well_formed k \<and> well_formed v) kvs"
  shows "address_params (href_with path kvs) = Some kvs"
proof -
  have plain: "dropWhile (\<lambda>c. c \<noteq> 63) path = []"
    using assms(1) by (simp only: dropWhile_eq_Nil_conv) blast
  then have cut: "dropWhile (\<lambda>c. c \<noteq> 63) (path @ 63 # r) = 63 # r" for r
    by (simp add: dropWhile_append dropWhile_eq_Nil_conv)
  show ?thesis
    using read_search_string [OF _ assms(2)]
    by (cases "kvs = []") (simp_all add: address_params_def href_with_def read_search_def plain cut)
qed

end
