(* ===== verification/Format.thy ===== *)
theory Format
  imports Types
begin

text \<open>
  \<open>frontend/src/lib/format.ts\<close> and \<open>components/StatusChips.tsx\<close>: display helpers. The host's
  \<open>Date\<close> and \<open>Intl.DateTimeFormat\<close> are parameters: a reader from text to milliseconds (\<open>None\<close>
  is an invalid date) and a formatter.
\<close>

section \<open>Helpers\<close>

definition ellipsis :: jstring where "ellipsis = [0x2026]"

text \<open>\<open>s.slice(a, b)\<close> for indices from the start, and \<open>s.slice(-n)\<close>.\<close>
definition slice_from_end :: "nat \<Rightarrow> jstring \<Rightarrow> jstring" where
  "slice_from_end n s = drop (length s - n) s"

definition shortId :: "jstring option \<Rightarrow> jstring" where
  "shortId id' =
     (case id' of
        None \<Rightarrow> em_dash
      | Some s \<Rightarrow>
          if s = [] then em_dash
          else if length s \<le> 13 then s
          else take 8 s @ ellipsis @ slice_from_end 4 s)"

text \<open>\<open>text.replace(",", "")\<close>: the first comma only.\<close>
fun drop_comma :: "jstring \<Rightarrow> jstring" where
  "drop_comma [] = []"
| "drop_comma (c # s) = (if c = 44 then s else c # drop_comma s)"

definition timestamp :: "(jstring \<Rightarrow> int option) \<Rightarrow> (int \<Rightarrow> jstring) \<Rightarrow> jstring option \<Rightarrow> jstring" where
  "timestamp date fmt moment =
     (case moment of
        None \<Rightarrow> em_dash
      | Some s \<Rightarrow>
          if s = [] then em_dash
          else case date s of None \<Rightarrow> s | Some ms \<Rightarrow> drop_comma (fmt ms) @ js '' UTC'')"

text \<open>\<open>Math.round(ms / 1000)\<close> of a non-negative count of milliseconds: halves go up.\<close>
definition round_seconds :: "int \<Rightarrow> int" where
  "round_seconds ms = (ms + 500) div 1000"

definition int_text :: "int \<Rightarrow> jstring" where
  "int_text n = nat_text (nat n)"

definition duration :: "(jstring \<Rightarrow> int option) \<Rightarrow> jstring \<Rightarrow> jstring option \<Rightarrow> jstring option" where
  "duration date from to =
     (case to of
        None \<Rightarrow> None
      | Some t \<Rightarrow>
          if t = [] then None
          else case (date t, date from) of
            (Some b, Some a) \<Rightarrow>
              let ms = b - a
              in if ms < 0 then None
                 else let seconds = round_seconds ms
                 in if seconds < 60 then Some (int_text seconds @ js ''s'')
                    else let minutes = seconds div 60
                    in if minutes < 60
                       then Some (int_text minutes @ js ''m '' @ int_text (seconds mod 60) @ js ''s'')
                       else Some (int_text (minutes div 60) @ js ''h '' @ int_text (minutes mod 60) @ js ''m'')
          | _ \<Rightarrow> None)"

definition is_token_sep :: "jchar \<Rightarrow> bool" where
  "is_token_sep c \<longleftrightarrow> c = 95 \<or> c = 45"

text \<open>\<open>token.replace(/[_-]+/g, " ")\<close>: each run of separators becomes one space.\<close>
fun spaced_token :: "bool \<Rightarrow> jstring \<Rightarrow> jstring" where
  "spaced_token in_run [] = []"
| "spaced_token in_run (c # s) =
     (if is_token_sep c then (if in_run then spaced_token True s else 32 # spaced_token True s)
      else c # spaced_token False s)"

text \<open>\<open>toUpperCase\<close> and \<open>toLowerCase\<close> are the host's outside ASCII; tokens are ASCII.\<close>
definition ascii_upper :: "jchar \<Rightarrow> jchar" where
  "ascii_upper c = (if 97 \<le> c \<and> c \<le> 122 then c - 32 else c)"

definition ascii_lower :: "jchar \<Rightarrow> jchar" where
  "ascii_lower c = (if 65 \<le> c \<and> c \<le> 90 then c + 32 else c)"

definition humanizeToken :: "jstring \<Rightarrow> jstring" where
  "humanizeToken token =
     (let spaced = trim (spaced_token False token)
      in (case spaced of [] \<Rightarrow> [] | c # _ \<Rightarrow> [ascii_upper c]) @ drop 1 spaced)"

datatype disposition = Close | Escalate | Contain | Neutral

text \<open>\<open>resolution.split(/[_-]/, 1)[0].toLowerCase()\<close>.\<close>
definition token_head :: "jstring \<Rightarrow> jstring" where
  "token_head s = map ascii_lower (takeWhile (\<lambda>c. \<not> is_token_sep c) s)"

definition dispositionOf :: "jstring option \<Rightarrow> disposition" where
  "dispositionOf resolution =
     (case resolution of
        None \<Rightarrow> Neutral
      | Some s \<Rightarrow>
          if s = [] then Neutral
          else let head = token_head s
          in if head = js ''close'' then Close
             else if head = js ''escalate'' then Escalate
             else if head = js ''contain'' \<or> head = js ''isolate'' then Contain
             else Neutral)"

definition prettyJson :: "json \<Rightarrow> jstring" where
  "prettyJson v = stringify_indented v"

section \<open>Chips\<close>

datatype tone = Tone_Neutral | Tone_Signal | Tone_Clear | Tone_Hold | Tone_Alarm

fun version_tone :: "version_status \<Rightarrow> tone" where
  "version_tone Draft = Tone_Hold"
| "version_tone Published = Tone_Clear"
| "version_tone Archived = Tone_Neutral"

fun investigation_tone :: "investigation_status \<Rightarrow> tone" where
  "investigation_tone InProgress = Tone_Hold"
| "investigation_tone Completed = Tone_Clear"

fun investigation_chip :: "investigation_status \<Rightarrow> jstring" where
  "investigation_chip InProgress = js ''in progress''"
| "investigation_chip Completed = js ''completed''"

fun disposition_tone :: "disposition \<Rightarrow> tone" where
  "disposition_tone Close = Tone_Clear"
| "disposition_tone Escalate = Tone_Hold"
| "disposition_tone Contain = Tone_Alarm"
| "disposition_tone Neutral = Tone_Neutral"

definition resolutionTone :: "jstring option \<Rightarrow> tone" where
  "resolutionTone resolution = disposition_tone (dispositionOf resolution)"

section \<open>Lemmas\<close>

lemma shortId_length: "length (shortId id') \<le> 13"
  by (auto simp: shortId_def em_dash_def ellipsis_def slice_from_end_def split: option.split)

lemma shortId_ends:
  assumes "length s > 13"
  shows "take 8 (shortId (Some s)) = take 8 s" "slice_from_end 4 (shortId (Some s)) = slice_from_end 4 s"
  using assms by (auto simp: shortId_def slice_from_end_def ellipsis_def)

text \<open>Reading a duration back.\<close>
lemma round_seconds_near: "\<bar>1000 * round_seconds ms - ms\<bar> \<le> 500"
proof -
  define q r where "q = (ms + 500) div 1000" and "r = (ms + 500) mod 1000"
  have "ms + 500 = 1000 * q + r" "0 \<le> r" "r < 1000"
    unfolding q_def r_def by (rule mult_div_mod_eq [symmetric]) simp_all
  then have "\<bar>1000 * q - ms\<bar> \<le> 500" by (auto simp: abs_le_iff)
  then show ?thesis unfolding round_seconds_def q_def [symmetric] .
qed

lemma spaced_no_sep: "c \<in> set (spaced_token b s) \<Longrightarrow> \<not> is_token_sep c"
  by (induction b s rule: spaced_token.induct) (auto simp: is_token_sep_def split: if_splits)

lemma ascii_upper_not_sep: "\<not> is_token_sep c \<Longrightarrow> \<not> is_token_sep (ascii_upper c)"
proof -
  assume c: "\<not> is_token_sep c"
  show ?thesis
  proof (cases "97 \<le> c \<and> c \<le> 122")
    case True
    have "c - 32 \<noteq> 95" "c - 32 \<noteq> 45"
    proof -
      show "c - 32 \<noteq> 95"
      proof
        assume "c - 32 = 95"
        then have "c = 127" by (simp add: diff_eq_eq)
        with True show False by simp
      qed
      show "c - 32 \<noteq> 45"
      proof
        assume "c - 32 = 45"
        then have "c = 77" by (simp add: diff_eq_eq)
        with True show False by simp
      qed
    qed
    with True show ?thesis by (simp add: ascii_upper_def is_token_sep_def)
  next
    case False
    then have "ascii_upper c = c" by (auto simp: ascii_upper_def)
    with c show ?thesis by simp
  qed
qed

lemma set_trim: "c \<in> set (trim s) \<Longrightarrow> c \<in> set s"
  by (auto simp: trim_def trim_start_def dest!: set_dropWhileD)

lemma humanize_no_sep: "c \<in> set (humanizeToken token) \<Longrightarrow> \<not> is_token_sep c"
proof -
  assume c: "c \<in> set (humanizeToken token)"
  let ?t = "trim (spaced_token False token)"
  have t: "x \<in> set ?t \<Longrightarrow> \<not> is_token_sep x" for x
    using set_trim spaced_no_sep by blast
  from c t show ?thesis
    by (cases ?t) (auto simp: humanizeToken_def ascii_upper_not_sep)
qed

section \<open>Properties\<close>

text \<open>A short id never exceeds 13 characters, shows a short one whole, and of a longer one
  keeps the first eight and the last four, so two ids are confused only if these agree.\<close>
theorem short_id_bounded:
  "length (shortId id') \<le> 13
   \<and> (case id' of None \<Rightarrow> shortId id' = em_dash
      | Some s \<Rightarrow> s = [] \<or> (if length s \<le> 13 then shortId id' = s
          else take 8 (shortId id') = take 8 s \<and> slice_from_end 4 (shortId id') = slice_from_end 4 s))"
  using shortId_length [of id'] shortId_ends
  by (auto simp: shortId_def split: option.split)

text \<open>A duration is shown exactly when both instants are valid and in order; its parts are
  within their ranges and add up to the elapsed time, to the nearest second, or to the minute
  from an hour on.\<close>
theorem duration_decomposes:
  assumes "date from = Some a" "date to = Some b" "to \<noteq> []" "a \<le> b"
  shows "let seconds = round_seconds (b - a) in
    \<bar>1000 * seconds - (b - a)\<bar> \<le> 500
    \<and> (\<exists>h m s. 0 \<le> h \<and> 0 \<le> m \<and> m < 60 \<and> 0 \<le> s \<and> s < 60 \<and> seconds = 3600 * h + 60 * m + s
        \<and> duration date from (Some to) =
            Some (if h = 0 \<and> m = 0 then int_text s @ js ''s''
                  else if h = 0 then int_text m @ js ''m '' @ int_text s @ js ''s''
                  else int_text h @ js ''h '' @ int_text m @ js ''m''))"
proof -
  define seconds where "seconds = round_seconds (b - a)"
  have pos: "0 \<le> seconds" using assms(4) by (simp add: seconds_def round_seconds_def)
  define m h where "m = seconds div 60 mod 60" and "h = seconds div 60 div 60"
  have "seconds = 60 * (seconds div 60) + seconds mod 60" "seconds div 60 = 60 * h + m"
    unfolding m_def h_def by (rule mult_div_mod_eq [symmetric])+
  then have sum: "seconds = 3600 * h + 60 * m + seconds mod 60" by linarith
  have parts: "0 \<le> h" "0 \<le> m" "m < 60" "0 \<le> seconds mod 60" "seconds mod 60 < 60"
    using pos by (simp_all add: m_def h_def pos_imp_zdiv_nonneg_iff)
  have hm: "h = 0 \<longleftrightarrow> seconds div 60 < 60" "h = 0 \<Longrightarrow> m = seconds div 60"
    "h = 0 \<and> m = 0 \<longleftrightarrow> seconds < 60" "seconds < 60 \<Longrightarrow> seconds mod 60 = seconds"
    using pos by (auto simp: h_def m_def)
  have "duration date from (Some to) =
      Some (if h = 0 \<and> m = 0 then int_text (seconds mod 60) @ js ''s''
            else if h = 0 then int_text m @ js ''m '' @ int_text (seconds mod 60) @ js ''s''
            else int_text h @ js ''h '' @ int_text m @ js ''m'')"
    using assms hm by (auto simp: duration_def Let_def seconds_def [symmetric] m_def [symmetric] h_def [symmetric])
  moreover have "\<bar>1000 * seconds - (b - a)\<bar> \<le> 500"
    unfolding seconds_def by (rule round_seconds_near)
  ultimately show ?thesis
    using parts sum unfolding seconds_def [symmetric] Let_def by blast
qed

theorem duration_decomposes_witness:
  "let date = (\<lambda>t. Some (if t = js ''a'' then 1000 else 253400 :: int)); seconds = round_seconds (253400 - 1000) in
    \<bar>1000 * seconds - (253400 - 1000)\<bar> \<le> 500
    \<and> (\<exists>h m s. 0 \<le> h \<and> 0 \<le> m \<and> m < 60 \<and> 0 \<le> s \<and> s < 60 \<and> seconds = 3600 * h + 60 * m + s
        \<and> duration date (js ''a'') (Some (js ''b'')) =
            Some (if h = 0 \<and> m = 0 then int_text s @ js ''s''
                  else if h = 0 then int_text m @ js ''m '' @ int_text s @ js ''s''
                  else int_text h @ js ''h '' @ int_text m @ js ''m''))"
  unfolding Let_def
  by (rule duration_decomposes [unfolded Let_def]) simp_all

text \<open>A resolution token is shown to people without its separators.\<close>
theorem humanized_has_no_separator: "set (humanizeToken token) \<inter> {95, 45} = {}"
  using humanize_no_sep [of _ token] by (auto simp: is_token_sep_def)

end
