(* ===== verification/Sorting.thy ===== *)
theory Sorting
  imports Prelude "HOL-Library.Multiset"
begin

text \<open>
  \<open>Array.prototype.sort\<close> with a comparator, which ECMA-262 requires to be stable, and
  the interface its callers rely on: a consistent comparator. The console sorts by
  numeric differences and by lexicographic chains \<open>c1(a,b) || c2(a,b)\<close>; both are
  comparators when their parts are, and a sort by a comparator that separates the
  elements forgets the order of its input.
\<close>

section \<open>A stable sort by a comparator\<close>

fun insert_by :: "('a \<Rightarrow> 'a \<Rightarrow> int) \<Rightarrow> 'a \<Rightarrow> 'a list \<Rightarrow> 'a list" where
  "insert_by cmp x [] = [x]"
| "insert_by cmp x (y # ys) = (if cmp x y \<le> 0 then x # y # ys else y # insert_by cmp x ys)"

definition sort_by :: "('a \<Rightarrow> 'a \<Rightarrow> int) \<Rightarrow> 'a list \<Rightarrow> 'a list" where
  "sort_by cmp xs = foldr (insert_by cmp) xs []"

lemma sort_by_simps [simp]:
  "sort_by cmp [] = []" "sort_by cmp (x # xs) = insert_by cmp x (sort_by cmp xs)"
  by (simp_all add: sort_by_def)

lemma mset_insert_by [simp]: "mset (insert_by cmp x xs) = add_mset x (mset xs)"
  by (induction xs) auto

lemma mset_sort_by [simp]: "mset (sort_by cmp xs) = mset xs"
  by (induction xs) auto

lemma set_insert_by [simp]: "set (insert_by cmp x xs) = insert x (set xs)"
  by (induction xs) auto

lemma set_sort_by [simp]: "set (sort_by cmp xs) = set xs"
  by (induction xs) auto

lemma length_sort_by [simp]: "length (sort_by cmp xs) = length xs"
  by (metis mset_sort_by size_mset)

lemma sort_by_eq_Nil [simp]: "sort_by cmp xs = [] \<longleftrightarrow> xs = []"
  by (metis length_0_conv length_sort_by)

text \<open>\<open>c1(a, b) || c2(a, b)\<close>: the second comparator decides the first one's ties.\<close>
definition then_by :: "('a \<Rightarrow> 'a \<Rightarrow> int) \<Rightarrow> ('a \<Rightarrow> 'a \<Rightarrow> int) \<Rightarrow> 'a \<Rightarrow> 'a \<Rightarrow> int" where
  "then_by c d a b = (if c a b \<noteq> 0 then c a b else d a b)"

text \<open>A comparator on a key, as in \<open>(a, b) => a.k - b.k\<close> or \<open>a.k.localeCompare(b.k)\<close>.\<close>
definition on_key :: "('a \<Rightarrow> 'k) \<Rightarrow> ('k \<Rightarrow> 'k \<Rightarrow> int) \<Rightarrow> 'a \<Rightarrow> 'a \<Rightarrow> int" where
  "on_key k c a b = c (k a) (k b)"

definition num_cmp :: "int \<Rightarrow> int \<Rightarrow> int" where
  "num_cmp a b = a - b"

section \<open>The comparator interface\<close>

locale comparator =
  fixes cmp :: "'a \<Rightarrow> 'a \<Rightarrow> int"
  assumes cmp_sym: "cmp y x \<le> 0 \<longleftrightarrow> 0 \<le> cmp x y"
    and cmp_trans: "cmp x y \<le> 0 \<Longrightarrow> cmp y z \<le> 0 \<Longrightarrow> cmp x z \<le> 0"
begin

lemma refl: "cmp x x = 0"
proof -
  have "cmp x x \<le> 0 \<or> 0 \<le> cmp x x" by linarith
  then show ?thesis using cmp_sym [of x x] by linarith
qed

lemma total: "cmp x y \<le> 0 \<or> cmp y x \<le> 0"
  using cmp_sym [of y x] by linarith

lemma zero_sym: "cmp x y = 0 \<longleftrightarrow> cmp y x = 0"
  using cmp_sym [of x y] cmp_sym [of y x] by linarith

lemma less_sym: "cmp x y < 0 \<longleftrightarrow> 0 < cmp y x"
  using cmp_sym [of x y] cmp_sym [of y x] by linarith

text \<open>Elements that tie compare alike against every third element.\<close>
lemma tie_cong:
  assumes "cmp x y = 0"
  shows "cmp x z \<le> 0 \<longleftrightarrow> cmp y z \<le> 0" and "cmp z x \<le> 0 \<longleftrightarrow> cmp z y \<le> 0"
  using assms zero_sym [of x y] cmp_trans [of x y z] cmp_trans [of y x z]
    cmp_trans [of z x y] cmp_trans [of z y x] by auto

lemma sorted_insert:
  "sorted_wrt (\<lambda>a b. cmp a b \<le> 0) xs \<Longrightarrow> sorted_wrt (\<lambda>a b. cmp a b \<le> 0) (insert_by cmp x xs)"
proof (induction xs)
  case Nil
  then show ?case by simp
next
  case (Cons y ys)
  then show ?case
    using total [of x y] by (auto intro: cmp_trans)
qed

lemma sorted_sort: "sorted_wrt (\<lambda>a b. cmp a b \<le> 0) (sort_by cmp xs)"
  by (induction xs) (auto intro: sorted_insert)

text \<open>An array already in order is left as it is.\<close>
lemma sort_sorted: "sorted_wrt (\<lambda>a b. cmp a b \<le> 0) xs \<Longrightarrow> sort_by cmp xs = xs"
proof (induction xs)
  case Nil
  then show ?case by simp
next
  case (Cons x xs)
  then show ?case by (cases xs) auto
qed

text \<open>
  When only an element itself ties with it, the sorted array is a function of the
  multiset of elements: the order they arrived in does not matter.
\<close>
lemma sorted_unique:
  assumes "sorted_wrt (\<lambda>a b. cmp a b \<le> 0) xs" and "sorted_wrt (\<lambda>a b. cmp a b \<le> 0) ys"
    and "mset xs = mset ys"
    and "\<And>a b. a \<in> set xs \<Longrightarrow> b \<in> set xs \<Longrightarrow> cmp a b = 0 \<Longrightarrow> a = b"
  shows "xs = ys"
  using assms
proof (induction xs arbitrary: ys)
  case Nil
  then show ?case by simp
next
  case (Cons x xs)
  then obtain y ys' where ys: "ys = y # ys'" by (cases ys) auto
  have sets: "set (x # xs) = set ys"
    using Cons.prems(3) by (metis set_mset_mset)
  have "x = y"
  proof (rule ccontr)
    assume "x \<noteq> y"
    with sets ys have mem: "x \<in> set ys'" "y \<in> set xs" by auto
    with Cons.prems(1,2) ys have "cmp x y \<le> 0" "cmp y x \<le> 0" by auto
    then have "cmp x y = 0" using cmp_sym [of y x] by linarith
    with Cons.prems(4) [of x y] mem \<open>x \<noteq> y\<close> show False by auto
  qed
  moreover have "xs = ys'"
    using Cons.prems ys \<open>x = y\<close> by (intro Cons.IH) auto
  ultimately show ?case using ys by simp
qed

lemma sort_permutation:
  assumes "mset xs = mset ys"
    and "\<And>a b. a \<in> set xs \<Longrightarrow> b \<in> set xs \<Longrightarrow> cmp a b = 0 \<Longrightarrow> a = b"
  shows "sort_by cmp xs = sort_by cmp ys"
  using assms by (intro sorted_unique sorted_sort) auto

end

text \<open>A comparator that moreover separates distinct elements.\<close>
locale separating_comparator = comparator +
  assumes cmp_zero: "cmp x y = 0 \<Longrightarrow> x = y"
begin

lemma sort_perm: "mset xs = mset ys \<Longrightarrow> sort_by cmp xs = sort_by cmp ys"
  by (rule sort_permutation) (auto dest: cmp_zero)

end

section \<open>Comparators from comparators\<close>

interpretation num_cmp: separating_comparator num_cmp
  by unfold_locales (auto simp: num_cmp_def)

lemma comparator_on_key: "comparator c \<Longrightarrow> comparator (on_key k c)"
  unfolding comparator_def on_key_def by blast

lemma comparator_then_by:
  assumes "comparator c" and "comparator d"
  shows "comparator (then_by c d)"
proof -
  have c: "c y x \<le> 0 \<longleftrightarrow> 0 \<le> c x y" "c x y = 0 \<longleftrightarrow> c y x = 0" for x y
    using comparator.cmp_sym [OF assms(1)] comparator.zero_sym [OF assms(1)] by blast+
  have d: "d y x \<le> 0 \<longleftrightarrow> 0 \<le> d x y" "d x y = 0 \<longleftrightarrow> d y x = 0" for x y
    using comparator.cmp_sym [OF assms(2)] comparator.zero_sym [OF assms(2)] by blast+
  show ?thesis
  proof
    fix x y
    show "then_by c d y x \<le> 0 \<longleftrightarrow> 0 \<le> then_by c d x y"
      using c [of x y] c [of y x] d [of x y] by (auto simp: then_by_def)
  next
    fix x y z
    assume xy: "then_by c d x y \<le> 0" and yz: "then_by c d y z \<le> 0"
    then have le: "c x y \<le> 0" "c y z \<le> 0"
      by (auto simp: then_by_def split: if_splits)
    then have xz: "c x z \<le> 0"
      using comparator.cmp_trans [OF assms(1)] by blast
    show "then_by c d x z \<le> 0"
    proof (cases "c x z = 0")
      case False
      with xz show ?thesis by (simp add: then_by_def)
    next
      case True
      have "c y x \<le> 0"
        using comparator.cmp_trans [OF assms(1) le(2)] True c(2) [of x z] by simp
      then have "c x y = 0" using le(1) c(1) [of y x] by linarith
      moreover have "c y z = 0"
        using comparator.tie_cong(1) [OF assms(1) True, of y] calculation c(1) [of z y] c(2) le(2)
        by (metis order.refl order_antisym)
      ultimately show ?thesis
        using xy yz True comparator.cmp_trans [OF assms(2)] by (auto simp: then_by_def)
    qed
  qed
qed

end
