(* ===== verification/Ingest.thy ===== *)
theory Ingest
  imports Api Search Resource Demo Format Sorting Machine
begin

text \<open>
  \<open>app/investigations/new/StartInvestigationScreen.tsx\<close>: ingesting an alert, then binding it to a
  published playbook version. The screen, the list of candidate versions it mounts once an alert
  is there, and the address bar it writes the alert's id to, as one machine; \<open>new Date()\<close> is an
  argument of the step that reads it.
\<close>

section \<open>The form\<close>

record alert_form =
  af_external_id :: jstring
  af_alert_type :: jstring
  af_title :: jstring
  af_description :: jstring
  af_occurred_at :: jstring
  af_payload :: jstring

definition BLANK :: alert_form where
  "BLANK = \<lparr>af_external_id = [], af_alert_type = [], af_title = [], af_description = [],
            af_occurred_at = [], af_payload = js ''{}''\<rparr>"

datatype form_field = External_Id | Alert_Type | Title | Description | Occurred_At | Payload

fun set_field :: "form_field \<Rightarrow> jstring \<Rightarrow> alert_form \<Rightarrow> alert_form" where
  "set_field External_Id t f = f\<lparr>af_external_id := t\<rparr>"
| "set_field Alert_Type t f = f\<lparr>af_alert_type := t\<rparr>"
| "set_field Title t f = f\<lparr>af_title := t\<rparr>"
| "set_field Description t f = f\<lparr>af_description := t\<rparr>"
| "set_field Occurred_At t f = f\<lparr>af_occurred_at := t\<rparr>"
| "set_field Payload t f = f\<lparr>af_payload := t\<rparr>"

definition demo_form :: alert_form where
  "demo_form =
     \<lparr>af_external_id = or_else (ca_external_id DEMO_ALERT) [], af_alert_type = ca_alert_type DEMO_ALERT,
      af_title = ca_title DEMO_ALERT, af_description = ca_description DEMO_ALERT,
      af_occurred_at = take 16 (ca_occurred_at DEMO_ALERT),
      af_payload = prettyJson (JObj (ca_payload DEMO_ALERT))\<rparr>"

definition toRfc3339 :: "jstring \<Rightarrow> jstring \<Rightarrow> jstring" where
  "toRfc3339 now localValue =
     (if localValue = [] then now
      else (if length localValue = 16 then localValue @ js '':00'' else localValue) @ js ''Z'')"

text \<open>The payload box: an object to send, or a message.\<close>
definition read_payload :: "jstring \<Rightarrow> jstring + json_object" where
  "read_payload box =
     (let raw = trim box
      in if raw = [] then Inr []
         else case parse_json raw of
           None \<Rightarrow> Inl (js ''Payload is not valid JSON.'')
         | Some (JObj kvs) \<Rightarrow> Inr kvs
         | Some _ \<Rightarrow> Inl (js ''Payload must be a JSON object. The API rejects a scalar or an array with a 400.''))"

definition alert_request :: "jstring \<Rightarrow> alert_form \<Rightarrow> json_object \<Rightarrow> create_alert_request" where
  "alert_request now f payload =
     \<lparr>ca_external_id = null_if_blank (trim (af_external_id f)), ca_alert_type = trim (af_alert_type f),
      ca_title = trim (af_title f), ca_description = trim (af_description f),
      ca_occurred_at = toRfc3339 now (af_occurred_at f), ca_payload = payload\<rparr>"

section \<open>Candidates\<close>

record candidate =
  cd_playbookId :: uuid
  cd_playbookName :: jstring
  cd_playbookDescription :: jstring
  cd_version :: version_summary

definition newest_first :: "version_summary \<Rightarrow> version_summary \<Rightarrow> int" where
  "newest_first a b = vs_version b - vs_version a"

definition candidates_of :: "playbook_with_versions \<Rightarrow> candidate list" where
  "candidates_of p =
     map (\<lambda>v. \<lparr>cd_playbookId = pb_id p, cd_playbookName = pb_name p,
              cd_playbookDescription = pb_description p, cd_version = v\<rparr>)
       (sort_by newest_first (filter (\<lambda>v. vs_status v = Published) (pb_versions p)))"

definition candidates :: "playbook_with_versions list \<Rightarrow> candidate list" where
  "candidates detailed = concat (map candidates_of detailed)"

section \<open>The screen\<close>

datatype ingest_request = Create_Alert create_alert_request | Start_Investigation uuid uuid

text \<open>\<open>ig_goto\<close> is a navigation under way (the new search parameters), \<open>ig_opened\<close> the
  investigation navigated to, \<open>ig_log\<close> what was sent.\<close>
record ingest_screen =
  ig_alertId :: "uuid option"
  ig_preselected :: "uuid option"
  ig_form :: alert_form
  ig_ingesting :: bool
  ig_ingestError :: "thrown option"
  ig_payloadError :: "jstring option"
  ig_ingestedExisting :: bool
  ig_startingVersionId :: "uuid option"
  ig_startError :: "thrown option"
  ig_alert :: "alert resource"
  ig_candidates :: "(jstring \<times> candidate list resource) option"
  ig_goto :: "search_params option"
  ig_opened :: "uuid option"
  ig_log :: "ingest_request list"

definition given :: "jstring option \<Rightarrow> bool" where
  "given x \<longleftrightarrow> x \<noteq> None \<and> x \<noteq> Some []"

definition initial_ingest :: "uuid option \<Rightarrow> uuid option \<Rightarrow> ingest_screen" where
  "initial_ingest alertId version =
     \<lparr>ig_alertId = alertId, ig_preselected = version, ig_form = BLANK, ig_ingesting = False,
      ig_ingestError = None, ig_payloadError = None, ig_ingestedExisting = False,
      ig_startingVersionId = None, ig_startError = None,
      ig_alert = run_effect (given alertId) (initial_resource (given alertId)),
      ig_candidates = None, ig_goto = None, ig_opened = None, ig_log = []\<rparr>"

definition loadDemo :: "ingest_screen \<Rightarrow> ingest_screen" where
  "loadDemo s = s\<lparr>ig_form := demo_form, ig_payloadError := None, ig_ingestError := None\<rparr>"

text \<open>\<open>ingest\<close> up to its \<open>await\<close>.\<close>
definition ingest :: "jstring \<Rightarrow> ingest_screen \<Rightarrow> ingest_screen" where
  "ingest now s =
     (let s1 = s\<lparr>ig_payloadError := None, ig_ingestError := None\<rparr>
      in case read_payload (af_payload (ig_form s)) of
           Inl m \<Rightarrow> s1\<lparr>ig_payloadError := Some m\<rparr>
         | Inr payload \<Rightarrow>
             s1\<lparr>ig_ingesting := True, ig_log := ig_log s @ [Create_Alert (alert_request now (ig_form s) payload)]\<rparr>)"

definition ingest_done :: "(thrown + alert \<times> nat) \<Rightarrow> ingest_screen \<Rightarrow> ingest_screen" where
  "ingest_done answer s =
     (case answer of
        Inl err \<Rightarrow> s\<lparr>ig_ingestError := Some err, ig_ingesting := False\<rparr>
      | Inr (alert, status) \<Rightarrow>
          s\<lparr>ig_ingestedExisting := (status = 200),
            ig_goto := Some (let next = [(js ''alert'', al_id alert)]
              in if given (ig_preselected s) then set_param (js ''version'') (or_else (ig_preselected s) []) next else next),
            ig_ingesting := False\<rparr>)"

definition start :: "uuid \<Rightarrow> ingest_screen \<Rightarrow> ingest_screen" where
  "start versionId s =
     (case rc_data (ig_alert s) of
        None \<Rightarrow> s
      | Some a \<Rightarrow> s\<lparr>ig_startingVersionId := Some versionId, ig_startError := None,
                    ig_log := ig_log s @ [Start_Investigation (al_id a) versionId]\<rparr>)"

text \<open>A success navigates away with the buttons still disabled.\<close>
definition start_done :: "(thrown + uuid) \<Rightarrow> ingest_screen \<Rightarrow> ingest_screen" where
  "start_done answer s =
     (case answer of
        Inr investigation \<Rightarrow> s\<lparr>ig_opened := Some investigation\<rparr>
      | Inl err \<Rightarrow> s\<lparr>ig_startError := Some err, ig_startingVersionId := None\<rparr>)"

definition ingest_another :: "ingest_screen \<Rightarrow> ingest_screen" where
  "ingest_another s =
     s\<lparr>ig_form := BLANK, ig_ingestedExisting := False, ig_startError := None, ig_goto := Some []\<rparr>"

text \<open>The address a navigation asks for.\<close>
definition ingest_href :: "search_params \<Rightarrow> jstring" where
  "ingest_href params = href_with (js ''/investigations/new'') params"

text \<open>A navigation lands: the parameters are read back, and a changed alert id runs the effect.\<close>
definition arrive :: "(jstring \<times> jstring) list \<Rightarrow> ingest_screen \<Rightarrow> ingest_screen" where
  "arrive params s =
     (let alertId = map_of params (js ''alert'')
      in s\<lparr>ig_alertId := alertId, ig_preselected := map_of params (js ''version''), ig_goto := None,
           ig_alert := (if alertId = ig_alertId s then ig_alert s else run_effect (given alertId) (ig_alert s))\<rparr>)"

text \<open>The candidate list is mounted with the alert's data and reloads when its type changes.\<close>
definition mount_candidates :: "ingest_screen \<Rightarrow> ingest_screen" where
  "mount_candidates s =
     (case rc_data (ig_alert s) of
        None \<Rightarrow> s
      | Some a \<Rightarrow>
          (case ig_candidates s of
             None \<Rightarrow> s\<lparr>ig_candidates := Some (al_alert_type a, run_effect True (initial_resource True))\<rparr>
           | Some (t, r) \<Rightarrow>
               if t = al_alert_type a then s
               else s\<lparr>ig_candidates := Some (al_alert_type a, run_effect True r)\<rparr>))"

section \<open>What is on screen\<close>

datatype alert_panel =
    Alert_Form
  | Alert_Loading
  | Alert_Failed thrown
  | Alert_Nothing
  | Alert_Shown alert bool

definition alert_panel :: "ingest_screen \<Rightarrow> alert_panel" where
  "alert_panel s =
     (if \<not> given (ig_alertId s) then Alert_Form
      else if rc_loading (ig_alert s) then Alert_Loading
      else case rc_error (ig_alert s) of
        Some err \<Rightarrow> Alert_Failed err
      | None \<Rightarrow> (case rc_data (ig_alert s) of
          None \<Rightarrow> Alert_Nothing | Some a \<Rightarrow> Alert_Shown a (ig_ingestedExisting s)))"

datatype bind_panel =
    Ingest_First
  | Candidates_Loading
  | Candidates_Failed thrown
  | No_Candidates jstring
  | Candidate_List alert "candidate list"

definition bind_panel :: "ingest_screen \<Rightarrow> bind_panel" where
  "bind_panel s =
     (case (rc_data (ig_alert s), ig_candidates s) of
        (Some a, Some (t, r)) \<Rightarrow>
          if rc_loading r then Candidates_Loading
          else (case rc_error r of
            Some err \<Rightarrow> Candidates_Failed err
          | None \<Rightarrow> (case rc_data r of
              None \<Rightarrow> No_Candidates t
            | Some cs \<Rightarrow> if cs = [] then No_Candidates t else Candidate_List a cs))
      | _ \<Rightarrow> Ingest_First)"

text \<open>A candidate's row: highlighted, its button's label and whether it is disabled, its address.
  \<open>shown\<close> is the \<open>timestamp\<close> of \<open>lib/format.ts\<close>.\<close>
record candidate_row =
  cr_name :: jstring
  cr_version :: jstring
  cr_description :: "jstring option"
  cr_status :: version_status
  cr_published :: jstring
  cr_highlighted :: bool
  cr_label :: jstring
  cr_disabled :: bool
  cr_graph :: jstring

definition candidate_row :: "(jstring option \<Rightarrow> jstring) \<Rightarrow> uuid option \<Rightarrow> uuid option \<Rightarrow> candidate \<Rightarrow> candidate_row" where
  "candidate_row shown preselected starting c =
     (let v = vs_id (cd_version c)
      in \<lparr>cr_name = cd_playbookName c,
          cr_version = js ''v'' @ number_text (Fin (vs_version (cd_version c))),
          cr_description = null_if_blank (cd_playbookDescription c),
          cr_status = vs_status (cd_version c),
          cr_published = js ''published '' @ shown (vs_published_at (cd_version c)),
          cr_highlighted = (preselected = Some v),
          cr_label = (if starting = Some v then js ''Starting'' @ ellipsis else js ''Start investigation''),
          cr_disabled = (starting \<noteq> None),
          cr_graph = js ''/playbooks?playbook='' @ cd_playbookId c @ js ''&version='' @ v\<rparr>)"

text \<open>An ingested alert: the note that it existed already, its labelled fields in order, its payload.\<close>
record ingested_alert =
  ia_existed :: bool
  ia_fields :: "(jstring \<times> jstring) list"
  ia_payload :: jstring

definition ingested_alert :: "(jstring option \<Rightarrow> jstring) \<Rightarrow> bool \<Rightarrow> alert \<Rightarrow> ingested_alert" where
  "ingested_alert shown wasExisting a =
     \<lparr>ia_existed = wasExisting,
      ia_fields =
        [(js ''Alert id'', shortId (Some (al_id a))), (js ''Title'', al_title a), (js ''Type'', al_alert_type a),
         (js ''External id'', or_else (al_external_id a) em_dash),
         (js ''Occurred at'', shown (Some (al_occurred_at a))), (js ''Ingested at'', shown (Some (al_created_at a)))]
        @ (if al_description a = [] then [] else [(js ''Description'', al_description a)]),
      ia_payload = prettyJson (JObj (al_payload a))\<rparr>"

text \<open>The left panel around its content: its title, whether the demo can be loaded, and the form's
  messages and button.\<close>
record ingest_panel =
  ip_title :: jstring
  ip_demo :: bool
  ip_payload_message :: "jstring option"
  ip_failure :: "thrown option"
  ip_submit :: jstring
  ip_submit_disabled :: bool

definition ingest_panel :: "ingest_screen \<Rightarrow> ingest_panel" where
  "ingest_panel s =
     \<lparr>ip_title = (if given (ig_alertId s) then js ''Alert ingested'' else js ''Ingest an alert''),
      ip_demo = (\<not> given (ig_alertId s)),
      ip_payload_message = (if given (ig_alertId s) then None else ig_payloadError s),
      ip_failure = (if given (ig_alertId s) then None else ig_ingestError s),
      ip_submit = (if ig_ingesting s then js ''Ingesting'' @ ellipsis else js ''Ingest alert''),
      ip_submit_disabled = ig_ingesting s\<rparr>"

section \<open>The machine\<close>

text \<open>\<open>Ingest_Address\<close> is a link of the frame, or the browser's history, to another address of this screen.\<close>
datatype ingest_event =
    Type_Field form_field jstring
  | Load_Demo
  | Press_Ingest jstring
  | Ingest_Answer "thrown + alert \<times> nat"
  | Arrive
  | Ingest_Address search_params
  | Alert_Answer "thrown + alert"
  | Retry_Alert
  | Candidates_Answer "thrown + playbook_with_versions list"
  | Retry_Candidates
  | Press_Start uuid
  | Start_Answer "thrown + uuid"
  | Ingest_Another

definition offered_versions :: "ingest_screen \<Rightarrow> uuid set" where
  "offered_versions s =
     (case bind_panel s of Candidate_List a cs \<Rightarrow> vs_id ` cd_version ` set cs | _ \<Rightarrow> {})"

text \<open>The browser submits the form only once the required fields hold something.\<close>
fun ingest_handler :: "ingest_screen \<Rightarrow> ingest_event \<Rightarrow> ingest_screen option" where
  "ingest_handler s (Type_Field k t) =
     (if alert_panel s = Alert_Form then Some (s\<lparr>ig_form := set_field k t (ig_form s)\<rparr>) else None)"
| "ingest_handler s Load_Demo = (if alert_panel s = Alert_Form then Some (loadDemo s) else None)"
| "ingest_handler s (Press_Ingest now) =
     (if alert_panel s = Alert_Form \<and> \<not> ig_ingesting s \<and> af_alert_type (ig_form s) \<noteq> []
         \<and> af_title (ig_form s) \<noteq> [] \<and> af_occurred_at (ig_form s) \<noteq> []
      then Some (ingest now s) else None)"
| "ingest_handler s (Ingest_Answer res) = (if ig_ingesting s then Some (ingest_done res s) else None)"
| "ingest_handler s Arrive = map_option (\<lambda>params. arrive params s) (ig_goto s)"
| "ingest_handler s (Ingest_Address params) = Some (s\<lparr>ig_goto := Some params\<rparr>)"
| "ingest_handler s (Alert_Answer res) = map_option (\<lambda>r. s\<lparr>ig_alert := r\<rparr>) (answer_load res (ig_alert s))"
| "ingest_handler s Retry_Alert =
     (case alert_panel s of Alert_Failed _ \<Rightarrow> Some (s\<lparr>ig_alert := retry_load (ig_alert s)\<rparr>) | _ \<Rightarrow> None)"
| "ingest_handler s (Candidates_Answer res) =
     (case ig_candidates s of
        None \<Rightarrow> None
      | Some (t, r) \<Rightarrow>
          map_option (\<lambda>r'. s\<lparr>ig_candidates := Some (t, r')\<rparr>)
            (answer_load (case res of Inl err \<Rightarrow> Inl err | Inr ps \<Rightarrow> Inr (candidates ps)) r))"
| "ingest_handler s Retry_Candidates =
     (case (bind_panel s, ig_candidates s) of
        (Candidates_Failed _, Some (t, r)) \<Rightarrow> Some (s\<lparr>ig_candidates := Some (t, retry_load r)\<rparr>)
      | _ \<Rightarrow> None)"
| "ingest_handler s (Press_Start v) =
     (if v \<in> offered_versions s \<and> ig_startingVersionId s = None then Some (start v s) else None)"
| "ingest_handler s (Start_Answer res) =
     (if ig_startingVersionId s \<noteq> None then Some (start_done res s) else None)"
| "ingest_handler s Ingest_Another =
     (case alert_panel s of Alert_Shown _ _ \<Rightarrow> Some (ingest_another s) | _ \<Rightarrow> None)"

definition ingest_step :: "ingest_screen \<Rightarrow> ingest_event \<Rightarrow> ingest_screen option" where
  "ingest_step s ev =
     (if ig_opened s \<noteq> None then None else map_option mount_candidates (ingest_handler s ev))"

section \<open>The alert's id survives the address\<close>

lemma ingested_alert_addressed:
  assumes "well_formed (al_id a)" "pred_option well_formed (ig_preselected s)"
  shows "\<exists>params. ig_goto (ingest_done (Inr (a, status)) s) = Some params
    \<and> address_params (ingest_href params) = Some params
    \<and> map_of params (js ''alert'') = Some (al_id a)
    \<and> map_of params (js ''version'') = (if given (ig_preselected s) then ig_preselected s else None)"
proof -
  let ?params = "(js ''alert'', al_id a)
    # (if given (ig_preselected s) then [(js ''version'', or_else (ig_preselected s) [])] else [])"
  have names: "well_formed (js ''alert'')" "well_formed (js ''version'')"
    by (simp_all add: well_formed_plain js_simps unreserved_def)
  have goto: "ig_goto (ingest_done (Inr (a, status)) s) = Some ?params"
    by (simp add: ingest_done_def js_simps)
  have "list_all (\<lambda>(k, v). well_formed k \<and> well_formed v) ?params"
    using assms names by (auto simp: given_def)
  then have "address_params (ingest_href ?params) = Some ?params"
    unfolding ingest_href_def by (intro address_params_href) (simp_all add: js_simps)
  with goto show ?thesis by (auto simp: js_simps given_def)
qed

section \<open>Candidates are the published versions\<close>

interpretation newest: comparator newest_first
  by unfold_locales (auto simp: newest_first_def sgn_if)

lemma candidates_of_versions:
  "map cd_version (candidates_of p) = sort_by newest_first (filter (\<lambda>v. vs_status v = Published) (pb_versions p))"
  by (simp add: candidates_of_def comp_def)

lemma mem_candidates:
  "c \<in> set (candidates ps) \<longleftrightarrow>
     (\<exists>p\<in>set ps. \<exists>v\<in>set (pb_versions p). vs_status v = Published
        \<and> c = \<lparr>cd_playbookId = pb_id p, cd_playbookName = pb_name p,
               cd_playbookDescription = pb_description p, cd_version = v\<rparr>)"
  by (auto simp: candidates_def candidates_of_def)

lemma candidates_of_sorted:
  "sorted_wrt (\<lambda>a b. vs_version b \<le> vs_version a) (map cd_version (candidates_of p))"
  unfolding candidates_of_versions
  using newest.sorted_sort [of "filter (\<lambda>v. vs_status v = Published) (pb_versions p)"]
  by (simp add: newest_first_def)

section \<open>Sessions\<close>

text \<open>\<open>listed t v\<close>: the server lists version \<open>v\<close> as published under a playbook registered for
  alert type \<open>t\<close>. A list answer is assumed to be filtered by the type it was asked for.\<close>
definition answer_listed :: "(jstring \<Rightarrow> uuid \<Rightarrow> bool) \<Rightarrow> ingest_screen \<Rightarrow> ingest_event \<Rightarrow> bool" where
  "answer_listed listed s ev =
     (case (ev, ig_candidates s) of
        (Candidates_Answer (Inr ps), Some (t, r)) \<Rightarrow>
          (\<forall>p\<in>set ps. \<forall>v\<in>set (pb_versions p). vs_status v = Published \<longrightarrow> listed t (vs_id v))
      | _ \<Rightarrow> True)"

abbreviation ingest_reach :: "(jstring \<Rightarrow> uuid \<Rightarrow> bool) \<Rightarrow> ingest_screen \<Rightarrow> ingest_screen \<Rightarrow> bool" where
  "ingest_reach listed \<equiv> reach ingest_step (answer_listed listed)"

abbreviation run_ingest :: "ingest_screen \<Rightarrow> ingest_event list \<Rightarrow> ingest_screen option" where
  "run_ingest \<equiv> run ingest_step"

definition all_listed :: "(jstring \<Rightarrow> uuid \<Rightarrow> bool) \<Rightarrow> jstring \<times> candidate list resource \<Rightarrow> bool" where
  "all_listed listed tr =
     (case tr of (t, r) \<Rightarrow> rc_loading r \<or> rc_error r \<noteq> None
        \<or> (\<forall>cs. rc_data r = Some cs \<longrightarrow> (\<forall>c\<in>set cs. listed t (vs_id (cd_version c)))))"

definition ingest_inv :: "(jstring \<Rightarrow> uuid \<Rightarrow> bool) \<Rightarrow> ingest_screen \<Rightarrow> bool" where
  "ingest_inv listed s \<longleftrightarrow>
     pred_option (all_listed listed) (ig_candidates s)
     \<and> (\<forall>a. rc_data (ig_alert s) = Some a \<longrightarrow> map_option fst (ig_candidates s) = Some (al_alert_type a))"

lemma all_listed_loading: "rc_loading r \<Longrightarrow> all_listed listed (t, r)"
  by (simp add: all_listed_def)

lemma loading_after_effect [simp]: "rc_loading (run_effect True r)" "rc_loading (retry_load r)"
  by (simp_all add: run_effect_def retry_load_def)

lemma mount_inv:
  assumes "pred_option (all_listed listed) (ig_candidates s)"
  shows "ingest_inv listed (mount_candidates s)"
  using assms by (auto simp: ingest_inv_def mount_candidates_def all_listed_loading split: option.split)

lemma answer_load_listed:
  assumes "answer_load res r = Some r'" "\<And>cs. res = Inr cs \<Longrightarrow> \<forall>c\<in>set cs. listed t (vs_id (cd_version c))"
  shows "all_listed listed (t, r')"
  using assms by (auto simp: answer_load_def settle_def all_listed_def split: option.splits if_splits sum.splits)

lemma handler_listed:
  assumes "pred_option (all_listed listed) (ig_candidates s)" "ingest_handler s ev = Some s'" "answer_listed listed s ev"
  shows "pred_option (all_listed listed) (ig_candidates s')"
proof (cases "\<exists>res. ev = Candidates_Answer res")
  case True
  then obtain res where ev: "ev = Candidates_Answer res" ..
  with assms(2) obtain t r r' where r: "ig_candidates s = Some (t, r)"
    "answer_load (case res of Inl err \<Rightarrow> Inl err | Inr ps \<Rightarrow> Inr (candidates ps)) r = Some r'"
    "ig_candidates s' = Some (t, r')"
    by (auto split: option.splits)
  have "all_listed listed (t, r')"
    by (rule answer_load_listed [OF r(2)])
      (use assms(3) ev r(1) in \<open>auto simp: answer_listed_def mem_candidates split: sum.splits\<close>)
  with r(3) show ?thesis by simp
next
  case False
  then show ?thesis
    using assms(1,2)
    by (cases ev) (auto simp: loadDemo_def ingest_def Let_def ingest_done_def arrive_def start_def start_done_def
        ingest_another_def all_listed_loading split: if_splits option.splits sum.splits alert_panel.splits
        bind_panel.splits)
qed

interpretation ingest_lists: machine_invariant ingest_step "answer_listed listed" "ingest_inv listed" for listed
proof
  fix s ev s' assume inv: "ingest_inv listed s" "ingest_step s ev = Some s'" "answer_listed listed s ev"
  then obtain t where t: "ingest_handler s ev = Some t" "s' = mount_candidates t"
    by (auto simp: ingest_step_def split: if_splits)
  have "pred_option (all_listed listed) (ig_candidates t)"
    using inv(1) by (intro handler_listed [OF _ t(1) inv(3)]) (simp add: ingest_inv_def)
  then show "ingest_inv listed s'" unfolding t(2) by (rule mount_inv)
qed

lemma ingest_session_inv:
  assumes "ingest_reach listed (initial_ingest a v) s"
  shows "ingest_inv listed s"
  by (rule ingest_lists.holds [OF assms])
    (auto simp: ingest_inv_def initial_ingest_def run_effect_def initial_resource_def)

lemma offered_listed:
  assumes "ingest_inv listed s" "v \<in> offered_versions s"
  shows "\<exists>a. rc_data (ig_alert s) = Some a \<and> listed (al_alert_type a) v"
proof -
  from assms(2) obtain a cs t r where shown: "rc_data (ig_alert s) = Some a" "ig_candidates s = Some (t, r)"
    "\<not> rc_loading r" "rc_error r = None" "rc_data r = Some cs" and v: "v \<in> vs_id ` cd_version ` set cs"
    by (auto simp: offered_versions_def bind_panel_def split: option.splits if_splits prod.splits)
  with assms(1) have "t = al_alert_type a" "\<forall>c\<in>set cs. listed t (vs_id (cd_version c))"
    by (auto simp: ingest_inv_def all_listed_def)
  with v shown(1) show ?thesis by auto
qed

lemma run_ingest_reach:
  assumes "ingest_reach (\<lambda>_ _. True) s0 s" "run_ingest s evs = Some s'"
  shows "ingest_reach (\<lambda>_ _. True) s0 s'"
proof (rule run_reach [OF assms])
  show "list_all (\<lambda>ev. \<forall>t. answer_listed (\<lambda>_ _. True) t ev) evs"
    by (auto simp: list_all_iff answer_listed_def split: ingest_event.split sum.split option.split)
qed

lemmas ingest_run_defs = ingest_step_def mount_candidates_def bind_panel_def offered_versions_def
  alert_panel_def given_def answer_load_def settle_def run_effect_def initial_resource_def
  initial_ingest_def candidates_def candidates_of_def start_def ingest_another_def arrive_def

section \<open>Properties\<close>

text \<open>C32. An investigation is only ever started for the alert whose data the screen holds, and with a
  version the server lists as published for that alert's own type, whatever loads, retries and
  navigations came before.\<close>
theorem start_binds_listed_version:
  assumes "ingest_reach listed (initial_ingest alertId version) s" "ingest_step s (Press_Start v) = Some s'"
  shows "\<exists>a. rc_data (ig_alert s) = Some a \<and> listed (al_alert_type a) v
    \<and> ig_log s' = ig_log s @ [Start_Investigation (al_id a) v]"
proof -
  from assms(2) have "v \<in> offered_versions s" and s': "s' = mount_candidates (start v s)"
    by (auto simp: ingest_step_def split: if_splits)
  with offered_listed [OF ingest_session_inv [OF assms(1)]] obtain a
    where a: "rc_data (ig_alert s) = Some a" "listed (al_alert_type a) v" by blast
  have "ig_log (mount_candidates t) = ig_log t" for t
    by (simp add: mount_candidates_def split: option.split)
  with a s' show ?thesis by (simp add: start_def)
qed

text \<open>The versions offered for an alert are exactly the published versions of the playbooks the
  server returned, none left out and none added, each playbook's newest first.\<close>
theorem candidates_exactly_published:
  "(\<lambda>c. (cd_playbookId c, cd_version c)) ` set (candidates ps)
     = {(pb_id p, v) | p v. p \<in> set ps \<and> v \<in> set (pb_versions p) \<and> vs_status v = Published}
   \<and> sorted_wrt (\<lambda>a b. vs_version b \<le> vs_version a) (map cd_version (candidates_of p))"
  using candidates_of_sorted by (force simp: mem_candidates image_iff)

text \<open>Loading the worked example into the form and ingesting it sends exactly the example alert:
  the instant cut for the input is completed again, and the payload printed into the box is read
  back as the same object.\<close>
theorem demo_alert_survives_the_form:
  "read_payload (af_payload demo_form) = Inr (ca_payload DEMO_ALERT)
   \<and> alert_request now demo_form (ca_payload DEMO_ALERT) = DEMO_ALERT"
proof
  let ?kvs = "ca_payload DEMO_ALERT"
  have "wf_object ?kvs" by (simp add: DEMO_ALERT_def wf_object_iff canonical_def is_digit_def)
  then have "parse_json (trim (stringify_indented (JObj ?kvs))) = Some (JObj ?kvs)"
    by (rule indented.parse_trim_show)
  then show "read_payload (af_payload demo_form) = Inr ?kvs"
    by (simp add: demo_form_def read_payload_def prettyJson_def Let_def
        indented.trim_show_object indented.show_object_nonempty)
  have instant: "toRfc3339 now (take 16 (js ''2026-08-19T10:30:00Z'')) = js ''2026-08-19T10:30:00Z''"
    by (simp add: toRfc3339_def js_def)
  show "alert_request now demo_form (ca_payload DEMO_ALERT) = DEMO_ALERT"
    using instant by (simp add: alert_request_def demo_form_def DEMO_ALERT_def ALERT_TYPE_def trim_js
        strip_def blank_char_def null_if_blank_def)
qed

lemma mounted_already: "ingest_inv listed s \<Longrightarrow> mount_candidates s = s"
  by (auto simp: ingest_inv_def mount_candidates_def split: option.split)

text \<open>C33. "Ingest a different alert" leaves the previous alert bound. In whatever session it is pressed, when
  its navigation has landed the screen is back at the empty form, yet the other panel still shows
  exactly what it showed, and every version that was offered for the previous alert can still be
  started (unless a start was under way already): the request binds the previous alert. A resource that
  is switched off keeps its data.\<close>
theorem previous_alert_still_bound:
  assumes "ingest_reach listed (initial_ingest alertId version) s"
    "ingest_step s Ingest_Another = Some t" "ingest_step t Arrive = Some s'"
  shows "\<exists>a existed. alert_panel s = Alert_Shown a existed \<and> alert_panel s' = Alert_Form \<and> ig_form s' = BLANK
    \<and> bind_panel s' = bind_panel s
    \<and> (\<forall>v\<in>offered_versions s. ig_startingVersionId s = None \<longrightarrow>
         (\<exists>u. ingest_step s' (Press_Start v) = Some u \<and> ig_log u = ig_log s @ [Start_Investigation (al_id a) v]))"
proof -
  note inv = ingest_session_inv [OF assms(1)]
  from assms(2) obtain a existed where shown: "alert_panel s = Alert_Shown a existed" and t: "t = mount_candidates (ingest_another s)"
    by (auto simp: ingest_step_def split: if_splits alert_panel.splits)
  then have id: "given (ig_alertId s)" and data: "rc_data (ig_alert s) = Some a"
    by (auto simp: alert_panel_def split: if_splits option.splits)
  have shut: "ig_opened s = None" using assms(2) by (auto simp: ingest_step_def split: if_splits)
  have "ingest_inv listed (ingest_another s)" using inv by (simp add: ingest_inv_def ingest_another_def)
  with t have t': "t = ingest_another s" by (simp add: mounted_already)
  let ?s = "arrive [] (ingest_another s)"
  from assms(3) t' have "s' = mount_candidates ?s"
    by (auto simp: ingest_step_def ingest_another_def split: if_splits)
  moreover have kept: "rc_data (ig_alert ?s) = rc_data (ig_alert s)" "ig_candidates ?s = ig_candidates s"
    by (auto simp: arrive_def ingest_another_def run_effect_def given_def)
  with inv have "ingest_inv listed ?s" by (simp add: ingest_inv_def)
  ultimately have s': "s' = ?s" by (simp add: mounted_already)
  have blank: "ig_alertId ?s = None" "ig_form ?s = BLANK" "ig_log ?s = ig_log s" "ig_opened ?s = None"
    "ig_startingVersionId ?s = ig_startingVersionId s"
    using shut by (simp_all add: arrive_def ingest_another_def)
  have panel: "bind_panel ?s = bind_panel s" using kept by (simp add: bind_panel_def)
  have "\<exists>u. ingest_step ?s (Press_Start v) = Some u \<and> ig_log u = ig_log s @ [Start_Investigation (al_id a) v]"
    if "v \<in> offered_versions s" "ig_startingVersionId s = None" for v
  proof -
    have "v \<in> offered_versions ?s" using that(1) panel by (simp add: offered_versions_def)
    with that(2) blank have "ingest_step ?s (Press_Start v) = Some (mount_candidates (start v ?s))"
      by (simp add: ingest_step_def)
    moreover have "ig_log (mount_candidates u) = ig_log u" for u
      by (simp add: mount_candidates_def split: option.split)
    ultimately show ?thesis using kept(1) data blank by (simp add: start_def)
  qed
  with shown panel blank(1,2) show ?thesis unfolding s' by (auto simp: alert_panel_def given_def)
qed

theorem previous_alert_still_bound_witness:
  "\<exists>s t s' u. ingest_reach (\<lambda>_ _. True) (initial_ingest (Some (js ''a1'')) None) s
     \<and> ingest_step s Ingest_Another = Some t \<and> ingest_step t Arrive = Some s' \<and> ig_form s' = BLANK
     \<and> ingest_step s' (Press_Start (js ''v1'')) = Some u \<and> ig_log u \<noteq> ig_log s"
proof -
  let ?a = "\<lparr>al_id = js ''a1'', al_external_id = None, al_alert_type = js ''t'', al_title = [], al_description = [],
     al_payload = [], al_occurred_at = [], al_created_at = []\<rparr>"
  let ?v = "\<lparr>vs_id = js ''v1'', vs_version = 1, vs_status = Published, vs_created_at = [], vs_published_at = None\<rparr>"
  let ?p = "\<lparr>pb_id = js ''p1'', pb_name = [], pb_description = [], pb_alert_type = js ''t'', pb_created_at = [],
     pb_updated_at = [], pb_versions = [?v]\<rparr>"
  let ?run = "run_ingest (initial_ingest (Some (js ''a1'')) None) [Alert_Answer (Inr ?a), Candidates_Answer (Inr [?p])]"
  have "\<exists>s. ?run = Some s \<and> js ''v1'' \<in> offered_versions s \<and> ig_startingVersionId s = None
      \<and> (\<exists>t s'. ingest_step s Ingest_Another = Some t \<and> ingest_step t Arrive = Some s')"
    by (simp add: ingest_run_defs)
  then obtain s t s' where s: "?run = Some s" "js ''v1'' \<in> offered_versions s" "ig_startingVersionId s = None"
    "ingest_step s Ingest_Another = Some t" "ingest_step t Arrive = Some s'" by blast
  note reach = run_ingest_reach [OF reach.start s(1)]
  from previous_alert_still_bound [OF reach s(4,5)] s(2,3) obtain u where
    "ig_form s' = BLANK" "ingest_step s' (Press_Start (js ''v1'')) = Some u" "ig_log u \<noteq> ig_log s" by auto
  with reach s(4,5) show ?thesis by blast
qed

theorem start_binds_listed_version_witness:
  "\<exists>s s'. ingest_step s (Press_Start (js ''v1'')) = Some s'
     \<and> ig_log s' = ig_log s @ [Start_Investigation (js ''a1'') (js ''v1'')]"
proof -
  let ?a = "\<lparr>al_id = js ''a1'', al_external_id = None, al_alert_type = js ''t'', al_title = [], al_description = [],
     al_payload = [], al_occurred_at = [], al_created_at = []\<rparr>"
  let ?v = "\<lparr>vs_id = js ''v1'', vs_version = 1, vs_status = Published, vs_created_at = [], vs_published_at = None\<rparr>"
  let ?p = "\<lparr>pb_id = js ''p1'', pb_name = [], pb_description = [], pb_alert_type = js ''t'', pb_created_at = [],
     pb_updated_at = [], pb_versions = [?v]\<rparr>"
  let ?run = "run_ingest (initial_ingest (Some (js ''a1'')) None) [Alert_Answer (Inr ?a), Candidates_Answer (Inr [?p])]"
  have "\<exists>s. ?run = Some s \<and> rc_data (ig_alert s) = Some ?a \<and> ingest_step s (Press_Start (js ''v1'')) \<noteq> None"
    by (simp add: ingest_run_defs)
  then obtain s s' where s: "?run = Some s" "rc_data (ig_alert s) = Some ?a" "ingest_step s (Press_Start (js ''v1'')) = Some s'"
    by blast
  from start_binds_listed_version [OF run_ingest_reach [OF reach.start s(1)] s(3)] s(2,3) show ?thesis
    by auto
qed

end
