(* ===== verification/Conformance.thy ===== *)
theory Conformance
  imports Schemas Editor_Run Decision Ingest
begin

text \<open>
  What the screens put on the wire against the published contract: every body of an editor session,
  of a decision form and of the alert form conforms to its schema in \<open>api/openapi.yaml\<close>, formats
  included, given ids that are valid to begin with.
\<close>

section \<open>Values\<close>

definition finite_order :: "playbook_edge \<Rightarrow> bool" where
  "finite_order e \<longleftrightarrow> (case pe_sort_order e of Fin _ \<Rightarrow> True | _ \<Rightarrow> False)"

lemma norm_dec_integral: "0 \<le> dexp (norm_dec m 0)"
  by (simp add: norm_dec_def split: prod.split)

lemma number_json_finite: "number_json (Fin i) = JNum (dec_of_int i)"
proof -
  have "parse_number (dec_text (dec_of_int i)) = Some (dec_of_int i, [])"
    using parse_number_dec_text [of "dec_of_int i" "[]"] by (simp add: dec_of_int_def ends_number_def)
  then show ?thesis by (simp add: number_json_def number_text_def)
qed

text \<open>Neither \<open>NaN\<close> nor an infinity has a JSON text.\<close>
lemma number_json_infinite: "number_json NaN = JNull" "number_json (Infinity neg) = JNull"
  by (simp_all add: number_json_def number_text_def parse_number_def Decimals.span_def js_simps is_digit_def)

lemma order_conforms: "conforms v Integral (number_json (pe_sort_order e)) \<longleftrightarrow> finite_order e"
  by (cases "pe_sort_order e")
    (simp_all add: finite_order_def number_json_finite number_json_infinite norm_dec_integral dec_of_int_def)

lemma opt_conforms:
  "conforms v (Nullable Any_Text) (opt_str x)" "conforms v (Nullable Id_Text) (opt_str x) \<longleftrightarrow> pred_option v x"
  by (auto simp: opt_str_def split: option.split)

section \<open>Bodies\<close>

lemma node_conforms: "conforms v oa_PlaybookNode (node_json n) \<longleftrightarrow> v (pn_id n)"
  by (cases "pn_kind n")
    (auto simp: oa_PlaybookNode_def schema_parts node_json_def opt_str_def split: option.split)

lemma edge_conforms:
  "conforms v oa_PlaybookEdge (edge_json e) \<longleftrightarrow> v (pe_id e) \<and> v (pe_from e) \<and> v (pe_to e) \<and> finite_order e"
  using order_conforms [of v e]
  by (auto simp: oa_PlaybookEdge_def schema_parts edge_json_def opt_str_def split: option.split)

lemma graph_conforms:
  "conforms v oa_PlaybookGraphInput (graph_json g) \<longleftrightarrow>
     pred_option v (g_root g) \<and> (\<forall>n\<in>set (g_nodes g). v (pn_id n))
     \<and> (\<forall>e\<in>set (g_edges g). v (pe_id e) \<and> v (pe_from e) \<and> v (pe_to e) \<and> finite_order e)"
  using opt_conforms(2) [of v "g_root g"]
  by (auto simp: oa_PlaybookGraphInput_def schema_parts graph_json_def list_all_iff node_conforms edge_conforms)

lemma playbook_conforms:
  "cp_definition b = Some g \<Longrightarrow>
     conforms v oa_CreatePlaybookRequest (playbook_json b) \<longleftrightarrow> conforms v oa_PlaybookGraphInput (graph_json g)"
  by (auto simp: oa_CreatePlaybookRequest_def schema_parts playbook_json_def graph_json_def)

lemma version_conforms:
  "conforms v oa_CreatePlaybookVersionRequest (version_json b) \<longleftrightarrow> pred_option v (cv_clone_from b)"
  by (auto simp: oa_CreatePlaybookVersionRequest_def schema_parts version_json_def split: option.split)

lemma start_conforms:
  "conforms v oa_StartInvestigationRequest (start_json b) \<longleftrightarrow> v (st_playbook_version_id b)"
  by (simp add: oa_StartInvestigationRequest_def schema_parts start_json_def)

lemma actor_conforms: "conforms v oa_Actor (actor_json a)"
  by (cases "ac_type a") (auto simp: oa_Actor_def schema_parts actor_json_def opt_str_def split: option.split)

lemma evidence_conforms: "conforms v oa_EvidenceItem (evidence_json e) \<longleftrightarrow> ei_type e \<noteq> [] \<and> ei_summary e \<noteq> []"
  by (auto simp: oa_EvidenceItem_def schema_parts evidence_json_def split: option.split)

lemma decision_conforms:
  "conforms v oa_SubmitDecisionRequest (decision_json b) \<longleftrightarrow>
     v (sd_edge_id b) \<and> (\<forall>e\<in>set (sd_evidence b). ei_type e \<noteq> [] \<and> ei_summary e \<noteq> [])"
  using actor_conforms [of v "sd_actor b"]
  by (auto simp: oa_SubmitDecisionRequest_def schema_parts decision_json_def opt_str_def list_all_iff
      evidence_conforms split: option.split)

lemma alert_conforms: "conforms v oa_CreateAlertRequest (alert_json b) \<longleftrightarrow> is_moment (ca_occurred_at b)"
  by (auto simp: oa_CreateAlertRequest_def schema_parts alert_json_def opt_str_def split: option.split)

section \<open>The editor\<close>

definition request_graph :: "editor_request \<Rightarrow> graph_input option" where
  "request_graph q =
     (case q of Put_Graph _ g \<Rightarrow> Some g | Create_Playbook b \<Rightarrow> cp_definition b | _ \<Rightarrow> None)"

text \<open>The body of a request, if it has one, with the schema of its operation.\<close>
fun request_body :: "editor_request \<Rightarrow> (schema \<times> json) option" where
  "request_body (Put_Graph v g) = Some (oa_PlaybookGraphInput, graph_json g)"
| "request_body (Create_Playbook b) = Some (oa_CreatePlaybookRequest, playbook_json b)"
| "request_body (Publish_Version v) = None"
| "request_body (Create_Version p v) =
     Some (oa_CreatePlaybookVersionRequest, version_json \<lparr>cv_clone_from = Some v\<rparr>)"

text \<open>The node and edge ids of a graph that is sent are ids that existed or were drawn.\<close>
definition known_ids :: "uuid set \<Rightarrow> (nat \<Rightarrow> uuid) \<Rightarrow> editor_request \<Rightarrow> bool" where
  "known_ids foreign newId q \<longleftrightarrow>
     pred_option (\<lambda>g. pn_id ` set (g_nodes g) \<union> pe_id ` set (g_edges g) \<subseteq> foreign \<union> range newId) (request_graph q)"

lemma good_ids:
  assumes "fresh_source foreign newId" "good_draft foreign newId n d"
  shows "pn_id ` set (g_nodes (graph_of d)) \<union> pe_id ` set (g_edges (graph_of d)) \<subseteq> foreign \<union> range newId"
proof -
  have "nd_id ` set (pd_nodes d) \<subseteq> drawn foreign newId n" "ed_id ` set (pd_edges d) \<subseteq> drawn foreign newId n"
    using assms(2) by (simp_all add: good_draft_def keyed_draft_def id_supply.keyed_def [OF source_supply [OF assms(1)]])
  moreover have "drawn foreign newId n \<subseteq> foreign \<union> range newId" by (auto simp: drawn_def)
  ultimately show ?thesis by (auto simp: image_image)
qed

lemma save_known_ids:
  assumes "fresh_source foreign newId" "editor_inv foreign newId e" "save e = (e', Some q)"
  shows "known_ids foreign newId q"
proof -
  have "good_draft foreign newId (sc_drawn e) (sc_draft e)" using assms(2) by (simp add: editor_inv_def)
  note ids = good_ids [OF assms(1) this]
  from assms(3) show ?thesis
    by (cases rule: save_cases) (use ids in \<open>auto simp: known_ids_def request_graph_def serialize_ok split: option.splits\<close>)
qed

interpretation session_ids: machine_invariant "session_step newId" "honest_answer foreign newId"
    "\<lambda>s. (fresh_source foreign newId \<and> editor_inv foreign newId (ss_screen s) \<and> seeded (ss_screen s))
       \<and> list_all (known_ids foreign newId) (ss_log s)" for foreign newId
proof
  fix s ev s'
  assume inv: "(fresh_source foreign newId \<and> editor_inv foreign newId (ss_screen s) \<and> seeded (ss_screen s))
       \<and> list_all (known_ids foreign newId) (ss_log s)"
    and step: "session_step newId s ev = Some s'" and ok: "honest_answer foreign newId s ev"
  from session_draft.kept [OF _ step ok] inv
  have "fresh_source foreign newId \<and> editor_inv foreign newId (ss_screen s') \<and> seeded (ss_screen s')" by blast
  moreover have "list_all (known_ids foreign newId) (ss_log s')"
  proof -
    from step have "editor_step newId (ss_screen s) ev s = Some s'" by (auto simp: session_step_def split: if_splits)
    from editor_step_log [OF this] consider "ss_log s' = ss_log s"
      | q where "ss_log s' = ss_log s @ [q]" "save (ss_screen s) = (ss_screen s', Some q)"
      | q where "ss_log s' = ss_log s @ [q]" "publish (ss_screen s) = (ss_screen s', Some q)"
      | q where "ss_log s' = ss_log s @ [q]" "startNewVersion (ss_screen s) = (ss_screen s', Some q)"
      by blast
    then show ?thesis
    proof cases
      case 2
      with save_known_ids [of foreign newId] inv have "known_ids foreign newId q" by blast
      with 2(1) inv show ?thesis by simp
    next
      case 3
      from publish_cases [OF 3(2)] have "known_ids foreign newId q" by (auto simp: known_ids_def request_graph_def)
      with 3(1) inv show ?thesis by simp
    next
      case 4
      from clone_cases [OF 4(2)] have "known_ids foreign newId q" by (auto simp: known_ids_def request_graph_def)
      with 4(1) inv show ?thesis by simp
    qed (use inv in simp)
  qed
  ultimately show "(fresh_source foreign newId \<and> editor_inv foreign newId (ss_screen s') \<and> seeded (ss_screen s'))
       \<and> list_all (known_ids foreign newId) (ss_log s')" by blast
qed

lemma log_known_ids:
  assumes "session_reach foreign newId (initial_session p v) s" "fresh_source foreign newId"
  shows "list_all (known_ids foreign newId) (ss_log s)"
proof -
  have "list_all (known_ids foreign newId) (ss_log (initial_session p v))" by (simp add: initial_session_def)
  with session_ids.holds [OF assms(1)] initial_inv [OF assms(2)] assms(2) show ?thesis by blast
qed

text \<open>The ends of the edges and the root are nodes of the graph.\<close>
lemma storable_conforms:
  assumes "coherent_graph g" "\<forall>x\<in>pn_id ` set (g_nodes g) \<union> pe_id ` set (g_edges g). ok x"
  shows "conforms ok oa_PlaybookGraphInput (graph_json g) \<longleftrightarrow> list_all finite_order (g_edges g)"
  using assms
  by (auto simp: graph_conforms coherent_graph_def storable_edge_def list_all_iff node_ids_def split: option.splits)

text \<open>Every body an editor session sends conforms to the published schema of its operation,
  formats included, exactly when no sort order of its graph has overflowed: ids are those of stored
  versions or freshly drawn, every end of an edge and the root is a node of the graph, kinds, texts
  and metadata have their types, whatever the designer typed and whatever the API answered.\<close>
theorem editor_bodies_conform:
  assumes "session_reach foreign newId (initial_session p v) s" "fresh_source foreign newId"
    "\<forall>x\<in>foreign \<union> range newId. ok x" "pred_option ok v" "q \<in> set (ss_log s)"
  shows "case request_body q of None \<Rightarrow> True
    | Some (t, body) \<Rightarrow> conforms ok t body \<longleftrightarrow> pred_option (\<lambda>g. list_all finite_order (g_edges g)) (request_graph q)"
proof -
  have legal: "legal_request p v q"
    using log_legal [OF assms(1)] assms(5) by (simp add: list_all_iff)
  have known: "known_ids foreign newId q"
    using log_known_ids [OF assms(1,2)] assms(5) by (simp add: list_all_iff)
  have graph: "conforms ok oa_PlaybookGraphInput (graph_json g) \<longleftrightarrow> list_all finite_order (g_edges g)"
    if "request_graph q = Some g" "coherent_graph g" for g
    by (rule storable_conforms [OF that(2)]) (use known that(1) assms(3) in \<open>auto simp: known_ids_def\<close>)
  show ?thesis
  proof (cases q)
    case (Put_Graph w g)
    with legal graph show ?thesis by (auto simp: legal_request_def request_graph_def)
  next
    case (Create_Playbook b)
    with legal obtain g where g: "cp_definition b = Some g" "coherent_graph g"
      by (auto simp: legal_request_def split: option.splits)
    with Create_Playbook graph [of g] show ?thesis by (simp add: request_graph_def playbook_conforms)
  next
    case (Create_Version r w)
    with legal assms(4) show ?thesis by (simp add: legal_request_def request_graph_def version_conforms)
  qed simp
qed

theorem editor_bodies_conform_witness:
  "\<exists>s g. session_reach {} (\<lambda>n. replicate n 65) (initial_session (Some (js ''p'')) (Some (js ''v''))) s
     \<and> Put_Graph (js ''v'') g \<in> set (ss_log s) \<and> g_edges g = []
     \<and> conforms (\<lambda>x. 90 \<notin> set x) oa_PlaybookGraphInput (graph_json g)"
proof -
  let ?newId = "\<lambda>n. replicate n 65 :: uuid"
  obtain s g where s: "session_reach {} ?newId (initial_session (Some (js ''p'')) (Some (js ''v''))) s"
    "ss_log s = [Put_Graph (js ''v'') g]" "length (g_nodes g) = 1" "g_edges g = []"
    using unseen_reach [where foreign = "{}" and newId = ?newId and p = "js ''p''" and v = "js ''v''"] by blast
  have fresh: "fresh_source {} ?newId"
    by (auto simp: fresh_source_def inj_def dest: arg_cong [where f = length])
  have "\<forall>x\<in>{} \<union> range ?newId. 90 \<notin> set x" "pred_option (\<lambda>x. 90 \<notin> set x) (Some (js ''v''))"
    "Put_Graph (js ''v'') g \<in> set (ss_log s)"
    using s(2) by (auto simp: js_simps)
  from editor_bodies_conform [OF s(1) fresh this] s show ?thesis by (auto simp: request_graph_def)
qed

text \<open>A sort order of more than 308 digits is an infinity to the form and \<open>null\<close> on the wire.\<close>
lemma huge_order_not_sent:
  "pe_sort_order e = Infinity neg \<Longrightarrow> \<not> conforms ok oa_PlaybookEdge (edge_json e)"
  by (simp add: edge_conforms finite_order_def)

lemma overflowing_order:
  assumes "ed_sort_order e = nat_text (2 ^ 1024)"
  shows "\<not> conforms ok oa_PlaybookEdge (edge_json (serialize_edge e))"
proof -
  have "parseSortOrder (nat_text (2 ^ 1024)) = Infinity False"
    unfolding parseSortOrder_def parse_int10_nat_text of_nat_power of_nat_numeral round_huge by (rule number.case)
  with assms have "pe_sort_order (serialize_edge e) = Infinity False" by (simp only: serialize_edge_simps)
  then show ?thesis by (rule huge_order_not_sent)
qed

section \<open>The decision form and the alert form\<close>

text \<open>Every decision the runner sends conforms to \<open>SubmitDecisionRequest\<close>: its edge is one the
  server offered, actor and rationale have their types, and each item of evidence is a sealed object
  with a type and a summary that say something.\<close>
theorem decision_bodies_conform:
  assumes "inj newId" "runner_reach newId (initial_runner st c m) r"
    "runner_step newId r e = Some r'" "rn_sent r' = rn_sent r @ [(key, body)]"
    "\<forall>choice\<in>set (iv_available_choices (rn_state r)). ok (ch_edge_id choice)"
  shows "conforms ok oa_SubmitDecisionRequest (decision_json body)"
proof -
  have "rn_sent r' \<noteq> rn_sent r" using assms(4) by simp
  from sent_legal [OF assms(1-3) this] assms(4)
  have "sd_edge_id body \<in> ch_edge_id ` set (iv_available_choices (rn_state r))"
    "list_all contract_evidence (sd_evidence body)" by auto
  with assms(5) show ?thesis by (auto simp: decision_conforms list_all_iff contract_evidence_def)
qed

theorem decision_bodies_conform_witness:
  "\<exists>r r' key body. runner_reach nat_text (initial_runner sample_state 0 0) r
     \<and> runner_step nat_text r Submit = Some r' \<and> rn_sent r' = rn_sent r @ [(key, body)]
     \<and> conforms (\<lambda>x. x \<noteq> []) oa_SubmitDecisionRequest (decision_json body)"
proof -
  obtain r r' where r: "runner_reach nat_text (initial_runner sample_state 0 0) r"
    "runner_step nat_text r Submit = Some r'" "rn_sent r' \<noteq> rn_sent r" "rn_state r = sample_state"
    using sample_submit by blast
  have inj: "inj nat_text" by (simp add: inj_def)
  from sent_legal [OF inj r(1-3)] obtain key body where body: "rn_sent r' = rn_sent r @ [(key, body)]" by blast
  have "\<forall>choice\<in>set (iv_available_choices (rn_state r)). ch_edge_id choice \<noteq> []"
    by (simp add: r(4) sample_state_def sample_choice_def)
  from decision_bodies_conform [OF inj r(1,2) body this] r(1,2) body show ?thesis by blast
qed

text \<open>A value of a \<open>datetime-local\<close> box: a minute, with seconds and a fraction of them or without.\<close>
definition is_local :: "jstring \<Rightarrow> bool" where
  "is_local t \<longleftrightarrow> is_minute (take 16 t)
     \<and> (length t = 16 \<or> is_seconds (take 3 (drop 16 t)) \<and> is_fraction (drop 19 t))"

lemma fraction_chars: "is_fraction f \<Longrightarrow> list_all (\<lambda>c. c = 46 \<or> is_digit c) f"
  by (cases f) (auto simp: is_fraction_def all_digits_def list_all_iff)

text \<open>A fraction and a \<open>Z\<close> read back.\<close>
lemma fraction_zone:
  assumes "is_fraction f"
  shows "takeWhile (\<lambda>c. c = 46 \<or> is_digit c) (f @ [90]) = f" "dropWhile (\<lambda>c. c = 46 \<or> is_digit c) (f @ [90]) = [90]"
  using fraction_chars [OF assms] by (simp_all add: list_all_iff is_digit_def takeWhile_append2 dropWhile_append2)

lemma local_moment: "is_local t \<Longrightarrow> is_moment (toRfc3339 now t)"
proof -
  assume t: "is_local t"
  then have long: "16 \<le> length t" by (auto simp: is_local_def is_minute_def)
  show ?thesis
  proof (cases "length t = 16")
    case True
    then have "drop 19 (toRfc3339 now t) = [] @ [90]" "take 16 (toRfc3339 now t) = t"
      "take 3 (drop 16 (toRfc3339 now t)) = js '':00''"
      by (auto simp: toRfc3339_def js_simps)
    moreover have "is_seconds (js '':00'')" by (simp add: is_seconds_def all_digits_def js_simps is_digit_def)
    moreover have "is_fraction []" by (simp add: is_fraction_def)
    ultimately show ?thesis
      using t True by (simp add: is_moment_def is_local_def fraction_zone [of "[]", simplified] is_zone_def is_digit_def)
  next
    case False
    with t have rest: "is_seconds (take 3 (drop 16 t))" "is_fraction (drop 19 t)" by (auto simp: is_local_def)
    then have "19 \<le> length t" by (auto simp: is_seconds_def)
    with False have "drop 19 (toRfc3339 now t) = drop 19 t @ [90]" "take 16 (toRfc3339 now t) = take 16 t"
      "take 3 (drop 16 (toRfc3339 now t)) = take 3 (drop 16 t)"
      by (auto simp: toRfc3339_def js_simps)
    with t rest fraction_zone [OF rest(2)] show ?thesis by (simp add: is_moment_def is_local_def is_zone_def)
  qed
qed

lemma alert_body_conforms:
  assumes "is_local (af_occurred_at f)"
  shows "conforms ok oa_CreateAlertRequest (alert_json (alert_request now f payload))"
  using local_moment [OF assms] by (simp add: alert_conforms alert_request_def)

text \<open>An alert that is ingested conforms to \<open>CreateAlertRequest\<close> whatever the boxes hold, when the
  browser's date box gives a local time: the payload is an object, the moment is RFC 3339 in UTC
  whether or not the box wrote the seconds. A payload that is not an object sends nothing.\<close>
theorem alert_bodies_conform:
  assumes "ingest_step s (Press_Ingest now) = Some s'" "is_local (af_occurred_at (ig_form s))"
  shows "ig_log s' = ig_log s \<and> ig_payloadError s' \<noteq> None \<and> \<not> ig_ingesting s'
    \<or> (\<exists>b. ig_log s' = ig_log s @ [Create_Alert b] \<and> ig_ingesting s' \<and> conforms ok oa_CreateAlertRequest (alert_json b))"
proof -
  have mount: "ig_log (mount_candidates t) = ig_log t" "ig_payloadError (mount_candidates t) = ig_payloadError t"
    "ig_ingesting (mount_candidates t) = ig_ingesting t" for t
    by (auto simp: mount_candidates_def split: option.split)
  from assms(1) have s': "s' = mount_candidates (ingest now s)" "\<not> ig_ingesting s"
    by (auto simp: ingest_step_def split: if_splits)
  show ?thesis
  proof (cases "read_payload (af_payload (ig_form s))")
    case (Inl m)
    with s' show ?thesis by (simp add: mount ingest_def Let_def)
  next
    case (Inr payload)
    with s' alert_body_conforms [OF assms(2)] show ?thesis by (simp add: mount ingest_def Let_def)
  qed
qed

theorem alert_bodies_conform_witness:
  "\<exists>s s'. ingest_step s (Press_Ingest []) = Some s'
     \<and> (\<exists>b. ig_log s' = [Create_Alert b] \<and> conforms (\<lambda>_. True) oa_CreateAlertRequest (alert_json b))"
proof -
  let ?f = "\<lparr>af_external_id = [], af_alert_type = js ''t'', af_title = js ''t'', af_description = [],
      af_occurred_at = js ''2026-08-19T10:30'', af_payload = []\<rparr>"
  let ?s = "(initial_ingest None None)\<lparr>ig_form := ?f\<rparr>"
  have local: "is_local (af_occurred_at (ig_form ?s))"
    by (simp add: is_local_def is_minute_def all_digits_def is_digit_def js_simps)
  have step: "ingest_step ?s (Press_Ingest []) = Some (mount_candidates (ingest [] ?s))"
    by (simp add: ingest_step_def initial_ingest_def alert_panel_def given_def js_simps)
  have "ig_payloadError (mount_candidates (ingest [] ?s)) = None"
    by (simp add: ingest_def read_payload_def mount_candidates_def initial_ingest_def initial_resource_def
        run_effect_def given_def)
  moreover have "ig_log ?s = []" by (simp add: initial_ingest_def)
  ultimately show ?thesis using alert_bodies_conform [OF step local, of "\<lambda>_. True"] step by auto
qed

end
