(* ===== verification/Proxy.thy ===== *)
theory Proxy
  imports Api
begin

text \<open>
  \<open>frontend/src/app/api/[...path]/route.ts\<close>: the same-origin proxy between the console and the
  backend, and the two composed: what the backend receives of a console call and what the
  console makes of the backend's answer. \<open>path\<close> is what the framework's router hands over: the
  segments of the address after \<open>/api/\<close>.
\<close>

definition strip_slashes :: "jstring \<Rightarrow> jstring" where
  "strip_slashes s = rev (dropWhile (\<lambda>c. c = 47) (rev s))"

definition BACKEND_URL :: "jstring option \<Rightarrow> jstring" where
  "BACKEND_URL env = strip_slashes (or_else env (js ''http://localhost:8080''))"

definition FORWARDED_REQUEST_HEADERS :: "jstring list" where
  "FORWARDED_REQUEST_HEADERS = [js ''content-type'', js ''accept'', js ''idempotency-key'']"

definition lower :: "jstring \<Rightarrow> jstring" where
  "lower = map (\<lambda>c. if 65 \<le> c \<and> c \<le> 90 then c + 32 else c)"

text \<open>\<open>Headers.get\<close>: names compare without case.\<close>
definition header :: "jstring \<Rightarrow> (jstring \<times> jstring) list \<Rightarrow> jstring option" where
  "header name hs = map_of (map (\<lambda>(k, v). (lower k, v)) hs) (lower name)"

definition forwarded :: "(jstring \<times> jstring) list \<Rightarrow> (jstring \<times> jstring) list" where
  "forwarded hs =
     concat (map (\<lambda>name. case header name hs of
         None \<Rightarrow> [] | Some v \<Rightarrow> if v = [] then [] else [(name, v)]) FORWARDED_REQUEST_HEADERS)"

fun encode_all :: "jstring list \<Rightarrow> jstring list option" where
  "encode_all [] = Some []"
| "encode_all (s # ss) =
     (case encodeURIComponent s of None \<Rightarrow> None | Some t \<Rightarrow> map_option (Cons t) (encode_all ss))"

text \<open>The upstream call. Only \<open>GET\<close>, \<open>POST\<close> and \<open>PUT\<close> are exported.\<close>
definition proxy_call ::
  "jstring option \<Rightarrow> http_method \<Rightarrow> jstring list \<Rightarrow> jstring \<Rightarrow> (jstring \<times> jstring) list \<Rightarrow> jstring option
     \<Rightarrow> http_call option"
where
  "proxy_call env verb path search headers body =
     map_option (\<lambda>segments.
       \<lparr>hc_method = verb,
        hc_url = BACKEND_URL env @ js ''/api/'' @ join_with (js ''/'') segments @ search,
        hc_headers = forwarded headers,
        hc_body = (if verb = GET then None else Some (or_else body []))\<rparr>)
       (encode_all path)"

record http_response =
  hr_status :: nat
  hr_headers :: "(jstring \<times> jstring) list"
  hr_body :: jstring

definition unreachable :: http_response where
  "unreachable =
     \<lparr>hr_status = 503, hr_headers = [(js ''content-type'', js ''application/json'')],
      hr_body = stringify (JObj [(js ''code'', JStr (js ''NOT_READY'')),
                                 (js ''message'', JStr (js ''the API is unreachable from the console''))])\<rparr>"

text \<open>\<open>None\<close>: the upstream \<open>fetch\<close> threw.\<close>
definition proxy_answer :: "http_response option \<Rightarrow> http_response" where
  "proxy_answer upstream =
     (case upstream of
        None \<Rightarrow> unreachable
      | Some r \<Rightarrow>
          \<lparr>hr_status = hr_status r,
           hr_headers =
             (case header (js ''content-type'') (hr_headers r) of
                None \<Rightarrow> [] | Some t \<Rightarrow> if t = [] then [] else [(js ''content-type'', t)])
             @ [(js ''cache-control'', js ''no-store'')],
           hr_body = hr_body r\<rparr>)"

section \<open>The path\<close>

lemma join_with_append:
  "ss \<noteq> [] \<Longrightarrow> join_with sep (s # ss) = s @ sep @ join_with sep ss"
  by (cases ss) simp_all

lemma encode_no_slash: "encodeURIComponent s = Some t \<Longrightarrow> 47 \<notin> set t \<and> 63 \<notin> set t \<and> 35 \<notin> set t"
  using encode_chars [of s t] by (auto simp: list_all_iff unreserved_def)

lemma encode_all_nth:
  "encode_all ss = Some ts \<Longrightarrow> list_all2 (\<lambda>s t. encodeURIComponent s = Some t) ss ts"
  by (induction ss arbitrary: ts) (auto split: option.splits)

lemma encode_all_plain: "list_all (list_all unreserved) ss \<Longrightarrow> encode_all ss = Some ss"
  by (induction ss) (simp_all add: encode_plain)

section \<open>Console, proxy and backend\<close>

text \<open>What the console asks, as an address of segments and a query.\<close>
datatype console_call =
    List_Playbooks jstring
  | Get_Playbook uuid
  | Post_Playbook create_playbook_request
  | Post_Version uuid create_version_request
  | Get_Version uuid
  | Put_Version uuid graph_input
  | Post_Publish uuid
  | Post_Alert create_alert_request
  | Get_Alert uuid
  | Post_Investigation uuid start_request
  | Get_Investigation uuid
  | Post_Decision uuid submit_decision_request jstring
  | Get_Report uuid

fun call_of :: "console_call \<Rightarrow> http_call option" where
  "call_of (List_Playbooks t) = listPlaybooks (Some t)"
| "call_of (Get_Playbook p) = Some (getPlaybook p)"
| "call_of (Post_Playbook b) = Some (createPlaybook b)"
| "call_of (Post_Version p b) = Some (createPlaybookVersion p b)"
| "call_of (Get_Version v) = Some (getPlaybookVersion v)"
| "call_of (Put_Version v g) = Some (replacePlaybookVersionGraph v g)"
| "call_of (Post_Publish v) = Some (publishPlaybookVersion v)"
| "call_of (Post_Alert b) = Some (createAlert b)"
| "call_of (Get_Alert a) = Some (getAlert a)"
| "call_of (Post_Investigation a b) = Some (startInvestigation a b)"
| "call_of (Get_Investigation i) = Some (getInvestigation i)"
| "call_of (Post_Decision i b k) = Some (submitDecision i b k)"
| "call_of (Get_Report i) = Some (getInvestigationReport i)"

fun segments_of :: "console_call \<Rightarrow> jstring list" where
  "segments_of (List_Playbooks t) = map js [''v1'', ''playbooks'']"
| "segments_of (Get_Playbook p) = map js [''v1'', ''playbooks''] @ [p]"
| "segments_of (Post_Playbook b) = map js [''v1'', ''playbooks'']"
| "segments_of (Post_Version p b) = map js [''v1'', ''playbooks''] @ [p, js ''versions'']"
| "segments_of (Get_Version v) = map js [''v1'', ''playbook-versions''] @ [v]"
| "segments_of (Put_Version v g) = map js [''v1'', ''playbook-versions''] @ [v]"
| "segments_of (Post_Publish v) = map js [''v1'', ''playbook-versions''] @ [v, js ''publish'']"
| "segments_of (Post_Alert b) = map js [''v1'', ''alerts'']"
| "segments_of (Get_Alert a) = map js [''v1'', ''alerts''] @ [a]"
| "segments_of (Post_Investigation a b) = map js [''v1'', ''alerts''] @ [a, js ''investigations'']"
| "segments_of (Get_Investigation i) = map js [''v1'', ''investigations''] @ [i]"
| "segments_of (Post_Decision i b k) = map js [''v1'', ''investigations''] @ [i, js ''decisions'']"
| "segments_of (Get_Report i) = map js [''v1'', ''investigations''] @ [i, js ''report'']"

fun search_of :: "console_call \<Rightarrow> jstring" where
  "search_of (List_Playbooks t) =
     (if t = [] then [] else js ''?alert_type='' @ or_else (encodeURIComponent t) [])"
| "search_of _ = []"

lemma plain_literals [simp]:
  "list_all unreserved (js ''v1'')" "list_all unreserved (js ''playbooks'')" "list_all unreserved (js ''playbook-versions'')"
  "list_all unreserved (js ''versions'')" "list_all unreserved (js ''publish'')" "list_all unreserved (js ''alerts'')"
  "list_all unreserved (js ''investigations'')" "list_all unreserved (js ''decisions'')" "list_all unreserved (js ''report'')"
  by (simp_all add: js_simps unreserved_def)

lemma call_address:
  assumes "call_of r = Some c"
  shows "hc_url c = js ''/api/'' @ join_with (js ''/'') (segments_of r) @ search_of r"
  using assms
  by (cases r) (auto simp: listPlaybooks_def endpoint_defs request_call_def BASE_def js_simps
      split: if_splits option.splits)

lemma call_shape:
  assumes "call_of r = Some c"
  shows "(hc_method c = GET \<longrightarrow> hc_body c = None)
    \<and> set (hc_headers c) \<subseteq> {js ''Content-Type'', js ''Idempotency-Key''} \<times> UNIV
    \<and> (\<forall>(k, v)\<in>set (hc_headers c). v \<noteq> []) \<and> distinct (map fst (hc_headers c))"
  using assms
  by (cases r) (auto simp: listPlaybooks_def endpoint_defs request_call_def split: if_splits option.splits)

lemma lower_names:
  "lower (js ''Content-Type'') = js ''content-type''" "lower (js ''Idempotency-Key'') = js ''idempotency-key''"
  "lower (js ''content-type'') = js ''content-type''" "lower (js ''idempotency-key'') = js ''idempotency-key''"
  "lower (js ''accept'') = js ''accept''"
  by (simp_all add: lower_def js_simps)

lemma header_Some:
  assumes "header n hs = Some v" "set hs \<subseteq> {js ''Content-Type'', js ''Idempotency-Key''} \<times> UNIV"
  shows "lower n \<in> {js ''content-type'', js ''idempotency-key''} \<and> v \<in> snd ` set hs"
proof -
  from assms(1) have "(lower n, v) \<in> set (map (\<lambda>(k, v). (lower k, v)) hs)"
    unfolding header_def by (rule map_of_SomeD)
  then obtain k where k: "(k, v) \<in> set hs" "lower n = lower k" by auto
  with assms(2) have "k \<in> {js ''Content-Type'', js ''Idempotency-Key''}" by auto
  with k show ?thesis by (force simp: lower_names)
qed

text \<open>A console header reaches the backend under its lower-case name.\<close>
lemma forwarded_header:
  assumes "set hs \<subseteq> {js ''Content-Type'', js ''Idempotency-Key''} \<times> UNIV" "\<forall>(k, v)\<in>set hs. v \<noteq> []"
  shows "header n (forwarded hs) = header n hs"
proof -
  let ?opt = "\<lambda>name. case header name hs of None \<Rightarrow> [] | Some v \<Rightarrow> if v = [] then [] else [(name, v)]"
  have some: "header m hs = Some v \<Longrightarrow> v \<noteq> []" for m v
    using header_Some [OF _ assms(1)] assms(2) by fastforce
  have same: "lower m = lower m' \<Longrightarrow> header m hs = header m' hs" for m m' by (simp add: header_def)
  have "header (js ''accept'') hs = None"
    using header_Some [OF _ assms(1), of "js ''accept''"] by (cases "header (js ''accept'') hs") (auto simp: lower_names)
  then have split: "forwarded hs = ?opt (js ''content-type'') @ ?opt (js ''idempotency-key'')"
    by (simp add: forwarded_def FORWARDED_REQUEST_HEADERS_def)
  have part: "header n (?opt m @ r) = (if lower n = lower m \<and> header m hs \<noteq> None then header m hs else header n r)"
    for m r
    using some [of m] by (cases "header m hs") (auto simp: header_def)
  have "header n [] = None" by (simp add: header_def)
  with part [of "js ''idempotency-key''" "[]"]
  have "header n (?opt (js ''idempotency-key''))
      = (if lower n = lower (js ''idempotency-key'') then header (js ''idempotency-key'') hs else None)"
    by (cases "header (js ''idempotency-key'') hs") simp_all
  with part [of "js ''content-type''" "?opt (js ''idempotency-key'')"] split
  have found: "header n (forwarded hs) =
      (if lower n = lower (js ''content-type'') \<and> header (js ''content-type'') hs \<noteq> None
       then header (js ''content-type'') hs
       else if lower n = lower (js ''idempotency-key'') then header (js ''idempotency-key'') hs else None)"
    by (simp only:)
  show ?thesis
  proof (cases "header n hs")
    case None
    with found same [of n] show ?thesis by (auto simp: lower_names)
  next
    case (Some v)
    from header_Some [OF Some assms(1)]
    consider "lower n = lower (js ''content-type'')" | "lower n = lower (js ''idempotency-key'')"
      by (auto simp: lower_names)
    then show ?thesis
    proof cases
      case 1
      from same [OF this] Some have "header (js ''content-type'') hs = Some v" by simp
      with 1 Some show ?thesis unfolding found by simp
    next
      case 2
      from same [OF this] Some have "header (js ''idempotency-key'') hs = Some v" by simp
      with 2 Some show ?thesis unfolding found by (simp add: lower_names)
    qed
  qed
qed

section \<open>Properties\<close>

lemma proxied_call:
  assumes "call_of r = Some c" "list_all (list_all unreserved) (segments_of r)"
  shows "\<exists>u. proxy_call env (hc_method c) (segments_of r) (search_of r) (hc_headers c) (hc_body c) = Some u
    \<and> hc_method u = hc_method c \<and> hc_url u = BACKEND_URL env @ hc_url c
    \<and> (\<forall>n. header n (hc_headers u) = header n (hc_headers c))
    \<and> hc_body u = (if hc_method c = GET then hc_body c else Some (or_else (hc_body c) []))"
  using call_shape [OF assms(1)] forwarded_header [of "hc_headers c"]
  by (auto simp: proxy_call_def encode_all_plain [OF assms(2)] call_address [OF assms(1)])

text \<open>The proxy is transparent to a console call whose ids need no escaping: the backend gets the
  same method, the same address below its own base, the same headers and the same body, a
  missing body of a write arriving as an empty one.\<close>
theorem proxy_is_transparent:
  assumes "call_of r = Some c" "list_all (list_all unreserved) (segments_of r)"
  shows "\<exists>u. proxy_call env (hc_method c) (segments_of r) (search_of r) (hc_headers c) (hc_body c) = Some u
    \<and> hc_method u = hc_method c \<and> hc_url u = BACKEND_URL env @ hc_url c
    \<and> (\<forall>n. header n (hc_headers u) = header n (hc_headers c))
    \<and> hc_body u = (if hc_method c = GET then hc_body c else Some (or_else (hc_body c) []))"
  using assms by (rule proxied_call)

theorem proxy_is_transparent_witness:
  "\<exists>c u. call_of (Get_Alert (js ''a1'')) = Some c
     \<and> proxy_call None (hc_method c) (segments_of (Get_Alert (js ''a1''))) [] (hc_headers c) (hc_body c) = Some u
     \<and> hc_url u = js ''http://localhost:8080/api/v1/alerts/a1''"
proof -
  let ?c = "getAlert (js ''a1'')"
  have c: "call_of (Get_Alert (js ''a1'')) = Some ?c" by simp
  have "list_all (list_all unreserved) (segments_of (Get_Alert (js ''a1'')))"
    by (simp add: js_simps unreserved_def)
  from proxy_is_transparent [OF c this, of None] obtain u
    where u: "proxy_call None (hc_method ?c) (segments_of (Get_Alert (js ''a1''))) [] (hc_headers ?c) (hc_body ?c) = Some u"
      "hc_url u = BACKEND_URL None @ hc_url ?c"
    by auto
  moreover have "BACKEND_URL None @ hc_url ?c = js ''http://localhost:8080/api/v1/alerts/a1''"
    by (simp add: BACKEND_URL_def strip_slashes_def endpoint_defs request_call_def BASE_def js_simps)
  ultimately show ?thesis using c by auto
qed

text \<open>What the console makes of a proxied answer is what it would make of the backend's own: the
  same data or the same error, with the same status; and a backend that cannot be reached is an
  API error 503 \<open>NOT_READY\<close>, which the console's table explains.\<close>
theorem proxied_answer_is_backend_answer:
  "case upstream of
     Some r \<Rightarrow> request_answer (Answered (hr_status (proxy_answer upstream)) (Inr (hr_body (proxy_answer upstream))))
                 = request_answer (Answered (hr_status r) (Inr (hr_body r)))
   | None \<Rightarrow> \<exists>err. request_answer (Answered (hr_status (proxy_answer upstream)) (Inr (hr_body (proxy_answer upstream))))
                 = Inl (Api_Failure err) \<and> ae_status err = 503 \<and> ae_code err = js ''NOT_READY''
               \<and> (\<exists>title. explainErrorCode (ae_code err) = Own title)"
proof (cases upstream)
  case (Some r)
  then show ?thesis by (simp add: proxy_answer_def)
next
  case None
  let ?v = "JObj [(js ''code'', JStr (js ''NOT_READY'')),
                  (js ''message'', JStr (js ''the API is unreachable from the console''))]"
  have "wf_json ?v" by (simp add: wf_object_iff wf_JObj canonical_def is_digit_def)
  then have parsed: "parse_json (stringify ?v) = Some ?v" by (rule compact.parse_show)
  moreover have "stringify ?v \<noteq> []" by (rule compact.show_object_nonempty)
  moreover have "\<not> response_ok 503" by (simp add: response_ok_def)
  ultimately have "request_answer (Answered 503 (Inr (stringify ?v)))
      = Inl (Api_Failure (new_ApiError 503 (error_body ?v)))"
    by (simp add: request_answer_def)
  moreover have "explainErrorCode (js ''NOT_READY'') \<noteq> Absent \<and> (\<exists>title. explainErrorCode (js ''NOT_READY'') = Own title)"
    by (simp add: explainErrorCode_def table_lookup_def CODE_TITLES_def)
  ultimately show ?thesis
    using None by (auto simp: proxy_answer_def unreachable_def new_ApiError_def error_body_def text_prop_def)
qed

text \<open>Nothing in a segment can change which address is asked upstream: the path splits back into
  as many segments, each of which decodes to the one handed over, and none introduces a query or
  a fragment.\<close>
theorem proxied_segments_intact:
  assumes "encode_all path = Some segs" "path \<noteq> []"
  shows "split_on 47 (join_with (js ''/'') segs) = segs
    \<and> list_all2 (\<lambda>s t. decode_uri t = Some s) path segs
    \<and> list_all (\<lambda>t. 63 \<notin> set t \<and> 35 \<notin> set t) segs"
proof -
  from encode_all_nth [OF assms(1)] have enc: "list_all2 (\<lambda>s t. encodeURIComponent s = Some t) path segs" .
  then have "list_all2 (\<lambda>s t. decode_uri t = Some s) path segs"
    by (rule list_all2_mono) (rule decode_encode)
  moreover have plain: "47 \<notin> set t \<and> 63 \<notin> set t \<and> 35 \<notin> set t" if "t \<in> set segs" for t
  proof -
    from that obtain i where "i < length segs" "t = segs ! i" by (auto simp: in_set_conv_nth)
    with enc have "encodeURIComponent (path ! i) = Some t" by (simp add: list_all2_conv_all_nth)
    then show ?thesis by (rule encode_no_slash)
  qed
  moreover have "segs \<noteq> []" using enc assms(2) by auto
  ultimately show ?thesis by (simp add: split_on_join js_simps list_all_iff)
qed

theorem proxied_segments_intact_witness:
  "\<exists>segs. encode_all [js ''a/b''] = Some segs \<and> split_on 47 (join_with (js ''/'') segs) = segs"
proof -
  have "encode_all [js ''a/b''] \<noteq> None"
    by (simp add: encodeURIComponent_def js_simps is_high_def is_low_def)
  then obtain segs where segs: "encode_all [js ''a/b''] = Some segs" by blast
  from proxied_segments_intact [OF this] segs show ?thesis by blast
qed

text \<open>The value each write sends as its body.\<close>
fun body_json :: "console_call \<Rightarrow> json option" where
  "body_json (Post_Playbook b) = Some (playbook_json b)"
| "body_json (Post_Version p b) = Some (version_json b)"
| "body_json (Put_Version v g) = Some (graph_json g)"
| "body_json (Post_Alert b) = Some (alert_json b)"
| "body_json (Post_Investigation a b) = Some (start_json b)"
| "body_json (Post_Decision i b k) = Some (decision_json b)"
| "body_json _ = None"

text \<open>The opaque objects inside a request are JSON objects.\<close>
fun objects_ok :: "console_call \<Rightarrow> bool" where
  "objects_ok (Post_Playbook b) = (pred_option wf_graph (cp_definition b))"
| "objects_ok (Put_Version v g) = wf_graph g"
| "objects_ok (Post_Alert b) = wf_object (ca_payload b)"
| "objects_ok (Post_Decision i b k) = list_all wf_evidence (sd_evidence b)"
| "objects_ok _ = True"

lemma body_json_wf: "objects_ok r \<Longrightarrow> pred_option wf_json (body_json r)"
  by (cases r) (auto simp: playbook_json_wf graph_json_wf alert_json_wf decision_json_wf)

lemma body_reads_back:
  assumes "call_of r = Some c" "objects_ok r"
  shows "map_option parse_json (hc_body c) = map_option Some (body_json r)"
proof -
  have "hc_body c = map_option stringify (body_json r)"
    using assms(1)
    by (cases r) (auto simp: listPlaybooks_def endpoint_defs request_call_def split: if_splits option.splits)
  with body_json_wf [OF assms(2)] show ?thesis
    by (cases "body_json r") (simp_all add: compact.parse_show)
qed

text \<open>Every body the console sends reads back, through JSON, as the value of its request: ids,
  texts, numbers and nested objects arrive as they were, and two requests with different values
  never share a body.\<close>
theorem bodies_read_back:
  assumes "call_of r = Some c" "objects_ok r"
  shows "map_option parse_json (hc_body c) = map_option Some (body_json r)"
  using assms by (rule body_reads_back)

theorem bodies_read_back_witness:
  "\<exists>c. call_of (Post_Investigation (js ''a'') \<lparr>st_playbook_version_id = js ''v''\<rparr>) = Some c
     \<and> map_option parse_json (hc_body c) = Some (Some (JObj [(js ''playbook_version_id'', JStr (js ''v''))]))"
proof -
  have c: "call_of (Post_Investigation (js ''a'') \<lparr>st_playbook_version_id = js ''v''\<rparr>)
      = Some (startInvestigation (js ''a'') \<lparr>st_playbook_version_id = js ''v''\<rparr>)" by simp
  have "objects_ok (Post_Investigation (js ''a'') \<lparr>st_playbook_version_id = js ''v''\<rparr>)" by simp
  from bodies_read_back [OF c this] c show ?thesis by (simp add: start_json_def)
qed

end
