(* ===== verification/Operations.thy ===== *)
theory Operations
  imports Conformance Proxy
begin

text \<open>
  The paths of \<open>api/openapi.yaml\<close>: each operation under \<open>/api/v1\<close> as a record of its method, its path
  template, its parameters, its body and its answers, and what it is for a request, as the backend
  is handed it, to be addressed to an operation and to be one it accepts. The properties put the
  client of \<open>lib/api.ts\<close> and the proxy against this table in both directions. The health probes, which
  the console never calls, are left out.
\<close>

section \<open>Operations\<close>

datatype path_part = Lit string | Id_Param string

record operation =
  op_id :: string
  op_method :: http_method
  op_path :: "path_part list"
  op_query :: "string list"
  op_headers :: "string list"
  op_body :: "(bool \<times> schema) option"
  op_answers :: "(nat \<times> schema) list"

definition oa_GraphValidationIssue :: schema where
  "oa_GraphValidationIssue = object_of
     [optional ''node_id'' Id_Text, optional ''edge_id'' Id_Text,
      needed ''reason'' (One_Of [''missing_root'', ''dangling_reference'', ''unreachable_from_root'', ''cycle_detected'',
        ''decision_node_without_edges'', ''terminal_node_with_edges'', ''terminal_node_missing_resolution'',
        ''decision_node_with_resolution''])]"

definition oa_PublishValidationError :: schema where
  "oa_PublishValidationError = and_fields oa_Error [optional ''details'' (Listed oa_GraphValidationIssue)]"

definition in_v1 :: "path_part list \<Rightarrow> path_part list" where
  "in_v1 path = Lit ''api'' # Lit ''v1'' # path"

definition op_createPlaybook :: operation where
  "op_createPlaybook = \<lparr>op_id = ''createPlaybook'', op_method = POST, op_path = in_v1 [Lit ''playbooks''],
     op_query = [], op_headers = [], op_body = Some (True, oa_CreatePlaybookRequest),
     op_answers = [(201, oa_PlaybookWithVersions), (400, oa_Error)]\<rparr>"

definition op_listPlaybooks :: operation where
  "op_listPlaybooks = \<lparr>op_id = ''listPlaybooks'', op_method = GET, op_path = in_v1 [Lit ''playbooks''],
     op_query = [''alert_type''], op_headers = [], op_body = None, op_answers = [(200, oa_PlaybookList)]\<rparr>"

definition op_getPlaybook :: operation where
  "op_getPlaybook = \<lparr>op_id = ''getPlaybook'', op_method = GET,
     op_path = in_v1 [Lit ''playbooks'', Id_Param ''playbookId''],
     op_query = [], op_headers = [], op_body = None,
     op_answers = [(200, oa_PlaybookWithVersions), (404, oa_Error)]\<rparr>"

definition op_createPlaybookVersion :: operation where
  "op_createPlaybookVersion = \<lparr>op_id = ''createPlaybookVersion'', op_method = POST,
     op_path = in_v1 [Lit ''playbooks'', Id_Param ''playbookId'', Lit ''versions''],
     op_query = [], op_headers = [], op_body = Some (False, oa_CreatePlaybookVersionRequest),
     op_answers = [(201, oa_PlaybookVersionDefinition), (404, oa_Error)]\<rparr>"

definition op_getPlaybookVersion :: operation where
  "op_getPlaybookVersion = \<lparr>op_id = ''getPlaybookVersion'', op_method = GET,
     op_path = in_v1 [Lit ''playbook-versions'', Id_Param ''versionId''],
     op_query = [], op_headers = [], op_body = None,
     op_answers = [(200, oa_PlaybookVersionDefinition), (404, oa_Error)]\<rparr>"

definition op_replacePlaybookVersionGraph :: operation where
  "op_replacePlaybookVersionGraph = \<lparr>op_id = ''replacePlaybookVersionGraph'', op_method = PUT,
     op_path = in_v1 [Lit ''playbook-versions'', Id_Param ''versionId''],
     op_query = [], op_headers = [], op_body = Some (True, oa_PlaybookGraphInput),
     op_answers = [(200, oa_PlaybookVersionDefinition), (400, oa_Error), (404, oa_Error), (409, oa_Error)]\<rparr>"

definition op_publishPlaybookVersion :: operation where
  "op_publishPlaybookVersion = \<lparr>op_id = ''publishPlaybookVersion'', op_method = POST,
     op_path = in_v1 [Lit ''playbook-versions'', Id_Param ''versionId'', Lit ''publish''],
     op_query = [], op_headers = [], op_body = None,
     op_answers = [(200, oa_PlaybookVersionDefinition), (404, oa_Error), (409, oa_Error),
       (422, oa_PublishValidationError)]\<rparr>"

definition op_createAlert :: operation where
  "op_createAlert = \<lparr>op_id = ''createAlert'', op_method = POST, op_path = in_v1 [Lit ''alerts''],
     op_query = [], op_headers = [], op_body = Some (True, oa_CreateAlertRequest),
     op_answers = [(201, oa_Alert), (200, oa_Alert), (400, oa_Error)]\<rparr>"

definition op_getAlert :: operation where
  "op_getAlert = \<lparr>op_id = ''getAlert'', op_method = GET, op_path = in_v1 [Lit ''alerts'', Id_Param ''alertId''],
     op_query = [], op_headers = [], op_body = None, op_answers = [(200, oa_Alert), (404, oa_Error)]\<rparr>"

definition op_startInvestigation :: operation where
  "op_startInvestigation = \<lparr>op_id = ''startInvestigation'', op_method = POST,
     op_path = in_v1 [Lit ''alerts'', Id_Param ''alertId'', Lit ''investigations''],
     op_query = [], op_headers = [], op_body = Some (True, oa_StartInvestigationRequest),
     op_answers = [(201, oa_InvestigationState), (400, oa_Error), (404, oa_Error), (409, oa_Error)]\<rparr>"

definition op_getInvestigation :: operation where
  "op_getInvestigation = \<lparr>op_id = ''getInvestigation'', op_method = GET,
     op_path = in_v1 [Lit ''investigations'', Id_Param ''investigationId''],
     op_query = [], op_headers = [], op_body = None,
     op_answers = [(200, oa_InvestigationState), (404, oa_Error)]\<rparr>"

definition op_submitDecision :: operation where
  "op_submitDecision = \<lparr>op_id = ''submitDecision'', op_method = POST,
     op_path = in_v1 [Lit ''investigations'', Id_Param ''investigationId'', Lit ''decisions''],
     op_query = [], op_headers = [''Idempotency-Key''], op_body = Some (True, oa_SubmitDecisionRequest),
     op_answers = [(200, oa_InvestigationState), (400, oa_Error), (404, oa_Error), (409, oa_Error)]\<rparr>"

definition op_getInvestigationReport :: operation where
  "op_getInvestigationReport = \<lparr>op_id = ''getInvestigationReport'', op_method = GET,
     op_path = in_v1 [Lit ''investigations'', Id_Param ''investigationId'', Lit ''report''],
     op_query = [], op_headers = [], op_body = None,
     op_answers = [(200, oa_InvestigationReport), (404, oa_Error)]\<rparr>"

definition operations :: "operation list" where
  "operations =
     [op_createPlaybook, op_listPlaybooks, op_getPlaybook, op_createPlaybookVersion, op_getPlaybookVersion,
      op_replacePlaybookVersionGraph, op_publishPlaybookVersion, op_createAlert, op_getAlert, op_startInvestigation,
      op_getInvestigation, op_submitDecision, op_getInvestigationReport]"

lemmas operation_defs = op_createPlaybook_def op_listPlaybooks_def op_getPlaybook_def op_createPlaybookVersion_def
  op_getPlaybookVersion_def op_replacePlaybookVersionGraph_def op_publishPlaybookVersion_def op_createAlert_def
  op_getAlert_def op_startInvestigation_def op_getInvestigation_def op_submitDecision_def
  op_getInvestigationReport_def in_v1_def

section \<open>Requests as the backend is handed them\<close>

text \<open>The ids an address gives for the parameters of a template, if it is one of its addresses.\<close>
fun path_ids :: "path_part list \<Rightarrow> jstring list \<Rightarrow> uuid list option" where
  "path_ids [] [] = Some []"
| "path_ids (Lit s # ps) (t # ts) = (if t = js s then path_ids ps ts else None)"
| "path_ids (Id_Param n # ps) (t # ts) =
     (case decode_uri t of None \<Rightarrow> None | Some i \<Rightarrow> map_option (Cons i) (path_ids ps ts))"
| "path_ids _ _ = None"

definition address_segments :: "jstring \<Rightarrow> jstring list" where
  "address_segments address = drop 1 (split_on 47 (takeWhile (\<lambda>c. c \<noteq> 63) address))"

definition addressed :: "http_method \<Rightarrow> jstring \<Rightarrow> operation \<Rightarrow> bool" where
  "addressed verb address op \<longleftrightarrow> op_method op = verb \<and> path_ids (op_path op) (address_segments address) \<noteq> None"

definition body_accepted :: "(uuid \<Rightarrow> bool) \<Rightarrow> operation \<Rightarrow> jstring option \<Rightarrow> bool" where
  "body_accepted ok op body =
     (case op_body op of
        None \<Rightarrow> or_else body [] = []
      | Some (must, t) \<Rightarrow>
          if or_else body [] = [] then \<not> must
          else (case parse_json (or_else body []) of None \<Rightarrow> False | Some j \<Rightarrow> conforms ok t j))"

definition accepts :: "(uuid \<Rightarrow> bool) \<Rightarrow> operation \<Rightarrow> jstring \<Rightarrow> http_call \<Rightarrow> bool" where
  "accepts ok op address u \<longleftrightarrow>
     (case path_ids (op_path op) (address_segments address) of None \<Rightarrow> False | Some ids \<Rightarrow> list_all ok ids)
     \<and> (case address_params address of None \<Rightarrow> False | Some kvs \<Rightarrow> list_all (\<lambda>kv. fst kv \<in> js ` set (op_query op)) kvs)
     \<and> list_all (\<lambda>kv. lower (fst kv) \<in> insert (js ''content-type'') (lower ` js ` set (op_headers op))) (hc_headers u)
     \<and> (or_else (hc_body u) [] \<noteq> [] \<longrightarrow> header (js ''content-type'') (hc_headers u) = Some (js ''application/json''))
     \<and> body_accepted ok op (hc_body u)"

section \<open>What the client calls\<close>

fun operation_of :: "console_call \<Rightarrow> operation" where
  "operation_of (List_Playbooks t) = op_listPlaybooks"
| "operation_of (Get_Playbook p) = op_getPlaybook"
| "operation_of (Post_Playbook b) = op_createPlaybook"
| "operation_of (Post_Version p b) = op_createPlaybookVersion"
| "operation_of (Get_Version v) = op_getPlaybookVersion"
| "operation_of (Put_Version v g) = op_replacePlaybookVersionGraph"
| "operation_of (Post_Publish v) = op_publishPlaybookVersion"
| "operation_of (Post_Alert b) = op_createAlert"
| "operation_of (Get_Alert a) = op_getAlert"
| "operation_of (Post_Investigation a b) = op_startInvestigation"
| "operation_of (Get_Investigation i) = op_getInvestigation"
| "operation_of (Post_Decision i b k) = op_submitDecision"
| "operation_of (Get_Report i) = op_getInvestigationReport"

text \<open>The type each endpoint function casts its answer to.\<close>
fun answer_type :: "console_call \<Rightarrow> schema" where
  "answer_type (List_Playbooks t) = ts_PlaybookList"
| "answer_type (Get_Playbook p) = ts_PlaybookWithVersions"
| "answer_type (Post_Playbook b) = ts_PlaybookWithVersions"
| "answer_type (Post_Version p b) = ts_PlaybookVersionDefinition"
| "answer_type (Get_Version v) = ts_PlaybookVersionDefinition"
| "answer_type (Put_Version v g) = ts_PlaybookVersionDefinition"
| "answer_type (Post_Publish v) = ts_PlaybookVersionDefinition"
| "answer_type (Post_Alert b) = ts_Alert"
| "answer_type (Get_Alert a) = ts_Alert"
| "answer_type (Post_Investigation a b) = ts_InvestigationState"
| "answer_type (Get_Investigation i) = ts_InvestigationState"
| "answer_type (Post_Decision i b k) = ts_InvestigationState"
| "answer_type (Get_Report i) = ts_InvestigationReport"

text \<open>The ids that stand in the path of a call.\<close>
fun path_ids_of :: "console_call \<Rightarrow> uuid list" where
  "path_ids_of (Get_Playbook p) = [p]"
| "path_ids_of (Post_Version p b) = [p]"
| "path_ids_of (Get_Version v) = [v]"
| "path_ids_of (Put_Version v g) = [v]"
| "path_ids_of (Post_Publish v) = [v]"
| "path_ids_of (Get_Alert a) = [a]"
| "path_ids_of (Post_Investigation a b) = [a]"
| "path_ids_of (Get_Investigation i) = [i]"
| "path_ids_of (Post_Decision i b k) = [i]"
| "path_ids_of (Get_Report i) = [i]"
| "path_ids_of _ = []"

text \<open>What the backend is handed of a console call.\<close>
definition upstream :: "jstring option \<Rightarrow> console_call \<Rightarrow> http_call option" where
  "upstream env r =
     (case call_of r of
        None \<Rightarrow> None
      | Some c \<Rightarrow> proxy_call env (hc_method c) (segments_of r) (search_of r) (hc_headers c) (hc_body c))"

lemma upstream_call:
  assumes "call_of r = Some c" "list_all (list_all unreserved) (segments_of r)"
  shows "\<exists>u. upstream env r = Some u \<and> hc_method u = hc_method c \<and> hc_url u = BACKEND_URL env @ hc_url c
    \<and> (\<forall>n. header n (hc_headers u) = header n (hc_headers c))
    \<and> hc_body u = (if hc_method c = GET then hc_body c else Some (or_else (hc_body c) []))"
  using proxied_call [OF assms, of env] by (simp add: upstream_def assms(1))

text \<open>The part of an address below the backend's own base.\<close>
definition below_base :: "jstring option \<Rightarrow> jstring \<Rightarrow> jstring" where
  "below_base env url = drop (length (BACKEND_URL env)) url"

section \<open>Addresses\<close>

lemma segment_chars: "list_all unreserved s \<Longrightarrow> 47 \<notin> set s \<and> 63 \<notin> set s"
  by (auto simp: list_all_iff unreserved_def)

lemma join_no_query: "list_all (list_all unreserved) ss \<Longrightarrow> 63 \<notin> set (join_with (js ''/'') ss)"
proof (induction ss)
  case (Cons s ss)
  then show ?case using segment_chars [of s] by (cases ss) (auto simp: js_simps)
qed simp

lemma address_of_call:
  assumes "list_all (list_all unreserved) ss" "ss \<noteq> []" "q = [] \<or> (\<exists>r. q = 63 # r)"
  shows "address_segments (js ''/api/'' @ join_with (js ''/'') ss @ q) = js ''api'' # ss"
proof -
  have plain: "list_all (\<lambda>s. 47 \<notin> set s) ss"
    using assms(1) segment_chars by (auto simp: list_all_iff)
  from join_no_query [OF assms(1)] have "takeWhile (\<lambda>c. c \<noteq> 63) (js ''/api/'' @ join_with (js ''/'') ss @ q) = js ''/api/'' @ join_with (js ''/'') ss"
    using assms(3) by (auto simp: js_simps takeWhile_append)
  also have "\<dots> = join_with [47] ([] # js ''api'' # ss)"
    using assms(2) by (cases ss) (simp_all add: js_simps)
  finally show ?thesis
    using split_on_join [of "[] # js ''api'' # ss" 47] plain by (simp add: address_segments_def js_simps)
qed

lemma decode_plain: "list_all unreserved s \<Longrightarrow> decode_uri s = Some s"
  using decode_encode [OF encode_plain] .

lemma query_of_call:
  assumes "63 \<notin> set path" "encodeURIComponent t = Some q"
  shows "address_params (path @ js ''?alert_type='' @ q) = Some [(js ''alert_type'', t)]"
proof -
  have safe: "38 \<notin> set q" "43 \<notin> set q"
    using encode_chars [OF assms(2)] by (auto simp: list_all_iff unreserved_def)
  then have "map (\<lambda>c. if c = 43 then 32 else c) q = q" by (intro map_idI) auto
  then have "read_text q = Some t" by (simp add: read_text_def decode_encode [OF assms(2)])
  moreover have "read_text (js ''alert_type'') = Some (js ''alert_type'')"
    by (simp add: read_text_def js_simps decode_plain unreserved_def)
  ultimately have pair: "read_pair (js ''alert_type='' @ q) = Some (js ''alert_type'', t)"
    by (simp add: read_pair_def js_simps)
  have cut: "dropWhile (\<lambda>c. c \<noteq> 63) (path @ js ''?alert_type='' @ q) = js ''?alert_type='' @ q"
    using assms(1) by (induction path) (auto simp: js_simps)
  have "split_on 38 (js ''alert_type='' @ q) = [js ''alert_type='' @ q]"
    using safe(1) by (intro split_on_plain) (auto simp: js_simps)
  with pair show ?thesis
    unfolding address_params_def cut by (simp add: read_search_def js_simps)
qed

lemma no_query: "63 \<notin> set path \<Longrightarrow> address_params path = Some []"
proof -
  assume "63 \<notin> set path"
  then have none: "dropWhile (\<lambda>c. c \<noteq> 63) path = []" by (induction path) auto
  show ?thesis unfolding address_params_def none by (simp add: read_search_def)
qed

section \<open>Every call is its operation\<close>

lemma segments_ids:
  assumes "list_all (list_all unreserved) (segments_of r)"
  shows "path_ids (op_path (operation_of r)) (js ''api'' # segments_of r) = Some (path_ids_of r)"
  using assms by (cases r) (simp_all add: operation_defs decode_plain js_simps)

lemma call_verb: "call_of r = Some c \<Longrightarrow> hc_method c = op_method (operation_of r)"
  by (cases r) (auto simp: operation_defs endpoint_defs request_call_def listPlaybooks_def split: if_splits option.splits)

text \<open>No two operations share an address: the one a call is addressed to is its own.\<close>
lemma one_operation:
  assumes "list_all (list_all unreserved) (segments_of r)"
  shows "filter (\<lambda>op. op_method op = op_method (operation_of r) \<and> path_ids (op_path op) (js ''api'' # segments_of r) \<noteq> None) operations
    = [operation_of r]"
  using segments_ids [OF assms] assms
  by (cases r) (simp_all add: operations_def operation_defs js_simps decode_plain)

lemma call_operation:
  assumes "call_of r = Some c" "list_all (list_all unreserved) (segments_of r)"
  shows "address_segments (hc_url c) = js ''api'' # segments_of r"
    "\<exists>kvs. address_params (hc_url c) = Some kvs \<and> list_all (\<lambda>kv. fst kv \<in> js ` set (op_query (operation_of r))) kvs"
proof -
  note url = call_address [OF assms(1)]
  have some: "segments_of r \<noteq> []" by (cases r) simp_all
  have q: "search_of r = [] \<or> (\<exists>x. search_of r = 63 # x)" by (cases r) (simp_all add: js_simps)
  show "address_segments (hc_url c) = js ''api'' # segments_of r"
    unfolding url by (rule address_of_call [OF assms(2) some q])
  have path: "63 \<notin> set (js ''/api/'' @ join_with (js ''/'') (segments_of r))"
    using join_no_query [OF assms(2)] by (simp add: js_simps)
  show "\<exists>kvs. address_params (hc_url c) = Some kvs \<and> list_all (\<lambda>kv. fst kv \<in> js ` set (op_query (operation_of r))) kvs"
  proof (cases "search_of r = []")
    case True
    with no_query [OF path] url show ?thesis by simp
  next
    case False
    then obtain t where r: "r = List_Playbooks t" "t \<noteq> []" by (cases r) (auto split: if_splits)
    with assms(1) obtain x where x: "encodeURIComponent t = Some x" by (auto simp: listPlaybooks_def)
    with r url query_of_call [OF path x] show ?thesis by (simp add: operation_defs)
  qed
qed

lemma call_headers:
  assumes "call_of r = Some c"
  shows "list_all (\<lambda>kv. lower (fst kv) \<in> insert (js ''content-type'') (lower ` js ` set (op_headers (operation_of r)))) (hc_headers c)"
    "hc_body c \<noteq> None \<Longrightarrow> header (js ''content-type'') (hc_headers c) = Some (js ''application/json'')"
  using assms
  by (cases r; auto simp: operation_defs endpoint_defs request_call_def listPlaybooks_def lower_names header_def
      split: if_splits option.splits)+

text \<open>A header that is handed on is one the console sent.\<close>
lemma forwarded_names:
  assumes "kv \<in> set (forwarded hs)"
  shows "\<exists>k. (k, snd kv) \<in> set hs \<and> lower (fst kv) = lower k"
proof -
  from assms obtain name v where kv: "kv = (name, v)" "header name hs = Some v"
    by (auto simp: forwarded_def split: option.splits if_splits)
  then have "(lower name, v) \<in> set (map (\<lambda>(k, v). (lower k, v)) hs)"
    unfolding header_def by (blast dest: map_of_SomeD)
  with kv show ?thesis by auto
qed

text \<open>What the backend is handed of a call lies at the address of its operation and has its shape.\<close>
lemma handed:
  assumes "upstream env r = Some u" "list_all (list_all unreserved) (segments_of r)"
  obtains c where "call_of r = Some c" "below_base env (hc_url u) = hc_url c" "hc_method u = op_method (operation_of r)"
    "or_else (hc_body u) [] = or_else (hc_body c) []" "hc_headers u = forwarded (hc_headers c)"
    "\<And>n. header n (hc_headers u) = header n (hc_headers c)"
proof -
  from assms(1) obtain c where c: "call_of r = Some c" by (auto simp: upstream_def split: option.splits)
  from upstream_call [OF c assms(2), of env] assms(1)
  have u: "hc_method u = hc_method c" "hc_url u = BACKEND_URL env @ hc_url c" "\<And>n. header n (hc_headers u) = header n (hc_headers c)"
    "hc_body u = (if hc_method c = GET then hc_body c else Some (or_else (hc_body c) []))"
    by auto
  have "hc_headers u = forwarded (hc_headers c)"
    using assms(1) c by (auto simp: upstream_def proxy_call_def)
  with u call_verb [OF c] show thesis
    by (intro that [OF c]) (auto simp: below_base_def or_else_def)
qed

lemma parse_nothing: "parse_json [] = None"
  by code_simp

text \<open>The value of a body, if there is one, is one of the schema of the operation.\<close>
definition body_conforms :: "(uuid \<Rightarrow> bool) \<Rightarrow> console_call \<Rightarrow> bool" where
  "body_conforms ok r =
     (case body_json r of None \<Rightarrow> True
      | Some j \<Rightarrow> pred_option (\<lambda>(_, t). conforms ok t j) (op_body (operation_of r)))"

lemma body_of_call:
  assumes "call_of r = Some c" "objects_ok r" "or_else b [] = or_else (hc_body c) []"
  shows "body_accepted ok (operation_of r) b \<longleftrightarrow> body_conforms ok r"
proof (cases "body_json r")
  case None
  then have "op_body (operation_of r) = None" "hc_body c = None"
    using assms(1) by (cases r; auto simp: operation_defs endpoint_defs request_call_def listPlaybooks_def split: if_splits option.splits)+
  with None assms(3) show ?thesis by (simp add: body_accepted_def body_conforms_def)
next
  case (Some j)
  with body_reads_back [OF assms(1,2)] obtain raw where raw: "hc_body c = Some raw" "parse_json raw = Some j"
    by (cases "hc_body c") auto
  then have "raw \<noteq> []" using parse_nothing by auto
  moreover from Some obtain must t where "op_body (operation_of r) = Some (must, t)"
    by (cases r) (auto simp: operation_defs)
  ultimately show ?thesis using raw Some assms(3) by (simp add: body_accepted_def body_conforms_def)
qed

lemma call_accepted:
  assumes "upstream env r = Some u" "list_all (list_all unreserved) (segments_of r)" "objects_ok r"
  shows "filter (addressed (hc_method u) (below_base env (hc_url u))) operations = [operation_of r]"
    "accepts ok (operation_of r) (below_base env (hc_url u)) u \<longleftrightarrow> list_all ok (path_ids_of r) \<and> body_conforms ok r"
proof -
  from handed [OF assms(1,2)] obtain c where c: "call_of r = Some c" "below_base env (hc_url u) = hc_url c"
    "hc_method u = op_method (operation_of r)" "or_else (hc_body u) [] = or_else (hc_body c) []"
    "hc_headers u = forwarded (hc_headers c)" "\<And>n. header n (hc_headers u) = header n (hc_headers c)" by metis
  note at = call_operation [OF c(1) assms(2)]
  show "filter (addressed (hc_method u) (below_base env (hc_url u))) operations = [operation_of r]"
    using one_operation [OF assms(2)] unfolding addressed_def c(2,3) at(1) .
  have names: "list_all (\<lambda>kv. lower (fst kv) \<in> insert (js ''content-type'') (lower ` js ` set (op_headers (operation_of r)))) (hc_headers u)"
    using call_headers(1) [OF c(1)] forwarded_names unfolding c(5) list_all_iff by fastforce
  have json: "or_else (hc_body u) [] \<noteq> [] \<longrightarrow> header (js ''content-type'') (hc_headers u) = Some (js ''application/json'')"
    using call_headers(2) [OF c(1)] unfolding c(4,6) by (cases "hc_body c") auto
  from at(2) show "accepts ok (operation_of r) (below_base env (hc_url u)) u \<longleftrightarrow> list_all ok (path_ids_of r) \<and> body_conforms ok r"
    unfolding accepts_def c(2) at(1) segments_ids [OF assms(2)] body_of_call [OF c(1) assms(3) c(4)]
    using names json by auto
qed

section \<open>The editor's requests\<close>

text \<open>The call a request of the editor makes, as a call of the client.\<close>
fun editor_call :: "editor_request \<Rightarrow> console_call" where
  "editor_call (Put_Graph v g) = Put_Version v g"
| "editor_call (Create_Playbook b) = Post_Playbook b"
| "editor_call (Publish_Version v) = Post_Publish v"
| "editor_call (Create_Version p v) = Post_Version p \<lparr>cv_clone_from = Some v\<rparr>"

lemma legal_call:
  assumes "legal_request p v q"
  shows "objects_ok (editor_call q)"
  using assms by (cases q) (auto simp: legal_request_def split: option.splits)

lemma legal_segments:
  assumes "legal_request p v q" "pred_option (list_all unreserved) p" "pred_option (list_all unreserved) v"
  shows "list_all (list_all unreserved) (segments_of (editor_call q))"
  using assms by (cases q) (auto simp: legal_request_def)

lemma editor_call_some: "\<exists>c. call_of (editor_call q) = Some c"
  by (cases q) auto

lemma editor_body: "body_conforms ok (editor_call q) \<longleftrightarrow> (case request_body q of None \<Rightarrow> True | Some (t, j) \<Rightarrow> conforms ok t j)"
  by (cases q) (simp_all add: body_conforms_def operation_defs)

lemma editor_path_ids: "legal_request p v q \<Longrightarrow> pred_option ok p \<Longrightarrow> pred_option ok v \<Longrightarrow> list_all ok (path_ids_of (editor_call q))"
  by (cases q) (auto simp: legal_request_def)

section \<open>Answers\<close>

text \<open>What every failure has.\<close>
definition failure_schema :: schema where
  "failure_schema = object_of [needed ''code'' Any_Text, needed ''message'' Any_Text]"

lemma listed_answers:
  "list_all (\<lambda>(status, t). if response_ok status then (answer_type r, t) \<in> set answer_schemas else fits t failure_schema)
     (op_answers (operation_of r))"
  by (cases r; simp only: operation_of.simps answer_type.simps; code_simp)

lemma answers_read:
  assumes "parse_json raw = Some j"
  shows "request_answer (Answered status (Inr raw)) =
    (if response_ok status then Inr \<lparr>ar_data = j, ar_status = status\<rparr>
     else Inl (if j = JNull then plain_failure status (js ''INTERNAL_ERROR'') (js ''request failed with status '' @ nat_text status)
               else Api_Failure (new_ApiError status (error_body j))))"
proof -
  from assms parse_nothing have "raw \<noteq> []" by auto
  with assms show ?thesis by (simp add: request_answer_def)
qed

lemma failure_texts:
  assumes "conforms ok t j" "fits t failure_schema"
  shows "\<exists>kvs c m. j = JObj kvs \<and> map_of kvs (js ''code'') = Some (JStr c) \<and> map_of kvs (js ''message'') = Some (JStr m)
    \<and> error_body j = \<lparr>eb_code = c, eb_message = m, eb_details = list_prop j (js ''details'')\<rparr>"
  using fits_sound(1) [OF assms]
  by (auto simp: failure_schema_def schema_parts error_body_def text_prop_def split: json.splits option.splits)

section \<open>Properties\<close>

text \<open>C36. A call of the console is one operation of the published contract. Through the proxy, every call
  whose ids can stand in a path as they are, as every UUID can (the client does not escape them, so
  another id may address something else), is addressed to exactly one operation, the one its function is
  named after; its query and its headers are declared there; and the operation accepts it exactly when
  the ids in its path and the value of its body conform. The objects a body holds are taken to be ones
  that JavaScript can hold: no key twice, numeric keys first.\<close>
theorem console_calls_are_operations:
  assumes "upstream env r = Some u" "list_all (list_all unreserved) (segments_of r)" "objects_ok r"
  shows "(let address = below_base env (hc_url u)
    in filter (addressed (hc_method u) address) operations = [operation_of r]
      \<and> (accepts ok (operation_of r) address u \<longleftrightarrow> list_all ok (path_ids_of r) \<and> body_conforms ok r))"
  using call_accepted [OF assms] by (simp add: Let_def)

theorem console_calls_are_operations_witness:
  "\<exists>u. upstream None (Get_Alert (js ''a1'')) = Some u
     \<and> filter (addressed GET (below_base None (hc_url u))) operations = [op_getAlert]
     \<and> accepts (\<lambda>i. i = js ''a1'') op_getAlert (below_base None (hc_url u)) u"
proof -
  let ?r = "Get_Alert (js ''a1'')"
  have plain: "list_all (list_all unreserved) (segments_of ?r)" by (simp add: js_simps unreserved_def)
  from upstream_call [OF _ plain, of _ None] obtain u where u: "upstream None ?r = Some u" "hc_method u = GET"
    by (auto simp: endpoint_defs request_call_def)
  from console_calls_are_operations [OF u(1) plain, of "\<lambda>i. i = js ''a1''"] u show ?thesis
    by (simp add: Let_def body_conforms_def)
qed

text \<open>C10. The backend takes what the editor sends. Whatever happens in a session that was opened at ids which
  can stand in a path as they are, every request reaches one operation of the contract, and that
  operation accepts it, path, headers and body, exactly when no sort order of its graph has overflowed.
  The ids of the address, those that exist elsewhere and those that are drawn are taken to have the
  form the contract asks for (\<open>ok\<close>), and no id is drawn twice or drawn when it exists elsewhere.\<close>
theorem editor_requests_accepted:
  assumes "session_reach foreign newId (initial_session p v) s" "fresh_source foreign newId"
    "\<forall>x\<in>foreign \<union> range newId. ok x" "pred_option ok p" "pred_option ok v" "q \<in> set (ss_log s)"
    "pred_option (list_all unreserved) p" "pred_option (list_all unreserved) v"
  shows "\<exists>u. upstream env (editor_call q) = Some u
    \<and> (let address = below_base env (hc_url u)
       in filter (addressed (hc_method u) address) operations = [operation_of (editor_call q)]
         \<and> (accepts ok (operation_of (editor_call q)) address u
            \<longleftrightarrow> pred_option (\<lambda>g. list_all finite_order (g_edges g)) (request_graph q)))"
proof -
  have legal: "legal_request p v q"
    using log_legal [OF assms(1)] assms(6) by (simp add: list_all_iff)
  note plain = legal_segments [OF legal assms(7,8)]
  from editor_call_some obtain c where "call_of (editor_call q) = Some c" by blast
  from upstream_call [OF this plain, of env] obtain u where u: "upstream env (editor_call q) = Some u" by blast
  from editor_bodies_conform [OF assms(1-3,5,6)]
  have "body_conforms ok (editor_call q) \<longleftrightarrow> pred_option (\<lambda>g. list_all finite_order (g_edges g)) (request_graph q)"
    unfolding editor_body by (cases q) (auto simp: request_graph_def)
  with u call_accepted [OF u plain legal_call [OF legal]] editor_path_ids [OF legal assms(4,5)] show ?thesis
    by (simp add: Let_def)
qed

theorem editor_requests_accepted_witness:
  "\<exists>s g u. session_reach {} (\<lambda>n. replicate n 65) (initial_session (Some (js ''p'')) (Some (js ''v''))) s
     \<and> Put_Graph (js ''v'') g \<in> set (ss_log s) \<and> upstream None (Put_Version (js ''v'') g) = Some u
     \<and> accepts (\<lambda>x. 90 \<notin> set x) op_replacePlaybookVersionGraph (below_base None (hc_url u)) u"
proof -
  let ?newId = "\<lambda>n. replicate n 65 :: uuid"
  obtain s g where s: "session_reach {} ?newId (initial_session (Some (js ''p'')) (Some (js ''v''))) s"
    "ss_log s = [Put_Graph (js ''v'') g]" "length (g_nodes g) = 1" "g_edges g = []"
    using unseen_reach [where foreign = "{}" and newId = ?newId and p = "js ''p''" and v = "js ''v''"] by blast
  have fresh: "fresh_source {} ?newId"
    by (auto simp: fresh_source_def inj_def dest: arg_cong [where f = length])
  have "\<forall>x\<in>{} \<union> range ?newId. 90 \<notin> set x" "pred_option (\<lambda>x. 90 \<notin> set x) (Some (js ''p''))"
    "pred_option (\<lambda>x. 90 \<notin> set x) (Some (js ''v''))" "Put_Graph (js ''v'') g \<in> set (ss_log s)"
    "pred_option (list_all unreserved) (Some (js ''p''))" "pred_option (list_all unreserved) (Some (js ''v''))"
    using s(2) by (auto simp: js_simps unreserved_def)
  from editor_requests_accepted [OF s(1) fresh this, of None] s show ?thesis
    by (auto simp: Let_def request_graph_def)
qed

text \<open>C37. A documented answer is read as what the function promises. Through the proxy, a body the contract
  documents for the status becomes the value itself, which has the type the function casts it to
  (when no declared property is left out), or an API error with the status, the code and the
  message of the body.\<close>
theorem documented_answers_are_typed:
  assumes "(status, t) \<in> set (op_answers (operation_of r))" "hr_status answer = status"
    "parse_json (hr_body answer) = Some j" "conforms ok (if response_ok status then complete t else t) j"
  shows "(let got = proxy_answer (Some answer); read = request_answer (Answered (hr_status got) (Inr (hr_body got)))
    in if response_ok status then read = Inr \<lparr>ar_data = j, ar_status = status\<rparr> \<and> conforms ok (answer_type r) j
       else \<exists>kvs err c m. j = JObj kvs \<and> read = Inl (Api_Failure err) \<and> ae_status err = status \<and> ae_detail err = m
         \<and> ae_code err = (if c = [] then js ''UNKNOWN'' else c)
         \<and> map_of kvs (js ''code'') = Some (JStr c) \<and> map_of kvs (js ''message'') = Some (JStr m))"
proof -
  have listed: "if response_ok status then (answer_type r, t) \<in> set answer_schemas else fits t failure_schema"
    using listed_answers [of r] assms(1) by (auto simp: list_all_iff)
  have got: "hr_status (proxy_answer (Some answer)) = status" "hr_body (proxy_answer (Some answer)) = hr_body answer"
    by (simp_all add: proxy_answer_def assms(2))
  show ?thesis
  proof (cases "response_ok status")
    case True
    with listed answers_fit have "fits (complete t) (answer_type r)" by (auto simp: list_all_iff)
    with assms(4) True have "conforms ok (answer_type r) j" by (auto intro: fits_sound(1))
    with True show ?thesis unfolding Let_def got answers_read [OF assms(3)] by simp
  next
    case False
    with listed assms(4) failure_texts [of ok t j] obtain kvs c m
      where j: "j = JObj kvs" "map_of kvs (js ''code'') = Some (JStr c)" "map_of kvs (js ''message'') = Some (JStr m)"
        "error_body j = \<lparr>eb_code = c, eb_message = m, eb_details = list_prop j (js ''details'')\<rparr>" by auto
    from False j show ?thesis
      unfolding Let_def got answers_read [OF assms(3)]
      by (auto simp: new_ApiError_def intro!: exI [of _ c] exI [of _ m])
  qed
qed

theorem documented_answers_are_typed_witness:
  "\<exists>raw err. parse_json raw = Some (JObj [(js ''code'', JStr (js ''GONE'')), (js ''message'', JStr (js ''m''))])
     \<and> request_answer (Answered 404 (Inr raw)) = Inl (Api_Failure err) \<and> ae_code err = js ''GONE'' \<and> ae_status err = 404"
proof -
  let ?j = "JObj [(js ''code'', JStr (js ''GONE'')), (js ''message'', JStr (js ''m''))]"
  let ?answer = "\<lparr>hr_status = 404, hr_headers = [], hr_body = stringify ?j\<rparr>"
  have listed: "(404, oa_Error) \<in> set (op_answers (operation_of (Get_Alert (js ''a1''))))" by (simp add: operation_defs)
  have "wf_json ?j" by (simp add: wf_object_iff wf_JObj canonical_def is_digit_def)
  then have parsed: "parse_json (stringify ?j) = Some ?j" by (rule compact.parse_show)
  have missing: "\<not> response_ok 404" by (simp add: response_ok_def)
  then have "conforms (\<lambda>_. True) (if response_ok 404 then complete oa_Error else oa_Error) ?j"
    by (simp add: oa_Error_def schema_parts)
  from documented_answers_are_typed [OF listed _ _ this, of ?answer] parsed missing
  show ?thesis by (intro exI [of _ "stringify ?j"]) (auto simp: Let_def proxy_answer_def)
qed

end
