(* ===== verification/Layout.thy ===== *)
theory Layout
  imports Types Sorting Draft_Rules
begin

text \<open>
  \<open>frontend/src/lib/graph-layout.ts\<close>: the input handed to dagre, in a fixed order, and the
  boxes read back from it. Two things are not under \<open>src/\<close> and are parameters:
  \<open>localeCompare\<close> (the host's collation) and \<open>dagre\<close>, a function from the request to the
  position of each node. Coordinates are rationals: the rounding of the halving and of the
  additions is not modelled.
\<close>

section \<open>The request\<close>

definition NODE_WIDTH :: nat where "NODE_WIDTH = 268"
definition DECISION_NODE_HEIGHT :: nat where "DECISION_NODE_HEIGHT = 92"
definition TERMINAL_NODE_HEIGHT :: nat where "TERMINAL_NODE_HEIGHT = 104"

fun heightFor :: "node_kind \<Rightarrow> nat" where
  "heightFor Terminal = TERMINAL_NODE_HEIGHT"
| "heightFor Decision = DECISION_NODE_HEIGHT"

record laid_box =
  lb_x :: rat
  lb_y :: rat
  lb_width :: rat
  lb_height :: rat

record layout_request =
  lr_rankdir :: jstring
  lr_ranksep :: nat
  lr_nodesep :: nat
  lr_marginx :: nat
  lr_marginy :: nat
  lr_nodes :: "(uuid \<times> nat \<times> nat) list"
  lr_edges :: "(uuid \<times> uuid) list"

record positioned_node =
  pos_id :: uuid
  pos_x :: rat
  pos_y :: rat
  pos_width :: rat
  pos_height :: rat

record graph_layout =
  gl_nodes :: "uuid \<rightharpoonup> positioned_node"
  gl_width :: rat
  gl_height :: rat

definition node_order :: "(jstring \<Rightarrow> jstring \<Rightarrow> int) \<Rightarrow> playbook_node \<Rightarrow> playbook_node \<Rightarrow> int" where
  "node_order localeCompare = on_key pn_id localeCompare"

text \<open>\<open>a.from.localeCompare(b.from) || a.sort_order - b.sort_order || a.label.localeCompare(b.label)\<close>;
  \<open>NaN\<close> is falsy, as is 0.\<close>
definition edge_order :: "(jstring \<Rightarrow> jstring \<Rightarrow> int) \<Rightarrow> playbook_edge \<Rightarrow> playbook_edge \<Rightarrow> int" where
  "edge_order localeCompare =
     then_by (on_key pe_from localeCompare)
       (then_by (\<lambda>a b. number_sign (number_sub (pe_sort_order a) (pe_sort_order b)))
          (on_key pe_label localeCompare))"

definition layout_request ::
  "(jstring \<Rightarrow> jstring \<Rightarrow> int) \<Rightarrow> playbook_node list \<Rightarrow> playbook_edge list \<Rightarrow> layout_request"
where
  "layout_request localeCompare nodes edges =
     (let known = set (map pn_id nodes)
      in \<lparr>lr_rankdir = js ''TB'', lr_ranksep = 84, lr_nodesep = 44, lr_marginx = 24, lr_marginy = 24,
          lr_nodes = map (\<lambda>n. (pn_id n, NODE_WIDTH, heightFor (pn_kind n)))
                       (sort_by (node_order localeCompare) nodes),
          lr_edges = map (\<lambda>e. (pe_from e, pe_to e))
                       (filter (\<lambda>e. pe_from e \<in> known \<and> pe_to e \<in> known)
                          (sort_by (edge_order localeCompare) edges))\<rparr>)"

section \<open>Reading the boxes back\<close>

text \<open>dagre centres nodes; React Flow positions by the top-left corner.\<close>
definition place :: "uuid \<Rightarrow> laid_box \<Rightarrow> positioned_node" where
  "place node laid =
     \<lparr>pos_id = node, pos_x = lb_x laid - lb_width laid / 2, pos_y = lb_y laid - lb_height laid / 2,
      pos_width = lb_width laid, pos_height = lb_height laid\<rparr>"

definition read_box :: "(uuid \<Rightarrow> laid_box option) \<Rightarrow> playbook_node \<Rightarrow> graph_layout \<Rightarrow> graph_layout" where
  "read_box laid node l =
     (case laid (pn_id node) of
        None \<Rightarrow> l
      | Some b \<Rightarrow>
          let box = place (pn_id node) b
          in \<lparr>gl_nodes = (gl_nodes l)(pn_id node \<mapsto> box),
              gl_width = max (gl_width l) (pos_x box + pos_width box),
              gl_height = max (gl_height l) (pos_y box + pos_height box)\<rparr>)"

definition layoutGraph ::
  "(jstring \<Rightarrow> jstring \<Rightarrow> int) \<Rightarrow> (layout_request \<Rightarrow> uuid \<Rightarrow> laid_box option)
     \<Rightarrow> playbook_node list \<Rightarrow> playbook_edge list \<Rightarrow> graph_layout"
where
  "layoutGraph localeCompare dagre nodes edges =
     fold (read_box (dagre (layout_request localeCompare nodes edges))) nodes
       \<lparr>gl_nodes = Map.empty, gl_width = 0, gl_height = 0\<rparr>"

section \<open>The order of the request\<close>

fun order_of :: "number \<Rightarrow> int" where
  "order_of (Fin n) = n"
| "order_of _ = 0"

text \<open>With the integer sort orders of the contract the comparator is a lawful one.\<close>
definition int_edge_order :: "(jstring \<Rightarrow> jstring \<Rightarrow> int) \<Rightarrow> playbook_edge \<Rightarrow> playbook_edge \<Rightarrow> int" where
  "int_edge_order localeCompare =
     then_by (on_key pe_from localeCompare)
       (then_by (on_key (order_of \<circ> pe_sort_order) num_cmp) (on_key pe_label localeCompare))"

lemma int_edge_order_comparator: "comparator lc \<Longrightarrow> comparator (int_edge_order lc)"
  unfolding int_edge_order_def
  by (intro comparator_then_by comparator_on_key num_cmp.comparator_axioms)

lemma node_order_comparator: "comparator lc \<Longrightarrow> comparator (node_order lc)"
  unfolding node_order_def by (rule comparator_on_key)

fun is_fin :: "number \<Rightarrow> bool" where
  "is_fin (Fin n) = True"
| "is_fin _ = False"

definition integer_orders :: "playbook_edge list \<Rightarrow> bool" where
  "integer_orders edges \<longleftrightarrow> list_all (\<lambda>e. is_fin (pe_sort_order e)) edges"

lemma insert_by_cong:
  "(\<And>y. y \<in> set xs \<Longrightarrow> c x y \<le> 0 \<longleftrightarrow> d x y \<le> 0) \<Longrightarrow> insert_by c x xs = insert_by d x xs"
  by (induction xs) auto

lemma sort_by_cong:
  "(\<And>x y. x \<in> set xs \<Longrightarrow> y \<in> set xs \<Longrightarrow> c x y \<le> 0 \<longleftrightarrow> d x y \<le> 0) \<Longrightarrow> sort_by c xs = sort_by d xs"
proof (induction xs)
  case Nil
  then show ?case by simp
next
  case (Cons x xs)
  then have "sort_by c xs = sort_by d xs" by auto
  moreover have "insert_by c x (sort_by d xs) = insert_by d x (sort_by d xs)"
    using Cons.prems by (intro insert_by_cong) auto
  ultimately show ?case by simp
qed

lemma edge_order_integer:
  assumes "is_fin (pe_sort_order a)" "is_fin (pe_sort_order b)"
  shows "edge_order lc a b \<le> 0 \<longleftrightarrow> int_edge_order lc a b \<le> 0"
    and "edge_order lc a b = 0 \<longleftrightarrow> int_edge_order lc a b = 0"
proof -
  obtain m n where "pe_sort_order a = Fin m" "pe_sort_order b = Fin n"
    using assms by (cases "pe_sort_order a"; cases "pe_sort_order b") auto
  then have "number_sign (number_sub (pe_sort_order a) (pe_sort_order b)) = sgn (m - n)"
    "on_key (order_of \<circ> pe_sort_order) num_cmp a b = m - n"
    by (simp_all add: on_key_def num_cmp_def)
  then show "edge_order lc a b \<le> 0 \<longleftrightarrow> int_edge_order lc a b \<le> 0"
    "edge_order lc a b = 0 \<longleftrightarrow> int_edge_order lc a b = 0"
    by (auto simp: edge_order_def int_edge_order_def then_by_def sgn_if)
qed

lemma sort_edges_integer:
  "integer_orders edges \<Longrightarrow> sort_by (edge_order lc) edges = sort_by (int_edge_order lc) edges"
  by (rule sort_by_cong) (simp add: edge_order_integer integer_orders_def list_all_iff)

text \<open>A collation tells the strings of a graph apart.\<close>
definition tells_apart :: "(jstring \<Rightarrow> jstring \<Rightarrow> int) \<Rightarrow> jstring set \<Rightarrow> bool" where
  "tells_apart lc xs \<longleftrightarrow> (\<forall>x\<in>xs. \<forall>y\<in>xs. lc x y = 0 \<longrightarrow> x = y)"

definition graph_strings :: "playbook_node list \<Rightarrow> playbook_edge list \<Rightarrow> jstring set" where
  "graph_strings ns es = pn_id ` set ns \<union> pe_from ` set es \<union> pe_label ` set es"

lemma tells_apartD: "tells_apart lc xs \<Longrightarrow> lc x y = 0 \<Longrightarrow> x \<in> xs \<Longrightarrow> y \<in> xs \<Longrightarrow> x = y"
  by (simp add: tells_apart_def)

lemma nodes_sorted_perm:
  assumes "comparator lc" "tells_apart lc (graph_strings ns es)" "distinct (map pn_id ns)" "mset ns = mset ns'"
  shows "sort_by (node_order lc) ns = sort_by (node_order lc) ns'"
proof (rule comparator.sort_permutation [OF node_order_comparator [OF assms(1)] assms(4)])
  fix a b assume ab: "a \<in> set ns" "b \<in> set ns" "node_order lc a b = 0"
  then have "lc (pn_id a) (pn_id b) = 0" by (simp add: node_order_def on_key_def)
  then have "pn_id a = pn_id b"
    by (rule tells_apartD [OF assms(2)]) (use ab in \<open>simp_all add: graph_strings_def\<close>)
  then show "a = b" by (rule distinct_map_eqD [OF assms(3) ab(1,2)])
qed

lemma edges_sorted_perm:
  assumes "comparator lc" "tells_apart lc (graph_strings ns es)" "integer_orders es"
    "distinct (map (\<lambda>e. (pe_from e, pe_label e)) es)" "mset es = mset es'"
  shows "sort_by (edge_order lc) es = sort_by (edge_order lc) es'"
proof -
  have fin': "integer_orders es'"
    using assms(3,5) unfolding integer_orders_def list_all_iff by (metis set_mset_mset)
  have "sort_by (int_edge_order lc) es = sort_by (int_edge_order lc) es'"
  proof (rule comparator.sort_permutation [OF int_edge_order_comparator [OF assms(1)] assms(5)])
    fix a b assume ab: "a \<in> set es" "b \<in> set es" "int_edge_order lc a b = 0"
    then have zero: "lc (pe_from a) (pe_from b) = 0" "lc (pe_label a) (pe_label b) = 0"
      by (auto simp: int_edge_order_def then_by_def on_key_def split: if_splits)
    have "pe_from a = pe_from b"
      by (rule tells_apartD [OF assms(2) zero(1)]) (use ab in \<open>simp_all add: graph_strings_def\<close>)
    moreover have "pe_label a = pe_label b"
      by (rule tells_apartD [OF assms(2) zero(2)]) (use ab in \<open>simp_all add: graph_strings_def\<close>)
    ultimately show "a = b"
      by (intro distinct_map_eqD [OF assms(4) ab(1,2)]) simp
  qed
  then show ?thesis
    by (simp add: sort_edges_integer assms(3) fin')
qed

lemma request_perm:
  assumes "comparator lc" "tells_apart lc (graph_strings ns es)"
    "distinct (map pn_id ns)" "distinct (map (\<lambda>e. (pe_from e, pe_label e)) es)" "integer_orders es"
    "mset ns = mset ns'" "mset es = mset es'"
  shows "layout_request lc ns es = layout_request lc ns' es'"
proof -
  have "set (map pn_id ns) = set (map pn_id ns')"
    using assms(6) by (metis mset_eq_setD mset_map)
  then show ?thesis
    using nodes_sorted_perm [OF assms(1,2,3,6)] edges_sorted_perm [OF assms(1,2,5,4,7)]
    by (simp add: layout_request_def)
qed

section \<open>The boxes\<close>

lemma read_box_swap:
  assumes "pn_id a \<noteq> pn_id b"
  shows "read_box laid a (read_box laid b l) = read_box laid b (read_box laid a l)"
  using assms
  by (cases l) (auto simp: read_box_def Let_def fun_upd_twist max.left_commute max.commute split: option.split)

lemma fold_read_box_perm:
  assumes "distinct (map pn_id ns)" "mset ns = mset ns'"
  shows "fold (read_box laid) ns = fold (read_box laid) ns'"
proof (rule fold_multiset_equiv [OF _ assms(2)])
  fix x y assume "x \<in> set ns" "y \<in> set ns"
  show "read_box laid x \<circ> read_box laid y = read_box laid y \<circ> read_box laid x"
  proof (cases "x = y")
    case False
    with distinct_map_eqD [OF assms(1) \<open>x \<in> set ns\<close> \<open>y \<in> set ns\<close>] have "pn_id x \<noteq> pn_id y"
      by blast
    then show ?thesis by (intro ext) (simp add: read_box_swap)
  qed simp
qed

lemma fold_read_box_nodes:
  "gl_nodes (fold (read_box laid) ns l) k =
     (if k \<in> pn_id ` set ns \<and> laid k \<noteq> None then map_option (place k) (laid k) else gl_nodes l k)"
  by (induction ns arbitrary: l) (auto simp: read_box_def Let_def split: option.splits)

lemma fold_read_box_grows:
  "gl_width l \<le> gl_width (fold (read_box laid) ns l) \<and> gl_height l \<le> gl_height (fold (read_box laid) ns l)"
proof (induction ns arbitrary: l)
  case Nil
  then show ?case by simp
next
  case (Cons n ns)
  have "gl_width l \<le> gl_width (read_box laid n l) \<and> gl_height l \<le> gl_height (read_box laid n l)"
    by (auto simp: read_box_def Let_def split: option.split)
  with Cons.IH [of "read_box laid n l"] show ?case by (auto intro: order_trans)
qed

lemma fold_read_box_inside:
  assumes "n \<in> set ns" "laid (pn_id n) = Some b"
  shows "lb_x b + lb_width b / 2 \<le> gl_width (fold (read_box laid) ns l)
       \<and> lb_y b + lb_height b / 2 \<le> gl_height (fold (read_box laid) ns l)"
  using assms
proof (induction ns arbitrary: l)
  case Nil
  then show ?case by simp
next
  case (Cons m ns)
  show ?case
  proof (cases "m = n")
    case True
    have "lb_x b + lb_width b / 2 \<le> gl_width (read_box laid n l)"
      "lb_y b + lb_height b / 2 \<le> gl_height (read_box laid n l)"
      using Cons.prems(2) by (auto simp: read_box_def Let_def place_def le_max_iff_disj field_simps)
    with fold_read_box_grows [of "read_box laid n l" laid ns] True show ?thesis
      by (auto intro: order_trans)
  next
    case False
    with Cons show ?thesis by auto
  qed
qed


section \<open>Properties\<close>

text \<open>A collation and a drawing engine, for concrete instances.\<close>
definition by_length :: "jstring \<Rightarrow> jstring \<Rightarrow> int" where
  "by_length = on_key (\<lambda>s. int (length s)) num_cmp"

definition one_row :: "layout_request \<Rightarrow> uuid \<Rightarrow> laid_box option" where
  "one_row req k =
     map_option (\<lambda>(w, h). \<lparr>lb_x = of_nat w, lb_y = of_nat h, lb_width = of_nat w, lb_height = of_nat h\<rparr>)
       (map_of (lr_nodes req) k)"

definition sample_nodes :: "playbook_node list" where
  "sample_nodes =
     [\<lparr>pn_id = js ''a'', pn_kind = Decision, pn_title = js ''Q'', pn_description = [],
       pn_terminal_resolution = None, pn_metadata = None\<rparr>,
      \<lparr>pn_id = js ''bb'', pn_kind = Terminal, pn_title = js ''T'', pn_description = [],
       pn_terminal_resolution = Some (js ''close''), pn_metadata = None\<rparr>]"

definition sample_links :: "playbook_edge list" where
  "sample_links =
     [\<lparr>pe_id = js ''x'', pe_from = js ''a'', pe_to = js ''bb'', pe_label = js ''Yes'', pe_description = None, pe_sort_order = Fin 1\<rparr>,
      \<lparr>pe_id = js ''y'', pe_from = js ''a'', pe_to = js ''bb'', pe_label = js ''Nope'', pe_description = None, pe_sort_order = Fin 2\<rparr>]"

lemma by_length_comparator: "comparator by_length"
  unfolding by_length_def by (rule comparator_on_key) (rule num_cmp.comparator_axioms)

text \<open>C31. The same version always draws the same: whatever order the API lists nodes and edges in,
  for every lawful collation that tells the graph's strings apart and every drawing engine,
  the layout is the same map of boxes with the same extent.\<close>
theorem layout_deterministic:
  assumes "comparator lc" "tells_apart lc (graph_strings ns es)"
    "distinct (map pn_id ns)" "distinct (map (\<lambda>e. (pe_from e, pe_label e)) es)" "integer_orders es"
    "mset ns = mset ns'" "mset es = mset es'"
  shows "layoutGraph lc dagre ns es = layoutGraph lc dagre ns' es'"
  unfolding layoutGraph_def request_perm [OF assms] fold_read_box_perm [OF assms(3,6)] ..

theorem layout_deterministic_witness:
  "layoutGraph by_length one_row sample_nodes sample_links
     = layoutGraph by_length one_row (rev sample_nodes) (rev sample_links)"
  by (rule layout_deterministic [OF by_length_comparator])
    (simp_all add: tells_apart_def graph_strings_def sample_nodes_def sample_links_def integer_orders_def
      by_length_def on_key_def num_cmp_def)

text \<open>The drawing engine is given every node once, sized by its kind, and only edges both of
  whose ends are among them, so it never invents a node.\<close>
theorem layout_request_closed:
  "mset (lr_nodes (layout_request lc nodes edges))
     = mset (map (\<lambda>n. (pn_id n, NODE_WIDTH, heightFor (pn_kind n))) nodes)
   \<and> set (lr_edges (layout_request lc nodes edges))
     = (\<lambda>e. (pe_from e, pe_to e)) ` {e \<in> set edges. pe_from e \<in> pn_id ` set nodes \<and> pe_to e \<in> pn_id ` set nodes}
   \<and> set (lr_edges (layout_request lc nodes edges))
     \<subseteq> fst ` set (lr_nodes (layout_request lc nodes edges)) \<times> fst ` set (lr_nodes (layout_request lc nodes edges))"
  by (auto simp: layout_request_def Let_def image_image)

text \<open>C40. Every box the engine returns for a node is drawn at its top-left corner, keeps its size,
  and lies within the reported width and height.\<close>
theorem boxes_within_extent:
  assumes "n \<in> set nodes" "dagre (layout_request lc nodes edges) (pn_id n) = Some b"
  shows "\<exists>p. gl_nodes (layoutGraph lc dagre nodes edges) (pn_id n) = Some p
    \<and> pos_x p + lb_width b / 2 = lb_x b \<and> pos_y p + lb_height b / 2 = lb_y b
    \<and> pos_width p = lb_width b \<and> pos_height p = lb_height b
    \<and> pos_x p + pos_width p \<le> gl_width (layoutGraph lc dagre nodes edges)
    \<and> pos_y p + pos_height p \<le> gl_height (layoutGraph lc dagre nodes edges)"
proof -
  let ?laid = "dagre (layout_request lc nodes edges)"
  have "gl_nodes (layoutGraph lc dagre nodes edges) (pn_id n) = Some (place (pn_id n) b)"
    using assms by (simp add: layoutGraph_def fold_read_box_nodes)
  moreover have "lb_x b + lb_width b / 2 \<le> gl_width (layoutGraph lc dagre nodes edges)"
    "lb_y b + lb_height b / 2 \<le> gl_height (layoutGraph lc dagre nodes edges)"
    using fold_read_box_inside [where laid = ?laid, OF assms] by (simp_all add: layoutGraph_def)
  ultimately show ?thesis by (auto simp: place_def field_simps)
qed

theorem boxes_within_extent_witness:
  "\<exists>p. gl_nodes (layoutGraph by_length one_row sample_nodes sample_links) (js ''a'') = Some p \<and> pos_width p = 268"
proof -
  let ?n = "sample_nodes ! 0"
  have "one_row (layout_request by_length sample_nodes sample_links) (pn_id ?n)
      = Some \<lparr>lb_x = 268, lb_y = 92, lb_width = 268, lb_height = 92\<rparr>"
    by (simp add: one_row_def layout_request_def sample_nodes_def Let_def sort_by_def node_order_def on_key_def
        by_length_def num_cmp_def NODE_WIDTH_def DECISION_NODE_HEIGHT_def TERMINAL_NODE_HEIGHT_def)
  from boxes_within_extent [where dagre = one_row, OF _ this] show ?thesis
    by (auto simp: sample_nodes_def)
qed

end
