(* ===== verification/Overlay.thy ===== *)
theory Overlay
  imports Types Sorting
begin

text \<open>
  \<open>frontend/src/lib/report-path.ts\<close>: what a report or a running investigation highlights on
  the canonical graph. The overlay object is the record \<open>path_overlay\<close>; the loop over the
  ordered steps is a fold of its body. \<open>step_number\<close> is a key, so the comparator of the
  sort interprets the comparator interface.
\<close>

section \<open>The overlay\<close>

record path_overlay =
  po_visitedNodeIds :: "uuid list"
  po_visited :: "uuid set"
  po_stepAtNode :: "uuid \<rightharpoonup> int"
  po_selectedEdgeIds :: "uuid set"
  po_stepAtEdge :: "uuid \<rightharpoonup> int"
  po_finalNodeId :: "uuid option"

definition emptyOverlay :: path_overlay where
  "emptyOverlay =
     \<lparr>po_visitedNodeIds = [], po_visited = {}, po_stepAtNode = Map.empty,
      po_selectedEdgeIds = {}, po_stepAtEdge = Map.empty, po_finalNodeId = None\<rparr>"

text \<open>\<open>if (!visited.has(id)) { visited.add(id); visitedNodeIds.push(id) }\<close>.\<close>
definition mark_visited :: "uuid \<Rightarrow> path_overlay \<Rightarrow> path_overlay" where
  "mark_visited node o' =
     (if node \<in> po_visited o' then o'
      else o'\<lparr>po_visited := insert node (po_visited o'),
              po_visitedNodeIds := po_visitedNodeIds o' @ [node]\<rparr>)"

text \<open>The body of the loop over the ordered steps.\<close>
definition overlay_step :: "path_step \<Rightarrow> path_overlay \<Rightarrow> path_overlay" where
  "overlay_step step o' =
     (let o1 = mark_visited (ps_node_id step) o';
          o2 = (if po_stepAtNode o1 (ps_node_id step) = None
                then o1\<lparr>po_stepAtNode := (po_stepAtNode o1)(ps_node_id step \<mapsto> ps_step_number step)\<rparr>
                else o1)
      in o2\<lparr>po_selectedEdgeIds := insert (ps_selected_edge_id step) (po_selectedEdgeIds o2),
            po_stepAtEdge := (po_stepAtEdge o2)(ps_selected_edge_id step \<mapsto> ps_step_number step)\<rparr>)"

definition step_order :: "path_step \<Rightarrow> path_step \<Rightarrow> int" where
  "step_order = on_key ps_step_number num_cmp"

definition ordered_steps :: "path_step list \<Rightarrow> path_step list" where
  "ordered_steps path = sort_by step_order path"

text \<open>\<open>options.terminalRootNodeId\<close> is absent, \<open>null\<close>, or an id; an empty id is falsy.\<close>
definition buildPathOverlay ::
  "path_step list \<Rightarrow> playbook_edge list \<Rightarrow> uuid option \<Rightarrow> path_overlay"
where
  "buildPathOverlay path edges terminalRootNodeId =
     (if path = [] then
        (case terminalRootNodeId of
           None \<Rightarrow> emptyOverlay
         | Some r \<Rightarrow>
             if r = [] then emptyOverlay
             else emptyOverlay\<lparr>po_finalNodeId := Some r, po_visited := {r}, po_visitedNodeIds := [r]\<rparr>)
      else
        let ordered = ordered_steps path;
            overlay = fold overlay_step ordered emptyOverlay
        in case find_first (\<lambda>edge. pe_id edge = ps_selected_edge_id (last ordered)) edges of
             None \<Rightarrow> overlay
           | Some lastEdge \<Rightarrow> mark_visited (pe_to lastEdge) (overlay\<lparr>po_finalNodeId := Some (pe_to lastEdge)\<rparr>))"

text \<open>The step as \<open>buildOverlayFromSteps\<close> rewrites it.\<close>
definition as_path_step :: "investigation_step \<Rightarrow> path_step" where
  "as_path_step s =
     \<lparr>ps_step_number = is_sequence_number s, ps_node_id = is_node_id s,
      ps_selected_edge_id = is_selected_edge_id s, ps_actor = \<lparr>ac_type = Human, ac_id = None\<rparr>,
      ps_rationale = None, ps_evidence = [], ps_created_at = []\<rparr>"

definition buildOverlayFromSteps ::
  "investigation_step list \<Rightarrow> playbook_edge list \<Rightarrow> uuid option \<Rightarrow> path_overlay"
where
  "buildOverlayFromSteps steps edges currentNodeId =
     (let overlay = buildPathOverlay (map as_path_step steps) edges None
      in case currentNodeId of
           None \<Rightarrow> overlay
         | Some c \<Rightarrow> if c = [] then overlay
                     else mark_visited c (overlay\<lparr>po_finalNodeId := Some c\<rparr>))"

text \<open>\<open>new Map(nodes.map(n => [n.id, n]))\<close>: a later duplicate wins.\<close>
definition indexNodes :: "version_definition \<Rightarrow> (uuid \<rightharpoonup> playbook_node)" where
  "indexNodes v = map_of (rev (map (\<lambda>n. (pn_id n, n)) (g_nodes v)))"

definition indexEdges :: "version_definition \<Rightarrow> (uuid \<rightharpoonup> playbook_edge)" where
  "indexEdges v = map_of (rev (map (\<lambda>e. (pe_id e, e)) (g_edges v)))"

section \<open>The order of steps\<close>

interpretation steps: comparator step_order
  unfolding step_order_def
  by (rule comparator_on_key) (rule num_cmp.comparator_axioms)

lemma step_order_zero: "step_order a b = 0 \<longleftrightarrow> ps_step_number a = ps_step_number b"
  by (simp add: step_order_def on_key_def num_cmp_def)

lemma ordered_steps_perm:
  assumes "mset xs = mset ys" "distinct (map ps_step_number xs)"
  shows "ordered_steps xs = ordered_steps ys"
  unfolding ordered_steps_def
proof (rule steps.sort_permutation [OF assms(1)])
  fix a b assume "a \<in> set xs" "b \<in> set xs" "step_order a b = 0"
  then show "a = b"
    using assms(2) by (auto simp: step_order_zero distinct_map dest: inj_onD)
qed

section \<open>Closed forms\<close>

text \<open>The first occurrences of a list, in order.\<close>
definition firsts :: "'a list \<Rightarrow> 'a list" where
  "firsts xs = rev (remdups (rev xs))"

lemma firsts_Nil [simp]: "firsts [] = []"
  by (simp add: firsts_def)

lemma firsts_snoc: "firsts (xs @ [x]) = (if x \<in> set xs then firsts xs else firsts xs @ [x])"
  by (simp add: firsts_def)

lemma set_firsts [simp]: "set (firsts xs) = set xs"
  by (simp add: firsts_def)

lemma distinct_firsts [simp]: "distinct (firsts xs)"
  by (simp add: firsts_def)

definition stamped :: "path_step list \<Rightarrow> (uuid \<rightharpoonup> int)" where
  "stamped ps = map_of (map (\<lambda>s. (ps_node_id s, ps_step_number s)) ps)"

definition edge_stamped :: "path_step list \<Rightarrow> (uuid \<rightharpoonup> int)" where
  "edge_stamped ps = map_of (rev (map (\<lambda>s. (ps_selected_edge_id s, ps_step_number s)) ps))"

lemma map_of_snoc: "map_of (xs @ [(k, v)]) = (if k \<in> fst ` set xs then map_of xs else (map_of xs)(k \<mapsto> v))"
  by (induction xs) (auto simp: fun_eq_iff)

lemma stamped_snoc:
  "stamped (ps @ [s]) =
     (if stamped ps (ps_node_id s) = None then (stamped ps)(ps_node_id s \<mapsto> ps_step_number s) else stamped ps)"
  unfolding stamped_def map_append list.map map_of_snoc map_of_eq_None_iff by auto

definition overlay_of :: "path_step list \<Rightarrow> path_overlay" where
  "overlay_of ps =
     \<lparr>po_visitedNodeIds = firsts (map ps_node_id ps),
      po_visited = set (map ps_node_id ps),
      po_stepAtNode = stamped ps,
      po_selectedEdgeIds = ps_selected_edge_id ` set ps,
      po_stepAtEdge = edge_stamped ps,
      po_finalNodeId = None\<rparr>"

lemma overlay_of_simps [simp]:
  "po_visitedNodeIds (overlay_of ps) = firsts (map ps_node_id ps)"
  "po_visited (overlay_of ps) = set (map ps_node_id ps)"
  "po_stepAtNode (overlay_of ps) = stamped ps"
  "po_selectedEdgeIds (overlay_of ps) = ps_selected_edge_id ` set ps"
  "po_stepAtEdge (overlay_of ps) = edge_stamped ps"
  "po_finalNodeId (overlay_of ps) = None"
  by (simp_all add: overlay_of_def)

lemma overlay_step_of: "overlay_step s (overlay_of ps) = overlay_of (ps @ [s])"
  by (simp add: overlay_step_def mark_visited_def overlay_of_def Let_def stamped_snoc firsts_snoc
      edge_stamped_def insert_absorb)

lemma fold_overlay: "fold overlay_step ps emptyOverlay = overlay_of ps"
proof (induction ps rule: rev_induct)
  case Nil
  then show ?case by (simp add: emptyOverlay_def overlay_of_def stamped_def edge_stamped_def)
next
  case (snoc s ps)
  then show ?case by (simp add: overlay_step_of)
qed

definition landing :: "path_step list \<Rightarrow> playbook_edge list \<Rightarrow> uuid option" where
  "landing path edges =
     (if path = [] then None
      else map_option pe_to (find_first (\<lambda>e. pe_id e = ps_selected_edge_id (last (ordered_steps path))) edges))"

text \<open>The overlay with a final node.\<close>
definition finished :: "uuid \<Rightarrow> path_overlay \<Rightarrow> path_overlay" where
  "finished c o' = mark_visited c (o'\<lparr>po_finalNodeId := Some c\<rparr>)"

lemma buildPathOverlay_closed:
  "path \<noteq> [] \<Longrightarrow> buildPathOverlay path edges r =
     (case landing path edges of None \<Rightarrow> overlay_of (ordered_steps path)
      | Some c \<Rightarrow> finished c (overlay_of (ordered_steps path)))"
  by (simp add: buildPathOverlay_def Let_def fold_overlay landing_def finished_def split: option.split)

lemma finished_simps [simp]:
  "po_visitedNodeIds (finished c o') =
     (if c \<in> po_visited o' then po_visitedNodeIds o' else po_visitedNodeIds o' @ [c])"
  "po_visited (finished c o') = insert c (po_visited o')"
  "po_stepAtNode (finished c o') = po_stepAtNode o'"
  "po_selectedEdgeIds (finished c o') = po_selectedEdgeIds o'"
  "po_stepAtEdge (finished c o') = po_stepAtEdge o'"
  "po_finalNodeId (finished c o') = Some c"
  by (auto simp: finished_def mark_visited_def)

lemma finished_finished: "finished c (finished c o') = finished c o'"
  by (simp add: finished_def mark_visited_def)

lemma set_ordered [simp]: "set (ordered_steps path) = set path"
  by (simp add: ordered_steps_def)

text \<open>Every node that carries a highlight is in \<open>visitedNodeIds\<close>, once.\<close>
definition overlay_ok :: "path_overlay \<Rightarrow> bool" where
  "overlay_ok o' \<longleftrightarrow>
     distinct (po_visitedNodeIds o') \<and> set (po_visitedNodeIds o') = po_visited o'
     \<and> dom (po_stepAtNode o') \<subseteq> po_visited o' \<and> dom (po_stepAtEdge o') = po_selectedEdgeIds o'
     \<and> (\<forall>c. po_finalNodeId o' = Some c \<longrightarrow> c \<in> po_visited o')"

lemma overlay_ok_of: "overlay_ok (overlay_of ps)"
  by (auto simp: overlay_ok_def stamped_def edge_stamped_def dom_map_of_conv_image_fst image_image)

lemma overlay_ok_finished: "overlay_ok o' \<Longrightarrow> overlay_ok (finished c o')"
  by (auto simp: overlay_ok_def)

lemma overlay_ok_path: "overlay_ok (buildPathOverlay path edges r)"
proof (cases "path = []")
  case True
  then show ?thesis
    by (auto simp: buildPathOverlay_def overlay_ok_def emptyOverlay_def split: option.split)
next
  case False
  then show ?thesis
    by (simp add: buildPathOverlay_closed overlay_ok_of overlay_ok_finished split: option.split)
qed

lemma from_steps_closed:
  "c \<noteq> [] \<Longrightarrow> buildOverlayFromSteps steps edges (Some c) =
     finished c (buildPathOverlay (map as_path_step steps) edges None)"
  by (simp add: buildOverlayFromSteps_def finished_def)


section \<open>A path that follows the graph\<close>

text \<open>Each selected edge is an edge of the graph that leaves the node of its step and leads to
  the node of the next step, as the server records them.\<close>
fun follows :: "playbook_edge list \<Rightarrow> path_step list \<Rightarrow> bool" where
  "follows edges [] = True"
| "follows edges [s] = (\<exists>e\<in>set edges. pe_id e = ps_selected_edge_id s \<and> pe_from e = ps_node_id s)"
| "follows edges (s # t # r) =
     ((\<exists>e\<in>set edges. pe_id e = ps_selected_edge_id s \<and> pe_from e = ps_node_id s \<and> pe_to e = ps_node_id t)
      \<and> follows edges (t # r))"

lemma edge_by_id:
  assumes "distinct (map pe_id edges)" "e \<in> set edges"
  shows "find_first (\<lambda>x. pe_id x = pe_id e) edges = Some e"
  using assms by (induction edges) auto

lemma edge_id_unique:
  "distinct (map pe_id edges) \<Longrightarrow> x \<in> set edges \<Longrightarrow> y \<in> set edges \<Longrightarrow> pe_id x = pe_id y \<Longrightarrow> x = y"
  by (simp add: distinct_map inj_on_def)

text \<open>Where a path that follows the graph is, step by step.\<close>
lemma follows_edges:
  assumes "distinct (map pe_id edges)" "e \<in> set edges" "pe_id e = ps_selected_edge_id s"
    and "follows edges ps" "s \<in> set ps"
  shows "pe_from e = ps_node_id s
    \<and> (pe_to e \<in> ps_node_id ` set ps \<or> find_first (\<lambda>x. pe_id x = ps_selected_edge_id (last ps)) edges = Some e)"
  using assms(4,5)
proof (induction ps rule: induct_list012)
  case 1
  then show ?case by simp
next
  case (2 t)
  then have "t = s" by simp
  with "2.prems"(1) obtain x where x: "x \<in> set edges" "pe_id x = ps_selected_edge_id s" "pe_from x = ps_node_id s"
    by auto
  from edge_id_unique [OF assms(1) x(1) assms(2)] x(2) assms(3) have "x = e" by simp
  with x(3) edge_by_id [OF assms(1,2)] assms(3) \<open>t = s\<close> show ?case by simp
next
  case (3 t u r)
  from "3.prems"(1) obtain x where x: "x \<in> set edges" "pe_id x = ps_selected_edge_id t" "pe_from x = ps_node_id t"
    "pe_to x = ps_node_id u" and rest: "follows edges (u # r)" by auto
  show ?case
  proof (cases "s = t")
    case True
    from edge_id_unique [OF assms(1) x(1) assms(2)] x(2) assms(3) True have "x = e" by simp
    with x(3,4) True show ?thesis by simp
  next
    case False
    with "3.prems"(2) have "s \<in> set (u # r)" by simp
    from "3.IH"(2) [OF rest this] show ?thesis by auto
  qed
qed

section \<open>What the backend records\<close>

text \<open>An investigation as \<open>docs/domain-model.md\<close> (sections 4 and 5) has the server record it: it starts at the root
  of its version with no step; a decision originates at the current node, its step gets the next number
  and names that node and the edge taken, and the edge leads to the next current node. Both the
  state's \<open>steps\<close> and the report's \<open>path\<close> list these records.\<close>
inductive recorded :: "version_definition \<Rightarrow> uuid \<Rightarrow> (int \<times> uuid \<times> uuid) list \<Rightarrow> bool" where
  started: "g_root v = Some r \<Longrightarrow> recorded v r []"
| decided: "recorded v n ks \<Longrightarrow> e \<in> set (g_edges v) \<Longrightarrow> pe_from e = n
    \<Longrightarrow> recorded v (pe_to e) (ks @ [(int (length ks) + 1, n, pe_id e)])"

definition path_record :: "path_step \<Rightarrow> int \<times> uuid \<times> uuid" where
  "path_record s = (ps_step_number s, ps_node_id s, ps_selected_edge_id s)"

definition step_record :: "investigation_step \<Rightarrow> int \<times> uuid \<times> uuid" where
  "step_record s = (is_sequence_number s, is_node_id s, is_selected_edge_id s)"

lemma follows_snoc:
  assumes "ps \<noteq> [] \<Longrightarrow> follows edges ps
      \<and> (\<exists>e\<in>set edges. pe_id e = ps_selected_edge_id (last ps) \<and> pe_from e = ps_node_id (last ps) \<and> pe_to e = ps_node_id s)"
    "\<exists>e\<in>set edges. pe_id e = ps_selected_edge_id s \<and> pe_from e = ps_node_id s"
  shows "follows edges (ps @ [s])"
  using assms by (induction ps rule: induct_list012) auto

lemma recorded_numbers: "recorded v c ks \<Longrightarrow> map fst ks = map int [1..<Suc (length ks)]"
  by (induction rule: recorded.induct) simp_all

lemma numbers_sorted:
  assumes "map fst ks = map int [1..<Suc (length ks)]"
  shows "sorted (map fst ks)" "distinct (map fst ks)"
  unfolding assms by (simp_all add: sorted_map distinct_map inj_on_def del: upt_Suc)

text \<open>Sorting the path by step number gives the decisions in the order they were taken.\<close>
lemma ordered_records:
  assumes "recorded v c ks" "mset (map path_record path) = mset ks"
  shows "map path_record (ordered_steps path) = ks"
proof -
  let ?rs = "map path_record (ordered_steps path)"
  note nums = numbers_sorted [OF recorded_numbers [OF assms(1)]]
  have "mset (ordered_steps path) = mset path" by (simp add: ordered_steps_def)
  then have same: "mset ?rs = mset ks" using assms(2) by (metis mset_map)
  have "sorted (map ps_step_number (ordered_steps path))"
    using steps.sorted_sort [of path] by (simp add: ordered_steps_def sorted_map step_order_def on_key_def num_cmp_def)
  then have order: "sorted (map fst ?rs)" by (simp add: path_record_def comp_def)
  have inj: "inj_on fst (set ks)" using nums(2) by (simp add: distinct_map)
  from sort_key_inj_key_eq [OF same [symmetric] inj order] sort_key_inj_key_eq [OF refl inj nums(1)]
  show ?thesis by simp
qed

text \<open>So what the server records always follows the graph, from its root to the current node.\<close>
lemma recorded_follows:
  assumes "recorded v c ks" "map path_record ps = ks"
  shows "follows (g_edges v) ps
    \<and> (if ps = [] then g_root v = Some c
       else g_root v = Some (ps_node_id (hd ps))
         \<and> (\<exists>e\<in>set (g_edges v). pe_id e = ps_selected_edge_id (last ps) \<and> pe_from e = ps_node_id (last ps) \<and> pe_to e = c))"
  using assms
proof (induction arbitrary: ps rule: recorded.induct)
  case (decided v n ks e)
  then obtain qs s where ps: "ps = qs @ [s]" "map path_record qs = ks" "path_record s = (int (length ks) + 1, n, pe_id e)"
    by (auto simp: map_eq_append_conv)
  then have s: "ps_node_id s = n" "ps_selected_edge_id s = pe_id e" by (simp_all add: path_record_def)
  note before = decided.IH [OF ps(2)]
  have "follows (g_edges v) (qs @ [s])"
    by (rule follows_snoc) (use before s decided.hyps(2,3) in \<open>auto split: if_splits\<close>)
  with ps(1) before s decided.hyps(2,3) show ?case by (auto simp: hd_append split: if_splits)
qed simp

lemma recorded_landing:
  assumes "recorded v c ks" "mset (map path_record path) = mset ks" "distinct (map pe_id (g_edges v))" "path \<noteq> []"
  shows "landing path (g_edges v) = Some c"
proof -
  have "ordered_steps path \<noteq> []" using assms(4) by (simp add: ordered_steps_def)
  with recorded_follows [OF assms(1) ordered_records [OF assms(1,2)]] obtain e where
    "e \<in> set (g_edges v)" "pe_id e = ps_selected_edge_id (last (ordered_steps path))" "pe_to e = c" by auto
  with edge_by_id [OF assms(3), of e] assms(4) show ?thesis by (simp add: landing_def)
qed

text \<open>The overlay reads nothing of a step but its record.\<close>
lemma overlay_of_records:
  assumes "map path_record (ordered_steps path) = map path_record (ordered_steps path')"
  shows "buildPathOverlay path edges r = buildPathOverlay path' edges r"
proof -
  have "length (ordered_steps path) = length (ordered_steps path')" by (metis assms length_map)
  then have empty: "path = [] \<longleftrightarrow> path' = []" by (metis length_0_conv length_sort_by ordered_steps_def)
  have fields: "fold overlay_step xs o' = fold overlay_step ys o'" if "map path_record xs = map path_record ys" for xs ys o'
    using that
  proof (induction xs arbitrary: ys o')
    case (Cons x xs)
    then obtain y zs where ys: "ys = y # zs" "path_record x = path_record y" "map path_record xs = map path_record zs"
      by (cases ys) auto
    then have "ps_step_number x = ps_step_number y" "ps_node_id x = ps_node_id y"
      "ps_selected_edge_id x = ps_selected_edge_id y" by (simp_all add: path_record_def)
    then have "overlay_step x o' = overlay_step y o'" unfolding overlay_step_def by (simp only:)
    with Cons.IH [OF ys(3)] ys(1) show ?case by simp
  qed simp
  have "ps_selected_edge_id (last (ordered_steps path)) = ps_selected_edge_id (last (ordered_steps path'))" if "path \<noteq> []"
  proof -
    have "path_record (last (ordered_steps path)) = path_record (last (ordered_steps path'))"
      using that empty assms by (metis last_map ordered_steps_def sort_by_eq_Nil)
    then show ?thesis by (simp add: path_record_def)
  qed
  with empty fields [OF assms, of emptyOverlay] show ?thesis by (auto simp: buildPathOverlay_def Let_def split: option.split)
qed

section \<open>Properties\<close>

text \<open>Two steps along three nodes, for concrete instances.\<close>
definition sample_step :: "int \<Rightarrow> string \<Rightarrow> string \<Rightarrow> path_step" where
  "sample_step k n e =
     \<lparr>ps_step_number = k, ps_node_id = js n, ps_selected_edge_id = js e,
      ps_actor = \<lparr>ac_type = Human, ac_id = None\<rparr>, ps_rationale = None, ps_evidence = [], ps_created_at = []\<rparr>"

definition sample_edge :: "string \<Rightarrow> string \<Rightarrow> string \<Rightarrow> playbook_edge" where
  "sample_edge i f t =
     \<lparr>pe_id = js i, pe_from = js f, pe_to = js t, pe_label = js ''Yes'', pe_description = None,
      pe_sort_order = Fin 1\<rparr>"

definition sample_path :: "path_step list" where
  "sample_path = [sample_step 2 ''b'' ''y'', sample_step 1 ''a'' ''x'']"

definition sample_edges :: "playbook_edge list" where
  "sample_edges = [sample_edge ''x'' ''a'' ''b'', sample_edge ''y'' ''b'' ''c'', sample_edge ''z'' ''b'' ''a'']"

lemma sample_path_ordered: "ordered_steps sample_path = [sample_step 1 ''a'' ''x'', sample_step 2 ''b'' ''y'']"
  by (simp add: ordered_steps_def sample_path_def sample_step_def sort_by_def step_order_def on_key_def num_cmp_def)

text \<open>C27. The overlay of a report is exactly its path: the visited nodes are the nodes of the
  steps in step order, without repeats, followed by where the last selected edge leads; a
  node is stamped with the first step taken from it, an edge with the last step that
  selected it, and the selected edges are those of the steps.\<close>
theorem overlay_is_path:
  assumes "path \<noteq> []"
  shows "po_visitedNodeIds (buildPathOverlay path edges r)
           = firsts (map ps_node_id (ordered_steps path) @ (case landing path edges of None \<Rightarrow> [] | Some c \<Rightarrow> [c]))
    \<and> po_stepAtNode (buildPathOverlay path edges r)
        = map_of (map (\<lambda>s. (ps_node_id s, ps_step_number s)) (ordered_steps path))
    \<and> po_stepAtEdge (buildPathOverlay path edges r)
        = map_of (rev (map (\<lambda>s. (ps_selected_edge_id s, ps_step_number s)) (ordered_steps path)))
    \<and> po_selectedEdgeIds (buildPathOverlay path edges r) = ps_selected_edge_id ` set path
    \<and> po_finalNodeId (buildPathOverlay path edges r) = landing path edges"
  using assms
  by (simp add: buildPathOverlay_closed stamped_def edge_stamped_def firsts_snoc split: option.split)

theorem overlay_is_path_witness:
  "po_visitedNodeIds (buildPathOverlay sample_path sample_edges None) = [js ''a'', js ''b'', js ''c'']"
proof -
  have ne: "sample_path \<noteq> []" by (simp add: sample_path_def)
  have "landing sample_path sample_edges = Some (js ''c'')"
    by (simp add: landing_def ne sample_path_ordered sample_edges_def sample_step_def sample_edge_def)
  with overlay_is_path [OF ne, of sample_edges None] show ?thesis
    by (simp add: sample_path_ordered sample_step_def firsts_def)
qed

text \<open>Whatever the path, even one that is empty or does not fit the graph, the highlights are
  consistent: no node is listed twice, every stamped or final node is a visited one, and the
  stamped edges are the selected ones.\<close>
theorem overlay_consistent: "overlay_ok (buildPathOverlay path edges r)"
  by (rule overlay_ok_path)

text \<open>The order in which the API lists the steps does not matter: two listings of the same
  steps, each with its own number, give the same overlay.\<close>
theorem overlay_order_independent:
  assumes "mset path = mset path'" "distinct (map ps_step_number path)"
  shows "buildPathOverlay path edges r = buildPathOverlay path' edges r"
  using ordered_steps_perm [OF assms] assms(1)
  by (auto simp: buildPathOverlay_def)

theorem overlay_order_independent_witness:
  "buildPathOverlay sample_path sample_edges None = buildPathOverlay (rev sample_path) sample_edges None"
  by (rule overlay_order_independent) (simp_all add: sample_path_def sample_step_def)

text \<open>When the recorded path follows the graph, every highlighted edge joins two visited
  nodes: the drawing shows one connected route and never an arrow into a ghosted node.\<close>
theorem selected_edges_join_visited:
  assumes "follows edges (ordered_steps path)" "distinct (map pe_id edges)"
    "e \<in> set edges" "pe_id e \<in> po_selectedEdgeIds (buildPathOverlay path edges r)"
  shows "pe_from e \<in> po_visited (buildPathOverlay path edges r)
       \<and> pe_to e \<in> po_visited (buildPathOverlay path edges r)"
proof (cases "path = []")
  case True
  with assms(4) show ?thesis
    by (auto simp: buildPathOverlay_def emptyOverlay_def split: option.splits if_splits)
next
  case False
  note closed = buildPathOverlay_closed [OF False, of edges r]
  from assms(4) obtain s where s: "s \<in> set path" "pe_id e = ps_selected_edge_id s"
    by (auto simp: closed split: option.splits)
  from follows_edges [OF assms(2,3) s(2) assms(1)] s(1) have "pe_from e = ps_node_id s"
    "pe_to e \<in> ps_node_id ` set path \<or> landing path edges = Some (pe_to e)"
    using False by (auto simp: landing_def)
  with s(1) show ?thesis by (auto simp: closed split: option.splits)
qed

theorem selected_edges_join_visited_witness:
  "js ''b'' \<in> po_visited (buildPathOverlay sample_path sample_edges None)
   \<and> js ''c'' \<in> po_visited (buildPathOverlay sample_path sample_edges None)"
proof -
  let ?e = "sample_edge ''y'' ''b'' ''c''"
  have "follows sample_edges (ordered_steps sample_path)"
    by (simp add: sample_path_ordered sample_edges_def sample_step_def sample_edge_def)
  moreover have "distinct (map pe_id sample_edges)" "?e \<in> set sample_edges"
    by (simp_all add: sample_edges_def sample_edge_def)
  moreover have "pe_id ?e \<in> po_selectedEdgeIds (buildPathOverlay sample_path sample_edges None)"
    by (simp add: sample_path_def buildPathOverlay_closed sample_edge_def sample_step_def split: option.split)
  ultimately have "pe_from ?e \<in> po_visited (buildPathOverlay sample_path sample_edges None)
      \<and> pe_to ?e \<in> po_visited (buildPathOverlay sample_path sample_edges None)"
    by (rule selected_edges_join_visited)
  then show ?thesis by (simp add: sample_edge_def)
qed

end
