(* ===== verification/Drawing.thy ===== *)
theory Drawing
  imports Layout Overlay Format Uri
begin

text \<open>
  \<open>components/graph/PlaybookGraph.tsx\<close>, \<open>edges.tsx\<close> and \<open>nodes.tsx\<close>: the flow nodes and edges
  the canonical graph and an optional overlay become, and what each is drawn with. Colours,
  borders and stamps are datatypes; class names are not modelled. The route of an edge on the canvas
  is computed by the drawing library, an argument here.
\<close>

section \<open>Flow nodes and edges\<close>

record graph_node_data =
  gn_kind :: node_kind
  gn_title :: jstring
  gn_description :: jstring
  gn_resolution :: "jstring option"
  gn_isRoot :: bool
  gn_isVisited :: bool
  gn_isFinal :: bool
  gn_stepNumber :: "int option"
  gn_isGhost :: bool

record flow_node =
  fn_id :: uuid
  fn_type :: node_kind
  fn_x :: rat
  fn_y :: rat
  fn_initialWidth :: "rat option"
  fn_initialHeight :: "rat option"
  fn_selectable :: bool
  fn_selected :: bool
  fn_data :: graph_node_data

record graph_edge_data =
  ge_label :: jstring
  ge_isSelected :: bool
  ge_stepNumber :: "int option"
  ge_isGhost :: bool

datatype ink = Signal | Rule | Rule_Strong

record flow_edge =
  fe_id :: uuid
  fe_source :: uuid
  fe_target :: uuid
  fe_zIndex :: nat
  fe_marker :: ink
  fe_data :: graph_edge_data

text \<open>An overlay is drawn when it is given and something was visited.\<close>
definition overlaid :: "path_overlay option \<Rightarrow> bool" where
  "overlaid ov = (case ov of None \<Rightarrow> False | Some p \<Rightarrow> po_visited p \<noteq> {})"

definition visited_in :: "path_overlay option \<Rightarrow> uuid \<Rightarrow> bool" where
  "visited_in ov n = (case ov of None \<Rightarrow> False | Some p \<Rightarrow> n \<in> po_visited p)"

definition selected_in :: "path_overlay option \<Rightarrow> uuid \<Rightarrow> bool" where
  "selected_in ov e = (case ov of None \<Rightarrow> False | Some p \<Rightarrow> e \<in> po_selectedEdgeIds p)"

definition flow_node ::
  "graph_layout \<Rightarrow> uuid option \<Rightarrow> path_overlay option \<Rightarrow> bool \<Rightarrow> uuid option \<Rightarrow> playbook_node \<Rightarrow> flow_node"
where
  "flow_node layout rootNodeId ov clickable selectedNodeId node =
     (let box = gl_nodes layout (pn_id node); isVisited = visited_in ov (pn_id node)
      in \<lparr>fn_id = pn_id node,
          fn_type = pn_kind node,
          fn_x = (case box of None \<Rightarrow> 0 | Some b \<Rightarrow> pos_x b),
          fn_y = (case box of None \<Rightarrow> 0 | Some b \<Rightarrow> pos_y b),
          fn_initialWidth = map_option pos_width box,
          fn_initialHeight = map_option pos_height box,
          fn_selectable = clickable,
          fn_selected = (selectedNodeId = Some (pn_id node)),
          fn_data =
            \<lparr>gn_kind = pn_kind node, gn_title = pn_title node, gn_description = pn_description node,
             gn_resolution = pn_terminal_resolution node,
             gn_isRoot = (Some (pn_id node) = rootNodeId),
             gn_isVisited = isVisited,
             gn_isFinal = (case ov of None \<Rightarrow> False | Some p \<Rightarrow> po_finalNodeId p = Some (pn_id node)),
             gn_stepNumber = (case ov of None \<Rightarrow> None | Some p \<Rightarrow> po_stepAtNode p (pn_id node)),
             gn_isGhost = (overlaid ov \<and> \<not> isVisited)\<rparr>\<rparr>)"

definition flow_edge :: "path_overlay option \<Rightarrow> playbook_edge \<Rightarrow> flow_edge" where
  "flow_edge ov edge =
     (let isSelected = selected_in ov (pe_id edge)
      in \<lparr>fe_id = pe_id edge, fe_source = pe_from edge, fe_target = pe_to edge,
          fe_zIndex = (if isSelected then 2 else 1),
          fe_marker = (if isSelected then Signal else if overlaid ov then Rule else Rule_Strong),
          fe_data =
            \<lparr>ge_label = pe_label edge, ge_isSelected = isSelected,
             ge_stepNumber = (case ov of None \<Rightarrow> None | Some p \<Rightarrow> po_stepAtEdge p (pe_id edge)),
             ge_isGhost = (overlaid ov \<and> \<not> isSelected)\<rparr>\<rparr>)"

text \<open>The component: nothing at all for a version without nodes.\<close>
definition playbook_graph ::
  "(playbook_node list \<Rightarrow> playbook_edge list \<Rightarrow> graph_layout) \<Rightarrow> playbook_node list \<Rightarrow> playbook_edge list
     \<Rightarrow> uuid option \<Rightarrow> path_overlay option \<Rightarrow> bool \<Rightarrow> uuid option \<Rightarrow> (flow_node list \<times> flow_edge list) option"
where
  "playbook_graph layout nodes edges rootNodeId ov clickable selectedNodeId =
     (if nodes = [] then None
      else Some (map (flow_node (layout nodes edges) rootNodeId ov clickable selectedNodeId) nodes,
                 map (flow_edge ov) edges))"

section \<open>How they are drawn\<close>

record edge_style =
  st_stroke :: ink
  st_heavy :: bool
  st_dashed :: bool
  st_stamp :: "int option"
  st_label :: jstring

definition draw_edge :: "graph_edge_data \<Rightarrow> edge_style" where
  "draw_edge data =
     \<lparr>st_stroke = (if ge_isSelected data then Signal else if ge_isGhost data then Rule else Rule_Strong),
      st_heavy = ge_isSelected data,
      st_dashed = ge_isGhost data,
      st_stamp = (if ge_isSelected data then ge_stepNumber data else None),
      st_label = ge_label data\<rparr>"

datatype border = Border_Signal | Border_Visited | Border_Rule | Border_Strong

datatype stamp = No_Stamp | Step_Stamp int | Reached | Current

record node_frame =
  fr_border :: border
  fr_faded :: bool
  fr_root :: bool
  fr_stamp :: stamp
  fr_lines :: "jstring list"

definition frame_border :: "graph_node_data \<Rightarrow> border" where
  "frame_border data =
     (if gn_isFinal data then Border_Signal else if gn_isVisited data then Border_Visited
      else if gn_isGhost data then Border_Rule else Border_Strong)"

definition frame_stamp :: "graph_node_data \<Rightarrow> stamp" where
  "frame_stamp data =
     (case gn_stepNumber data of
        Some k \<Rightarrow> Step_Stamp k
      | None \<Rightarrow> if gn_isFinal data then (if gn_kind data = Terminal then Reached else Current) else No_Stamp)"

text \<open>The texts of a decision or a terminal node below its frame's header.\<close>
definition node_lines :: "graph_node_data \<Rightarrow> jstring list" where
  "node_lines data =
     gn_title data #
     (case gn_kind data of
        Decision \<Rightarrow> if gn_description data = [] then [] else [gn_description data]
      | Terminal \<Rightarrow>
          or_else (gn_resolution data) em_dash
          # (case gn_resolution data of None \<Rightarrow> [] | Some r \<Rightarrow> if r = [] then [] else [humanizeToken r]))"

definition draw_node :: "graph_node_data \<Rightarrow> node_frame" where
  "draw_node data =
     \<lparr>fr_border = frame_border data, fr_faded = gn_isGhost data, fr_root = gn_isRoot data,
      fr_stamp = frame_stamp data, fr_lines = node_lines data\<rparr>"

section \<open>The canvas\<close>

text \<open>Where an edge starts and ends, and on which side of its nodes.\<close>
datatype side = Top | Bottom | Left_Side | Right_Side

record edge_ends =
  en_sourceX :: rat
  en_sourceY :: rat
  en_targetX :: rat
  en_targetY :: rat
  en_sourcePosition :: side
  en_targetPosition :: side

text \<open>\<open>smooth\<close> is \<open>getSmoothStepPath\<close>: from the ends, the corner radius and the offset to the path
  and the place of the label. Without data an edge is drawn plain.\<close>
definition GraphEdge ::
  "(edge_ends \<Rightarrow> rat \<Rightarrow> rat \<Rightarrow> jstring \<times> rat \<times> rat) \<Rightarrow> edge_ends \<Rightarrow> graph_edge_data option
     \<Rightarrow> jstring \<times> (rat \<times> rat) \<times> edge_style"
where
  "GraphEdge smooth ends data =
     (case smooth ends 0 14 of (path, labelX, labelY) \<Rightarrow>
        (path, (labelX, labelY),
         draw_edge (case data of Some d \<Rightarrow> d
           | None \<Rightarrow> \<lparr>ge_label = [], ge_isSelected = False, ge_stepNumber = None, ge_isGhost = False\<rparr>)))"

text \<open>What the canvas allows, and how far it zooms.\<close>
record flow_props =
  fp_nodesDraggable :: bool
  fp_nodesConnectable :: bool
  fp_edgesFocusable :: bool
  fp_elementsSelectable :: bool
  fp_clicks :: bool
  fp_padding :: rat
  fp_fitMaxZoom :: rat
  fp_minZoom :: rat
  fp_maxZoom :: rat
  fp_interactive :: bool

definition flow_props :: "bool \<Rightarrow> flow_props" where
  "flow_props clickable =
     \<lparr>fp_nodesDraggable = False, fp_nodesConnectable = False, fp_edgesFocusable = False,
      fp_elementsSelectable = clickable, fp_clicks = clickable, fp_padding = 12 / 100, fp_fitMaxZoom = 1,
      fp_minZoom = 15 / 100, fp_maxZoom = 16 / 10, fp_interactive = False\<rparr>"

text \<open>The effect that fits the view depends on the ids of the nodes, joined.\<close>
definition graphKey :: "playbook_node list \<Rightarrow> jstring" where
  "graphKey nodes = join_with [44] (map pn_id nodes)"

definition refits :: "playbook_node list \<Rightarrow> playbook_node list \<Rightarrow> bool" where
  "refits old new \<longleftrightarrow> graphKey old \<noteq> graphKey new"

section \<open>Lemmas\<close>

text \<open>The view is fitted again exactly when the list of nodes changes: not for an edited text, an
  edge or an overlay. An id with a comma could defeat the key.\<close>
lemma refits_exactly:
  assumes "list_all (\<lambda>n. 44 \<notin> set (pn_id n)) (as @ bs)" "as \<noteq> []" "bs \<noteq> []"
  shows "refits as bs \<longleftrightarrow> map pn_id as \<noteq> map pn_id bs"
proof -
  have split: "split_on 44 (graphKey ns) = map pn_id ns" if "ns \<noteq> []" "list_all (\<lambda>n. 44 \<notin> set (pn_id n)) ns" for ns
    unfolding graphKey_def using that by (intro split_on_join) (auto simp: list_all_iff)
  from split [of as] split [of bs] assms show ?thesis unfolding refits_def by (metis graphKey_def list_all_append)
qed

lemma commas_defeat_key:
  "\<exists>as bs. map pn_id as \<noteq> map pn_id bs \<and> \<not> refits as bs"
proof (intro exI conjI)
  let ?node = "\<lambda>i. \<lparr>pn_id = i, pn_kind = Decision, pn_title = [], pn_description = [],
      pn_terminal_resolution = None, pn_metadata = None\<rparr>"
  show "map pn_id [?node [65, 44, 66]] \<noteq> map pn_id [?node [65], ?node [66]]" by simp
  show "\<not> refits [?node [65, 44, 66]] [?node [65], ?node [66]]" by (simp add: refits_def graphKey_def)
qed

lemma flow_node_simps [simp]:
  "fn_id (flow_node l r ov c sel n) = pn_id n"
  "fn_type (flow_node l r ov c sel n) = pn_kind n"
  "gn_kind (fn_data (flow_node l r ov c sel n)) = pn_kind n"
  "gn_title (fn_data (flow_node l r ov c sel n)) = pn_title n"
  "gn_isVisited (fn_data (flow_node l r ov c sel n)) = visited_in ov (pn_id n)"
  "gn_isGhost (fn_data (flow_node l r ov c sel n)) = (overlaid ov \<and> \<not> visited_in ov (pn_id n))"
  "gn_isFinal (fn_data (flow_node l r ov c sel n))
     = (case ov of None \<Rightarrow> False | Some p \<Rightarrow> po_finalNodeId p = Some (pn_id n))"
  "gn_stepNumber (fn_data (flow_node l r ov c sel n))
     = (case ov of None \<Rightarrow> None | Some p \<Rightarrow> po_stepAtNode p (pn_id n))"
  by (simp_all add: flow_node_def Let_def)

lemma flow_edge_simps [simp]:
  "fe_id (flow_edge ov e) = pe_id e" "fe_source (flow_edge ov e) = pe_from e"
  "fe_target (flow_edge ov e) = pe_to e" "ge_label (fe_data (flow_edge ov e)) = pe_label e"
  "ge_isSelected (fe_data (flow_edge ov e)) = selected_in ov (pe_id e)"
  "ge_isGhost (fe_data (flow_edge ov e)) = (overlaid ov \<and> \<not> selected_in ov (pe_id e))"
  by (simp_all add: flow_edge_def Let_def)

text \<open>On a consistent overlay a stamped or final node is visited, so it is not faded.\<close>
lemma stamped_not_ghost:
  assumes "overlay_ok p" "pn_id n \<notin> po_visited p"
  shows "frame_stamp (fn_data (flow_node l r (Some p) c sel n)) = No_Stamp"
    and "frame_border (fn_data (flow_node l r (Some p) c sel n)) \<notin> {Border_Signal, Border_Visited}"
proof -
  have "po_stepAtNode p (pn_id n) = None" "po_finalNodeId p \<noteq> Some (pn_id n)"
    using assms unfolding overlay_ok_def by blast+
  then show "frame_stamp (fn_data (flow_node l r (Some p) c sel n)) = No_Stamp"
    "frame_border (fn_data (flow_node l r (Some p) c sel n)) \<notin> {Border_Signal, Border_Visited}"
    using assms(2) by (auto simp: frame_stamp_def frame_border_def visited_in_def)
qed

lemma one_final:
  assumes "distinct (map pn_id nodes)"
  shows "length (filter (\<lambda>n. po_finalNodeId p = Some (pn_id n)) nodes) \<le> 1"
proof (cases "po_finalNodeId p")
  case None
  then show ?thesis by simp
next
  case (Some c)
  have "length (filter (\<lambda>n. c = pn_id n) nodes) \<le> 1"
    using assms by (induction nodes) (auto simp: filter_empty_conv)
  then show ?thesis by (simp add: Some)
qed

section \<open>Properties\<close>

text \<open>Highlighting never changes the canonical graph: with or without an overlay the drawing
  has the version's nodes and edges, all of them, in their order, with their kinds, titles,
  ends and labels; only a version without nodes is not drawn.\<close>
theorem drawing_keeps_graph:
  "case playbook_graph layout nodes edges rootId ov clickable sel of
     None \<Rightarrow> nodes = []
   | Some (fns, fes) \<Rightarrow>
       map (\<lambda>f. (fn_id f, fn_type f, gn_title (fn_data f))) fns = map (\<lambda>n. (pn_id n, pn_kind n, pn_title n)) nodes
       \<and> map (\<lambda>f. (fe_id f, fe_source f, fe_target f, st_label (draw_edge (fe_data f)))) fes
         = map (\<lambda>e. (pe_id e, pe_from e, pe_to e, pe_label e)) edges"
  by (simp add: playbook_graph_def draw_edge_def)

text \<open>On the overlay of any path, a node is drawn faded exactly when something was visited
  and it was not; a faded node carries no stamp and no signal border, a visited one is never
  faded, and at most one node is drawn as the end.\<close>
theorem highlights_are_exclusive:
  assumes "distinct (map pn_id nodes)" "ov = buildPathOverlay path es t" "n \<in> set nodes"
  shows "let data = fn_data (flow_node l rootId (Some ov) c sel n) in
    fr_faded (draw_node data) = (po_visited ov \<noteq> {} \<and> pn_id n \<notin> po_visited ov)
    \<and> (fr_faded (draw_node data) \<longrightarrow>
        fr_stamp (draw_node data) = No_Stamp \<and> fr_border (draw_node data) = Border_Rule)
    \<and> length (filter (\<lambda>m. fr_border (draw_node (fn_data (flow_node l rootId (Some ov) c sel m))) = Border_Signal) nodes) \<le> 1"
proof -
  have ok: "overlay_ok ov" unfolding assms(2) by (rule overlay_ok_path)
  let ?data = "fn_data (flow_node l rootId (Some ov) c sel n)"
  have faded: "fr_faded (draw_node ?data) = (po_visited ov \<noteq> {} \<and> pn_id n \<notin> po_visited ov)"
    by (simp add: draw_node_def overlaid_def visited_in_def)
  moreover have "fr_stamp (draw_node ?data) = No_Stamp \<and> fr_border (draw_node ?data) = Border_Rule"
    if "fr_faded (draw_node ?data)"
  proof -
    from that have out: "pn_id n \<notin> po_visited ov" "gn_isGhost ?data"
      unfolding faded by (simp_all add: overlaid_def visited_in_def)
    from stamped_not_ghost [OF ok out(1), of l rootId c sel] out(2) show ?thesis
      by (auto simp: draw_node_def frame_border_def split: if_splits)
  qed
  moreover have "(\<lambda>m. fr_border (draw_node (fn_data (flow_node l rootId (Some ov) c sel m))) = Border_Signal)
      = (\<lambda>m. po_finalNodeId ov = Some (pn_id m))"
    by (rule ext) (simp add: draw_node_def frame_border_def)
  ultimately show ?thesis
    using one_final [OF assms(1), of ov] by (simp add: Let_def)
qed

theorem highlights_are_exclusive_witness:
  "let ov = buildPathOverlay [] [] (Some (js ''a''));
       data = fn_data (flow_node (layoutGraph by_length one_row sample_nodes sample_links) None (Some ov) True None (sample_nodes ! 1)) in
    fr_faded (draw_node data) = (po_visited ov \<noteq> {} \<and> pn_id (sample_nodes ! 1) \<notin> po_visited ov)"
  using highlights_are_exclusive [of sample_nodes "buildPathOverlay [] [] (Some (js ''a''))" "[]" "[]" "Some (js ''a'')"
      "sample_nodes ! 1" "layoutGraph by_length one_row sample_nodes sample_links" None True None]
  by (simp add: sample_nodes_def Let_def)

end
