(* ===== verification/Library.thy ===== *)
theory Library
  imports Ingest Search Drawing
begin

text \<open>
  \<open>app/playbooks/PlaybooksScreen.tsx\<close>: the playbook viewer. The selection lives in the address;
  two effects write to it (the first playbook, and a version to land on), as do the lists and
  the installation of the worked example. The address bar takes the addresses it is asked for
  one after the other, in order (\<open>li_goto\<close>).
\<close>

section \<open>State\<close>

datatype library_request =
    Install_Create
  | Install_Publish uuid
  | Publish_Shown uuid

record library =
  li_playbookId :: "uuid option"
  li_versionId :: "uuid option"
  li_playbooks :: "playbook list resource"
  li_playbook :: "playbook_with_versions resource"
  li_version :: "version_definition resource"
  li_inspectedNodeId :: "uuid option"
  li_installing :: bool
  li_installError :: "thrown option"
  li_publishing :: bool
  li_publishError :: "thrown option"
  li_created :: "playbook_with_versions option"
  li_goto :: "(uuid option \<times> uuid option) list"
  li_log :: "library_request list"

text \<open>A parameter that is missing and one that is empty are written alike.\<close>
definition param :: "uuid option \<Rightarrow> uuid option" where
  "param x = (if given x then x else None)"

definition select :: "uuid option \<Rightarrow> uuid option \<Rightarrow> library \<Rightarrow> library" where
  "select nextPlaybook nextVersion s = s\<lparr>li_goto := li_goto s @ [(param nextPlaybook, param nextVersion)]\<rparr>"

text \<open>The address a selection writes.\<close>
definition selection_params :: "uuid option \<times> uuid option \<Rightarrow> search_params" where
  "selection_params pv =
     (let next = (case fst pv of None \<Rightarrow> [] | Some p \<Rightarrow> set_param (js ''playbook'') p [])
      in case snd pv of None \<Rightarrow> next | Some v \<Rightarrow> set_param (js ''version'') v next)"

definition library_href :: "uuid option \<times> uuid option \<Rightarrow> jstring" where
  "library_href pv = href_with (js ''/playbooks'') (selection_params pv)"

section \<open>Landing\<close>

definition land_on_playbook :: "library \<Rightarrow> library" where
  "land_on_playbook s =
     (case rc_data (li_playbooks s) of
        Some (p # _) \<Rightarrow> if given (li_playbookId s) then s else select (Some (pb_id p)) None s
      | _ \<Rightarrow> s)"

definition sorted_versions :: "version_summary list \<Rightarrow> version_summary list" where
  "sorted_versions vs = sort_by newest_first vs"

text \<open>The newest published version, else the newest.\<close>
definition landing_version :: "version_summary list \<Rightarrow> version_summary option" where
  "landing_version vs =
     (let byVersion = sorted_versions vs
      in case find_first (\<lambda>v. vs_status v = Published) byVersion of
           Some v \<Rightarrow> Some v
         | None \<Rightarrow> (case byVersion of [] \<Rightarrow> None | v # _ \<Rightarrow> Some v))"

definition land_on_version :: "library \<Rightarrow> library" where
  "land_on_version s =
     (case rc_data (li_playbook s) of
        None \<Rightarrow> s
      | Some p \<Rightarrow>
          if \<not> given (li_playbookId s) \<or> pb_versions p = [] then s
          else if list_ex (\<lambda>v. Some (vs_id v) = li_versionId s) (pb_versions p) then s
          else (case landing_version (pb_versions p) of None \<Rightarrow> s | Some v \<Rightarrow> select (li_playbookId s) (Some (vs_id v)) s))"

text \<open>The address changed: the loads it keys, then the landing effects, then the inspector's.\<close>
definition arrive_at :: "uuid option \<times> uuid option \<Rightarrow> library \<Rightarrow> library" where
  "arrive_at pv s =
     (let newPlaybook = (fst pv \<noteq> li_playbookId s); newVersion = (snd pv \<noteq> li_versionId s);
          s1 = s\<lparr>li_playbookId := fst pv, li_versionId := snd pv,
                 li_playbook := (if newPlaybook then run_effect (given (fst pv)) (li_playbook s) else li_playbook s),
                 li_version := (if newVersion then run_effect (given (snd pv)) (li_version s) else li_version s)\<rparr>;
          s2 = (if newPlaybook then land_on_playbook s1 else s1);
          s3 = (if newPlaybook \<or> newVersion then land_on_version s2 else s2)
      in if newVersion then s3\<lparr>li_inspectedNodeId := None\<rparr> else s3)"

section \<open>Installing and publishing\<close>

definition installDemoPlaybook :: "library \<Rightarrow> library" where
  "installDemoPlaybook s =
     s\<lparr>li_installing := True, li_installError := None, li_log := li_log s @ [Install_Create]\<rparr>"

text \<open>After the creation; a missing first version throws inside the \<open>try\<close>.\<close>
definition created_done :: "(thrown + playbook_with_versions) \<Rightarrow> library \<Rightarrow> library" where
  "created_done answer s =
     (case answer of
        Inl err \<Rightarrow> s\<lparr>li_installError := Some err, li_installing := False\<rparr>
      | Inr created \<Rightarrow>
          (case pb_versions created of
             [] \<Rightarrow> s\<lparr>li_installError := Some (Other_Failure (js ''draft is undefined'')), li_installing := False\<rparr>
           | draft # _ \<Rightarrow> s\<lparr>li_created := Some created, li_log := li_log s @ [Install_Publish (vs_id draft)]\<rparr>))"

definition installed_done :: "(thrown + version_definition) \<Rightarrow> playbook_with_versions \<Rightarrow> library \<Rightarrow> library" where
  "installed_done answer created s =
     (case answer of
        Inl err \<Rightarrow> s\<lparr>li_installError := Some err, li_installing := False, li_created := None\<rparr>
      | Inr _ \<Rightarrow>
          (select (Some (pb_id created)) (Some (vs_id (hd (pb_versions created))))
             (s\<lparr>li_playbooks := retry_load (li_playbooks s)\<rparr>))\<lparr>li_installing := False, li_created := None\<rparr>)"

definition publish_version :: "uuid \<Rightarrow> library \<Rightarrow> library" where
  "publish_version v s = s\<lparr>li_publishing := True, li_publishError := None, li_log := li_log s @ [Publish_Shown v]\<rparr>"

definition published_done :: "(thrown + version_definition) \<Rightarrow> library \<Rightarrow> library" where
  "published_done answer s =
     (case answer of
        Inl err \<Rightarrow> s\<lparr>li_publishError := Some err, li_publishing := False\<rparr>
      | Inr v \<Rightarrow> s\<lparr>li_version := set_resource v (li_version s),
                    li_playbook := run_effect (given (li_playbookId s)) (reload_resource (li_playbook s)),
                    li_publishing := False\<rparr>)"

section \<open>What is on screen\<close>

definition inspected_node :: "library \<Rightarrow> playbook_node option" where
  "inspected_node s =
     (case rc_data (li_version s) of
        None \<Rightarrow> None
      | Some v \<Rightarrow> find_first (\<lambda>n. Some (pn_id n) = li_inspectedNodeId s) (g_nodes v))"

definition by_sort_order :: "playbook_edge \<Rightarrow> playbook_edge \<Rightarrow> int" where
  "by_sort_order a b = number_sign (number_sub (pe_sort_order a) (pe_sort_order b))"

text \<open>The inspector's choices: label, description or an arrow, and the title of the node led to.\<close>
definition inspected_choices :: "'a graph_input_scheme \<Rightarrow> playbook_node \<Rightarrow> (jstring \<times> jstring \<times> jstring option) list" where
  "inspected_choices version node =
     (if pn_kind node = Decision then
        map (\<lambda>e. (pe_label e, or_else (pe_description e) [0x2192],
                  map_option pn_title (find_first (\<lambda>n. pn_id n = pe_to e) (g_nodes version))))
          (sort_by by_sort_order (filter (\<lambda>e. pe_from e = pn_id node) (g_edges version)))
      else [])"

text \<open>The inspector: the eyebrow, the title, the short id with the id in full, then the parts that
  are shown only when there is something to show. Metadata that are null or absent are named as none.\<close>
record inspector =
  in_eyebrow :: jstring
  in_title :: jstring
  in_node_id :: jstring
  in_description :: "jstring option"
  in_resolution :: "(jstring \<times> jstring) option"
  in_choices :: "(jstring \<times> jstring \<times> jstring option) list option"
  in_metadata :: jstring

definition inspector :: "version_definition \<Rightarrow> playbook_node \<Rightarrow> inspector" where
  "inspector version node =
     \<lparr>in_eyebrow = kind_text (pn_kind node), in_title = pn_title node, in_node_id = shortId (Some (pn_id node)),
      in_description = null_if_blank (pn_description node),
      in_resolution = (if given (pn_terminal_resolution node)
        then Some (or_else (pn_terminal_resolution node) [], humanizeToken (or_else (pn_terminal_resolution node) []))
        else None),
      in_choices = (if pn_kind node = Decision then Some (inspected_choices version node) else None),
      in_metadata = (case pn_metadata node of
          Some m \<Rightarrow> prettyJson (JObj m)
        | None \<Rightarrow> js ''None. The engine never reads this field either way.'')\<rparr>"

record version_card =
  vc_title :: jstring
  vc_status :: version_status
  vc_edit_href :: jstring
  vc_edit_label :: jstring
  vc_publish :: "jstring option"
  vc_investigate :: "jstring option"
  vc_alert_type :: jstring
  vc_nodes :: jstring
  vc_choices :: jstring
  vc_dated :: jstring
  vc_date :: jstring

definition version_card :: "(jstring option \<Rightarrow> jstring) \<Rightarrow> library \<Rightarrow> version_definition \<Rightarrow> version_card" where
  "version_card shown s v =
     (let count = (\<lambda>k. nat_text (length (filter (\<lambda>n. pn_kind n = k) (g_nodes v))));
          pb = rc_data (li_playbook s)
      in \<lparr>vc_title = (case pb of None \<Rightarrow> js ''Playbook'' | Some p \<Rightarrow> pb_name p)
            @ js '' '' @ [0xB7] @ js '' version '' @ number_text (Fin (v_version v)),
          vc_status = v_status v,
          vc_edit_href = js ''/playbooks/'' @ v_playbook_id v @ js ''/versions/'' @ v_id v @ js ''/edit'',
          vc_edit_label = (if v_status v = Draft then js ''Edit draft'' else js ''Open in editor''),
          vc_publish = (if v_status v = Draft
            then Some (if li_publishing s then js ''Publishing'' @ ellipsis else js ''Publish version'') else None),
          vc_investigate = (if v_status v = Published
            then Some (js ''/investigations/new?version='' @ v_id v) else None),
          vc_alert_type = (case pb of None \<Rightarrow> em_dash | Some p \<Rightarrow> pb_alert_type p),
          vc_nodes = count Decision @ js '' decision '' @ [0xB7] @ js '' '' @ count Terminal @ js '' terminal'',
          vc_choices = nat_text (length (g_edges v)) @ js '' edges'',
          vc_dated = (if or_else (v_published_at v) [] \<noteq> [] then js ''Published'' else js ''Created''),
          vc_date = shown (Some (or_else (v_published_at v) (v_created_at v)))\<rparr>)"

text \<open>The two lists: each row's id, text and whether it is the active one.\<close>
definition playbook_rows :: "library \<Rightarrow> (uuid \<times> jstring \<times> jstring \<times> bool) list" where
  "playbook_rows s =
     (case rc_data (li_playbooks s) of
        None \<Rightarrow> []
      | Some ps \<Rightarrow> map (\<lambda>p. (pb_id p, pb_name p, pb_alert_type p, Some (pb_id p) = li_playbookId s)) ps)"

definition version_rows :: "(jstring option \<Rightarrow> jstring) \<Rightarrow> library \<Rightarrow> (uuid \<times> jstring \<times> version_status \<times> jstring \<times> bool) list" where
  "version_rows shown s =
     (case rc_data (li_playbook s) of
        None \<Rightarrow> []
      | Some p \<Rightarrow>
          map (\<lambda>v. (vs_id v, js ''v'' @ number_text (Fin (vs_version v)), vs_status v,
                    take 11 (shown (Some (or_else (vs_published_at v) (vs_created_at v)))),
                    Some (vs_id v) = li_versionId s)) (sorted_versions (pb_versions p)))"

section \<open>The machine\<close>

text \<open>\<open>Library_Address\<close> is a link of the frame, or the browser's history, to another address of this screen.\<close>
datatype library_event =
    Playbooks_Answer "thrown + playbook list"
  | Playbook_Answer "thrown + playbook_with_versions"
  | Version_Answer "thrown + version_definition"
  | Retry_Playbooks
  | Retry_Version
  | Click_Playbook uuid
  | Click_Version uuid
  | Arrive
  | Library_Address "uuid option \<times> uuid option"
  | Click_Node uuid
  | Close_Inspector
  | Press_Install
  | Create_Answer "thrown + playbook_with_versions"
  | Install_Answer "thrown + version_definition"
  | Press_Publish
  | Publish_Answer "thrown + version_definition"

fun library_step :: "library \<Rightarrow> library_event \<Rightarrow> library option" where
  "library_step s (Playbooks_Answer res) =
     map_option (\<lambda>r. (case res of Inl _ \<Rightarrow> id | Inr _ \<Rightarrow> land_on_playbook) (s\<lparr>li_playbooks := r\<rparr>))
       (answer_load res (li_playbooks s))"
| "library_step s (Playbook_Answer res) =
     map_option (\<lambda>r. (case res of Inl _ \<Rightarrow> id | Inr _ \<Rightarrow> land_on_version) (s\<lparr>li_playbook := r\<rparr>))
       (answer_load res (li_playbook s))"
| "library_step s (Version_Answer res) =
     map_option (\<lambda>r. s\<lparr>li_version := r\<rparr>) (answer_load res (li_version s))"
| "library_step s Retry_Playbooks =
     (if rc_error (li_playbooks s) \<noteq> None then Some (s\<lparr>li_playbooks := retry_load (li_playbooks s)\<rparr>) else None)"
| "library_step s Retry_Version =
     (if rc_error (li_version s) \<noteq> None
      then Some (s\<lparr>li_version := run_effect (given (li_versionId s)) (reload_resource (li_version s))\<rparr>) else None)"
| "library_step s (Click_Playbook p) =
     (if p \<in> fst ` set (playbook_rows s) then Some (select (Some p) None s) else None)"
| "library_step s (Click_Version v) =
     (if v \<in> fst ` set (version_rows (\<lambda>_. []) s) then Some (select (li_playbookId s) (Some v) s) else None)"
| "library_step s Arrive =
     (case li_goto s of [] \<Rightarrow> None | pv # rest \<Rightarrow> Some (arrive_at pv (s\<lparr>li_goto := rest\<rparr>)))"
| "library_step s (Library_Address pv) = Some (s\<lparr>li_goto := li_goto s @ [pv]\<rparr>)"
| "library_step s (Click_Node n) =
     (if pred_option (\<lambda>v. n \<in> pn_id ` set (g_nodes v)) (rc_data (li_version s)) \<and> rc_data (li_version s) \<noteq> None
      then Some (s\<lparr>li_inspectedNodeId := Some n\<rparr>) else None)"
| "library_step s Close_Inspector =
     (if inspected_node s \<noteq> None then Some (s\<lparr>li_inspectedNodeId := None\<rparr>) else None)"
| "library_step s Press_Install =
     (if rc_data (li_playbooks s) \<noteq> None \<and> \<not> li_installing s then Some (installDemoPlaybook s) else None)"
| "library_step s (Create_Answer res) =
     (if li_installing s \<and> li_created s = None then Some (created_done res s) else None)"
| "library_step s (Install_Answer res) = map_option (\<lambda>created. installed_done res created s) (li_created s)"
| "library_step s Press_Publish =
     (case rc_data (li_version s) of
        None \<Rightarrow> None
      | Some v \<Rightarrow> if v_status v = Draft \<and> \<not> li_publishing s then Some (publish_version (v_id v) s) else None)"
| "library_step s (Publish_Answer res) = (if li_publishing s then Some (published_done res s) else None)"

text \<open>Opening the screen at an address runs the first effects.\<close>
definition initial_library :: "uuid option \<Rightarrow> uuid option \<Rightarrow> library" where
  "initial_library playbookId versionId =
     \<lparr>li_playbookId = playbookId, li_versionId = versionId,
      li_playbooks = run_effect True (initial_resource True),
      li_playbook = run_effect (given playbookId) (initial_resource (given playbookId)),
      li_version = run_effect (given versionId) (initial_resource (given versionId)),
      li_inspectedNodeId = None, li_installing = False, li_installError = None,
      li_publishing = False, li_publishError = None, li_created = None, li_goto = [], li_log = []\<rparr>"

text \<open>Version ids are never blank.\<close>
definition well_named :: "library_event \<Rightarrow> bool" where
  "well_named ev =
     (case ev of Playbook_Answer (Inr p) \<Rightarrow> list_all (\<lambda>v. vs_id v \<noteq> []) (pb_versions p) | _ \<Rightarrow> True)"

abbreviation library_reach :: "library \<Rightarrow> library \<Rightarrow> bool" where
  "library_reach \<equiv> reach library_step (\<lambda>_. well_named)"

abbreviation run_library :: "library \<Rightarrow> library_event list \<Rightarrow> library option" where
  "run_library \<equiv> run library_step"

section \<open>The landing version\<close>

lemma set_sorted_versions [simp]: "set (sorted_versions vs) = set vs"
  by (simp add: sorted_versions_def)

lemma sorted_versions_sorted: "sorted_wrt (\<lambda>a b. vs_version b \<le> vs_version a) (sorted_versions vs)"
  using newest.sorted_sort [of vs] by (simp add: sorted_versions_def newest_first_def)

lemma sorted_find:
  assumes "sorted_wrt r xs" "List.find q xs = Some x" "y \<in> set xs" "q y"
  shows "y = x \<or> r x y"
  using assms
proof (induction xs)
  case Nil
  then show ?case by simp
next
  case (Cons z xs)
  then show ?case by (cases "q z") auto
qed

lemma landing_cases:
  assumes "landing_version vs = Some v"
  shows "v \<in> set vs \<and> (if \<exists>w\<in>set vs. vs_status w = Published
      then vs_status v = Published \<and> (\<forall>w\<in>set vs. vs_status w = Published \<longrightarrow> vs_version w \<le> vs_version v)
      else \<forall>w\<in>set vs. vs_version w \<le> vs_version v)"
proof (cases "List.find (\<lambda>v. vs_status v = Published) (sorted_versions vs)")
  case (Some u)
  then have "u = v" using assms by (simp add: landing_version_def Let_def)
  with find_SomeD [OF Some] have v: "v \<in> set vs" "vs_status v = Published" by simp_all
  have "vs_version w \<le> vs_version v" if "w \<in> set vs" "vs_status w = Published" for w
    using sorted_find [OF sorted_versions_sorted Some, of w] that \<open>u = v\<close> by auto
  with v show ?thesis by auto
next
  case None
  with assms obtain r where r: "sorted_versions vs = v # r"
    by (auto simp: landing_version_def Let_def split: list.splits)
  have none: "\<not> (\<exists>w\<in>set vs. vs_status w = Published)"
    using None by (simp add: find_None_iff)
  have all: "set vs = insert v (set r)" using r set_sorted_versions [of vs] by simp
  have "\<forall>w\<in>set r. vs_version w \<le> vs_version v"
    using sorted_versions_sorted [of vs] r by simp
  with none all show ?thesis by auto
qed

lemma landing_None: "landing_version vs = None \<longleftrightarrow> vs = []"
proof -
  have "sorted_versions vs = [] \<longleftrightarrow> vs = []" by (simp add: sorted_versions_def)
  then show ?thesis by (auto simp: landing_version_def Let_def split: option.split list.split)
qed

section \<open>The selection settles\<close>

definition landed :: "library \<Rightarrow> bool" where
  "landed s \<longleftrightarrow>
     (\<forall>p. rc_data (li_playbook s) = Some p \<longrightarrow>
        list_all (\<lambda>v. vs_id v \<noteq> []) (pb_versions p)
        \<and> (given (li_playbookId s) \<longrightarrow> pb_versions p \<noteq> [] \<longrightarrow>
            (\<exists>v\<in>set (pb_versions p). li_versionId s = Some (vs_id v))
            \<or> (\<exists>x\<in>set (li_goto s). x \<noteq> (li_playbookId s, li_versionId s))))"

lemma land_on_version_landed:
  assumes "\<And>p. rc_data (li_playbook s) = Some p \<Longrightarrow> list_all (\<lambda>v. vs_id v \<noteq> []) (pb_versions p)"
  shows "landed (land_on_version s)"
proof (cases "rc_data (li_playbook s)")
  case None
  then show ?thesis by (simp add: landed_def land_on_version_def)
next
  case (Some p)
  note named = assms [OF Some]
  show ?thesis
  proof (cases "\<not> given (li_playbookId s) \<or> pb_versions p = []
      \<or> list_ex (\<lambda>v. Some (vs_id v) = li_versionId s) (pb_versions p)")
    case True
    then have "land_on_version s = s" using Some by (auto simp: land_on_version_def)
    with True Some named show ?thesis by (force simp: landed_def list_ex_iff)
  next
    case False
    then obtain v where v: "landing_version (pb_versions p) = Some v" using landing_None by fastforce
    then have "vs_id v \<noteq> []" "li_versionId s \<noteq> Some (vs_id v)"
      using landing_cases [OF v] named False by (auto simp: list_all_iff list_ex_iff)
    moreover have "land_on_version s = select (li_playbookId s) (Some (vs_id v)) s"
      using False Some v by (simp add: land_on_version_def)
    ultimately show ?thesis using Some named by (simp add: landed_def select_def param_def given_def)
  qed
qed

lemma landed_frame:
  assumes "landed s" "rc_data (li_playbook s') = rc_data (li_playbook s)" "li_playbookId s' = li_playbookId s"
    "li_versionId s' = li_versionId s" "set (li_goto s) \<subseteq> set (li_goto s')"
  shows "landed s'"
  using assms by (auto simp: landed_def)

lemma land_on_playbook_frame [simp]:
  "rc_data (li_playbook (land_on_playbook s)) = rc_data (li_playbook s)"
  "li_playbookId (land_on_playbook s) = li_playbookId s" "li_versionId (land_on_playbook s) = li_versionId s"
  "set (li_goto s) \<subseteq> set (li_goto (land_on_playbook s))"
  by (auto simp: land_on_playbook_def select_def split: option.splits list.splits)

lemma select_frame [simp]:
  "rc_data (li_playbook (select a b s)) = rc_data (li_playbook s)"
  "li_playbookId (select a b s) = li_playbookId s" "li_versionId (select a b s) = li_versionId s"
  "set (li_goto s) \<subseteq> set (li_goto (select a b s))"
  by (auto simp: select_def)

lemma data_after_effect [simp]: "rc_data (run_effect en r) = rc_data r" "rc_data (reload_resource r) = rc_data r"
  by (simp_all add: run_effect_def reload_resource_def)

lemma arrive_landed:
  assumes "landed s" "li_goto s = pv # rest"
  shows "landed (arrive_at pv (s\<lparr>li_goto := rest\<rparr>))"
proof -
  have named: "rc_data (li_playbook s) = Some p \<Longrightarrow> list_all (\<lambda>v. vs_id v \<noteq> []) (pb_versions p)" for p
    using assms(1) by (simp add: landed_def)
  show ?thesis
  proof (cases "fst pv = li_playbookId s \<and> snd pv = li_versionId s")
    case True
    then have "arrive_at pv (s\<lparr>li_goto := rest\<rparr>) = s\<lparr>li_goto := rest\<rparr>"
      by (simp add: arrive_at_def Let_def)
    moreover have "landed (s\<lparr>li_goto := rest\<rparr>)"
      using assms True by (auto simp: landed_def prod_eq_iff)
    ultimately show ?thesis by simp
  next
    case False
    define t where "t = (let s1 = s\<lparr>li_goto := rest, li_playbookId := fst pv, li_versionId := snd pv,
        li_playbook := (if fst pv \<noteq> li_playbookId s then run_effect (given (fst pv)) (li_playbook s) else li_playbook s),
        li_version := (if snd pv \<noteq> li_versionId s then run_effect (given (snd pv)) (li_version s) else li_version s)\<rparr>
      in if fst pv \<noteq> li_playbookId s then land_on_playbook s1 else s1)"
    have data: "rc_data (li_playbook t) = rc_data (li_playbook s)" by (simp add: t_def Let_def)
    have "landed (land_on_version t)"
      by (rule land_on_version_landed) (simp add: data named)
    moreover have "arrive_at pv (s\<lparr>li_goto := rest\<rparr>) = land_on_version t
        \<or> arrive_at pv (s\<lparr>li_goto := rest\<rparr>) = (land_on_version t)\<lparr>li_inspectedNodeId := None\<rparr>"
      using False by (auto simp: arrive_at_def t_def Let_def)
    ultimately show ?thesis using landed_frame [of "land_on_version t"] by fastforce
  qed
qed

lemma step_landed:
  assumes "landed s" "library_step s ev = Some s'" "well_named ev"
  shows "landed s'"
proof (cases ev)
  case (Playbook_Answer res)
  with assms(2) obtain r where r: "answer_load res (li_playbook s) = Some r"
    "s' = (case res of Inl _ \<Rightarrow> id | Inr _ \<Rightarrow> land_on_version) (s\<lparr>li_playbook := r\<rparr>)"
    by auto
  show ?thesis
  proof (cases res)
    case (Inl err)
    with r answer_load_data [OF r(1)] have "s' = s\<lparr>li_playbook := r\<rparr>" "rc_data r = rc_data (li_playbook s)"
      by simp_all
    then show ?thesis using landed_frame [OF assms(1), of s'] by simp
  next
    case (Inr p)
    with r answer_load_data [OF r(1)] have s': "s' = land_on_version (s\<lparr>li_playbook := r\<rparr>)" "rc_data r = Some p"
      by simp_all
    show ?thesis unfolding s'(1)
      by (rule land_on_version_landed) (use s'(2) assms(3) Inr Playbook_Answer in \<open>simp add: well_named_def\<close>)
  qed
next
  case Arrive
  with assms(2) obtain pv rest where "li_goto s = pv # rest" "s' = arrive_at pv (s\<lparr>li_goto := rest\<rparr>)"
    by (auto split: list.splits)
  with arrive_landed [OF assms(1)] show ?thesis by simp
next
  case (Playbooks_Answer res)
  with assms(2) obtain r where s': "s' = s\<lparr>li_playbooks := r\<rparr> \<or> s' = land_on_playbook (s\<lparr>li_playbooks := r\<rparr>)"
    by (auto split: sum.splits)
  have "landed (s\<lparr>li_playbooks := r\<rparr>)" by (rule landed_frame [OF assms(1)]) simp_all
  with s' landed_frame [of "s\<lparr>li_playbooks := r\<rparr>" s'] show ?thesis
    by (metis land_on_playbook_frame)
next
  case (Install_Answer res)
  with assms(2) obtain created where "s' = installed_done res created s" by auto
  then have "rc_data (li_playbook s') = rc_data (li_playbook s)" "li_playbookId s' = li_playbookId s"
    "li_versionId s' = li_versionId s" "set (li_goto s) \<subseteq> set (li_goto s')"
    by (cases res; auto simp: installed_done_def select_def)+
  then show ?thesis by (rule landed_frame [OF assms(1)])
next
  case (Publish_Answer res)
  with assms(2) have "s' = published_done res s" by (auto split: if_splits)
  then have "rc_data (li_playbook s') = rc_data (li_playbook s)" "li_playbookId s' = li_playbookId s"
    "li_versionId s' = li_versionId s" "set (li_goto s) \<subseteq> set (li_goto s')"
    by (cases res; auto simp: published_done_def)+
  then show ?thesis by (rule landed_frame [OF assms(1)])
qed (rule landed_frame [OF assms(1)];
    use assms(2) in \<open>auto simp: installDemoPlaybook_def created_done_def installed_done_def publish_version_def
      published_done_def select_def split: if_splits option.splits sum.splits list.splits\<close>)+

interpretation library_selection: machine_invariant library_step "\<lambda>_. well_named" landed
  by unfold_locales (rule step_landed)

lemma library_landed: "library_reach (initial_library p v) s \<Longrightarrow> landed s"
  by (erule library_selection.holds) (simp add: landed_def initial_library_def initial_resource_def)

lemma run_library_reach:
  assumes "library_reach s0 s" "run_library s evs = Some s'" "list_all well_named evs"
  shows "library_reach s0 s'"
  using assms(3) by (intro run_reach [OF assms(1,2)]) (simp add: list_all_iff)

lemmas library_run_defs = initial_library_def answer_load_def settle_def run_effect_def initial_resource_def
  land_on_playbook_def land_on_version_def landing_version_def sorted_versions_def newest_first_def select_def
  param_def given_def arrive_at_def playbook_rows_def version_rows_def publish_version_def published_done_def
  set_resource_def reload_resource_def

section \<open>The address bar comes to rest\<close>

text \<open>What is left to do: an address with no playbook may be sent to the first playbook, one with a
  version its playbook lacks to the landing version, any other is the end.\<close>
definition address_weight :: "library \<Rightarrow> uuid option \<times> uuid option \<Rightarrow> nat" where
  "address_weight s pv =
     (if \<not> given (fst pv) then 3
      else case rc_data (li_playbook s) of
        None \<Rightarrow> 1
      | Some p \<Rightarrow> if \<exists>v\<in>set (pb_versions p). snd pv = Some (vs_id v) then 1 else 2)"

definition address_work :: "library \<Rightarrow> nat" where
  "address_work s = sum_list (map (address_weight s) (li_goto s))"

definition loaded_named :: "library \<Rightarrow> bool" where
  "loaded_named s \<longleftrightarrow>
     (\<forall>ps. rc_data (li_playbooks s) = Some ps \<longrightarrow> list_all (\<lambda>p. pb_id p \<noteq> []) ps)
     \<and> (\<forall>p. rc_data (li_playbook s) = Some p \<longrightarrow> list_all (\<lambda>v. vs_id v \<noteq> []) (pb_versions p))"

lemma same_data:
  assumes "rc_data (li_playbook s') = rc_data (li_playbook s)" "rc_data (li_playbooks s') = rc_data (li_playbooks s)"
  shows "address_weight s' = address_weight s" "loaded_named s' = loaded_named s"
  using assms by (simp_all add: address_weight_def loaded_named_def fun_eq_iff)

text \<open>What an effect adds to the queue weighs less than the address it reacts to.\<close>
lemma land_on_playbook_adds:
  assumes "loaded_named s"
  shows "\<exists>more. li_goto (land_on_playbook s) = li_goto s @ more
    \<and> (more = [] \<or> \<not> given (li_playbookId s) \<and> sum_list (map (address_weight s) more) \<le> 2)"
proof (cases "rc_data (li_playbooks s)")
  case (Some ps)
  show ?thesis
  proof (cases ps)
    case (Cons p r)
    with Some assms have "given (param (Some (pb_id p)))" by (simp add: loaded_named_def given_def param_def)
    then have "address_weight s (param (Some (pb_id p)), param None) \<le> 2"
      by (auto simp: address_weight_def split: option.split)
    with Some Cons show ?thesis by (auto simp: land_on_playbook_def select_def)
  qed (simp add: land_on_playbook_def Some)
qed (simp add: land_on_playbook_def)

lemma land_on_version_adds:
  assumes "loaded_named s"
  shows "\<exists>more. li_goto (land_on_version s) = li_goto s @ more
    \<and> (more = [] \<or> given (li_playbookId s) \<and> address_weight s (li_playbookId s, li_versionId s) = 2
          \<and> sum_list (map (address_weight s) more) = 1)"
proof (cases "land_on_version s = s")
  case False
  then obtain p v where p: "rc_data (li_playbook s) = Some p" and on: "given (li_playbookId s)"
    and none: "\<not> list_ex (\<lambda>v. Some (vs_id v) = li_versionId s) (pb_versions p)"
    and v: "landing_version (pb_versions p) = Some v"
    and to: "land_on_version s = select (li_playbookId s) (Some (vs_id v)) s"
    by (auto simp: land_on_version_def split: option.splits if_splits)
  have mem: "v \<in> set (pb_versions p)" using landing_cases [OF v] by simp
  with assms p have "vs_id v \<noteq> []" by (auto simp: loaded_named_def list_all_iff)
  then have pv: "(param (li_playbookId s), param (Some (vs_id v))) = (li_playbookId s, Some (vs_id v))"
    using on by (simp add: param_def given_def)
  have "address_weight s (li_playbookId s, Some (vs_id v)) = 1"
    using p on mem by (auto simp: address_weight_def)
  moreover have "address_weight s (li_playbookId s, li_versionId s) = 2"
    using p on none by (auto simp: address_weight_def list_ex_iff)
  ultimately show ?thesis using on by (simp add: to select_def pv)
qed simp

lemma arrive_lighter:
  assumes "loaded_named s" "li_goto s = pv # rest" "s' = arrive_at pv (s\<lparr>li_goto := rest\<rparr>)"
  shows "address_work s' < address_work s \<and> loaded_named s'"
proof -
  define s1 where "s1 = s\<lparr>li_goto := rest, li_playbookId := fst pv, li_versionId := snd pv,
      li_playbook := (if fst pv \<noteq> li_playbookId s then run_effect (given (fst pv)) (li_playbook s) else li_playbook s),
      li_version := (if snd pv \<noteq> li_versionId s then run_effect (given (snd pv)) (li_version s) else li_version s)\<rparr>"
  define s2 where "s2 = (if fst pv \<noteq> li_playbookId s then land_on_playbook s1 else s1)"
  define s3 where "s3 = (if fst pv \<noteq> li_playbookId s \<or> snd pv \<noteq> li_versionId s then land_on_version s2 else s2)"
  have s': "li_goto s' = li_goto s3" "rc_data (li_playbook s') = rc_data (li_playbook s3)"
    "rc_data (li_playbooks s') = rc_data (li_playbooks s3)"
    unfolding assms(3) s3_def s2_def s1_def by (simp_all add: arrive_at_def Let_def)
  have d1: "rc_data (li_playbook s1) = rc_data (li_playbook s)" "rc_data (li_playbooks s1) = rc_data (li_playbooks s)"
    by (simp_all add: s1_def)
  have d2: "rc_data (li_playbook s2) = rc_data (li_playbook s)" "rc_data (li_playbooks s2) = rc_data (li_playbooks s)"
    "li_playbookId s2 = fst pv" "li_versionId s2 = snd pv"
    by (auto simp: s2_def s1_def land_on_playbook_def select_def split: option.split list.split)
  have d3: "rc_data (li_playbook s3) = rc_data (li_playbook s)" "rc_data (li_playbooks s3) = rc_data (li_playbooks s)"
    by (auto simp: s3_def d2 land_on_version_def select_def split: option.split)
  note w = same_data [OF d1] same_data [OF d2(1,2)] same_data [OF d3]
  have at1: "li_goto s1 = rest" "li_playbookId s1 = fst pv" by (simp_all add: s1_def)
  have named: "loaded_named s1" "loaded_named s2" using assms(1) w by simp_all
  have "\<exists>m1. li_goto s2 = rest @ m1
      \<and> (m1 = [] \<or> \<not> given (fst pv) \<and> sum_list (map (address_weight s) m1) \<le> 2)"
    using land_on_playbook_adds [OF named(1), unfolded w at1] at1(1) unfolding s2_def by (cases "fst pv = li_playbookId s") simp_all
  then obtain m1 where m1: "li_goto s2 = rest @ m1"
    "m1 = [] \<or> \<not> given (fst pv) \<and> sum_list (map (address_weight s) m1) \<le> 2" by blast
  have "\<exists>m2. li_goto s3 = li_goto s2 @ m2
      \<and> (m2 = [] \<or> given (fst pv) \<and> address_weight s pv = 2 \<and> sum_list (map (address_weight s) m2) = 1)"
    using land_on_version_adds [OF named(2), unfolded w d2 prod.collapse]
    unfolding s3_def by (cases "fst pv \<noteq> li_playbookId s \<or> snd pv \<noteq> li_versionId s") simp_all
  then obtain m2 where m2: "li_goto s3 = li_goto s2 @ m2"
    "m2 = [] \<or> given (fst pv) \<and> address_weight s pv = 2 \<and> sum_list (map (address_weight s) m2) = 1" by blast
  have weight: "0 < address_weight s pv" "\<not> given (fst pv) \<Longrightarrow> address_weight s pv = 3"
    by (auto simp: address_weight_def split: option.split)
  have "sum_list (map (address_weight s) (m1 @ m2)) < address_weight s pv"
    using m1(2) m2(2) weight by auto
  then have "address_work s' < address_work s"
    using same_data(1) [of s' s] s' d3 by (simp add: address_work_def m1(1) m2(1) assms(2))
  moreover have "loaded_named s'" using same_data(2) [of s' s] s' d3 assms(1) by simp
  ultimately show ?thesis by simp
qed

lemma arrivals_empty_queue:
  "loaded_named s \<Longrightarrow> \<exists>n\<le>address_work s. \<exists>s'. run_library s (replicate n Arrive) = Some s' \<and> li_goto s' = []"
proof (induction "address_work s" arbitrary: s rule: less_induct)
  case less
  show ?case
  proof (cases "li_goto s")
    case Nil
    then show ?thesis by (intro exI [of _ 0]) simp
  next
    case (Cons pv rest)
    let ?s = "arrive_at pv (s\<lparr>li_goto := rest\<rparr>)"
    have lighter: "address_work ?s < address_work s" "loaded_named ?s"
      using arrive_lighter [OF less.prems Cons refl] by simp_all
    from less.hyps [OF this] obtain n s' where n: "n \<le> address_work ?s"
      "run_library ?s (replicate n Arrive) = Some s'" "li_goto s' = []" by blast
    then show ?thesis using Cons lighter(1)
      by (intro exI [of _ "Suc n"]) simp
  qed
qed

lemma address_work_bound: "address_work s \<le> 3 * length (li_goto s)"
proof -
  have "address_weight s pv \<le> 3" for pv by (auto simp: address_weight_def split: option.split)
  then have "sum_list (map (address_weight s) pvs) \<le> 3 * length pvs" for pvs
    by (induction pvs) (simp_all add: add_mono)
  then show ?thesis by (simp add: address_work_def)
qed

section \<open>Properties\<close>

text \<open>C34. Once every requested address has been taken and the selected playbook is loaded with at
  least one version, the selected version is one of its versions: the screen never rests on a
  version that does not exist, whatever was clicked and in whatever order the loads answered.\<close>
theorem selection_settles:
  assumes "library_reach (initial_library p0 v0) s" "li_goto s = []" "rc_data (li_playbook s) = Some p"
    "given (li_playbookId s)" "pb_versions p \<noteq> []"
  shows "\<exists>v\<in>set (pb_versions p). li_versionId s = Some (vs_id v)"
  using library_landed [OF assms(1)] assms(2-5) by (simp add: landed_def)

theorem selection_settles_witness:
  "\<exists>s. library_reach (initial_library (Some (js ''p'')) None) s \<and> li_versionId s = Some (js ''v'')"
proof -
  let ?v = "\<lparr>vs_id = js ''v'', vs_version = 1, vs_status = Draft, vs_created_at = [], vs_published_at = None\<rparr>"
  let ?p = "\<lparr>pb_id = js ''p'', pb_name = [], pb_description = [], pb_alert_type = [], pb_created_at = [],
     pb_updated_at = [], pb_versions = [?v]\<rparr>"
  let ?evs = "[Playbook_Answer (Inr ?p), Arrive]"
  have "\<exists>s. run_library (initial_library (Some (js ''p'')) None) ?evs = Some s \<and> li_goto s = []
      \<and> rc_data (li_playbook s) = Some ?p \<and> given (li_playbookId s)"
    by (simp add: library_run_defs)
  then obtain s where s: "run_library (initial_library (Some (js ''p'')) None) ?evs = Some s" "li_goto s = []"
    "rc_data (li_playbook s) = Some ?p" "given (li_playbookId s)" by blast
  have reach: "library_reach (initial_library (Some (js ''p'')) None) s"
    by (rule run_library_reach [OF reach.start s(1)]) (simp add: well_named_def)
  from selection_settles [OF reach s(2-4)] reach show ?thesis by auto
qed

text \<open>C35. The effects that rewrite the address never chase each other: from any reachable state,
  whatever addresses are queued, the address bar is at rest after at most three arrivals for each of
  them, when no playbook id on screen is blank.\<close>
theorem address_writes_stop:
  assumes "library_reach (initial_library p0 v0) s"
    "pred_option (list_all (\<lambda>p. pb_id p \<noteq> [])) (rc_data (li_playbooks s))"
  shows "\<exists>n\<le>3 * length (li_goto s). \<exists>s'. run_library s (replicate n Arrive) = Some s' \<and> li_goto s' = []"
proof -
  have "loaded_named s"
    using library_landed [OF assms(1)] assms(2) by (simp add: loaded_named_def landed_def pred_option_def)
  from arrivals_empty_queue [OF this] address_work_bound [of s] show ?thesis by (meson le_trans)
qed

theorem address_writes_stop_witness:
  "\<exists>s n s'. library_reach (initial_library None None) s \<and> li_goto s \<noteq> []
     \<and> run_library s (replicate n Arrive) = Some s' \<and> li_goto s' = []"
proof -
  let ?pb = "\<lparr>pb_id = js ''a'', pb_name = [], pb_description = [], pb_alert_type = [], pb_created_at = [], pb_updated_at = []\<rparr>"
  have "\<exists>s. run_library (initial_library None None) [Playbooks_Answer (Inr [?pb])] = Some s \<and> li_goto s \<noteq> []
      \<and> pred_option (list_all (\<lambda>p. pb_id p \<noteq> [])) (rc_data (li_playbooks s))"
    by (simp add: library_run_defs)
  then obtain s where s: "run_library (initial_library None None) [Playbooks_Answer (Inr [?pb])] = Some s"
    "li_goto s \<noteq> []" "pred_option (list_all (\<lambda>p. pb_id p \<noteq> [])) (rc_data (li_playbooks s))" by blast
  have reach: "library_reach (initial_library None None) s"
    by (rule run_library_reach [OF reach.start s(1)]) (simp add: well_named_def)
  from address_writes_stop [OF reach s(3)] reach s(2) show ?thesis by blast
qed

text \<open>The selection survives the address bar: what the screen reads from the address a selection
  wrote is that selection, whatever characters its ids hold (short of a lone surrogate), whether
  both ids are there, one, or none.\<close>
theorem selection_reads_back:
  assumes "pred_option well_formed p" "pred_option well_formed v"
  shows "\<exists>params. address_params (library_href (p, v)) = Some params
    \<and> map_of params (js ''playbook'') = p \<and> map_of params (js ''version'') = v"
proof -
  have names: "well_formed (js ''playbook'')" "well_formed (js ''version'')"
    by (simp_all add: well_formed_plain js_simps unreserved_def)
  have "list_all (\<lambda>(k, v). well_formed k \<and> well_formed v) (selection_params (p, v))"
    using assms names by (auto simp: selection_params_def js_simps split: option.split)
  then have "address_params (library_href (p, v)) = Some (selection_params (p, v))"
    unfolding library_href_def by (intro address_params_href) (simp_all add: js_simps)
  then show ?thesis by (auto simp: selection_params_def js_simps split: option.split)
qed

theorem selection_reads_back_witness:
  "\<exists>params. address_params (library_href (Some (js ''a b&c''), None)) = Some params
    \<and> map_of params (js ''playbook'') = Some (js ''a b&c'') \<and> map_of params (js ''version'') = None"
  by (rule selection_reads_back) (simp_all add: well_formed_def js_simps is_high_def is_low_def)

text \<open>The version a playbook opens on is its newest published one, and only a playbook with none
  published opens on its newest draft; a playbook with any version opens on one.\<close>
theorem lands_on_newest_published:
  "case landing_version vs of
     None \<Rightarrow> vs = []
   | Some v \<Rightarrow> v \<in> set vs
       \<and> (if \<exists>w\<in>set vs. vs_status w = Published
          then vs_status v = Published \<and> (\<forall>w\<in>set vs. vs_status w = Published \<longrightarrow> vs_version w \<le> vs_version v)
          else \<forall>w\<in>set vs. vs_version w \<le> vs_version v)"
  using landing_None [of vs] landing_cases [of vs] by (auto split: option.split)

theorem lands_on_newest_published_witness:
  "\<exists>v. landing_version [\<lparr>vs_id = [], vs_version = 2, vs_status = Draft, vs_created_at = [], vs_published_at = None\<rparr>,
               \<lparr>vs_id = [], vs_version = 1, vs_status = Published, vs_created_at = [], vs_published_at = None\<rparr>] = Some v
     \<and> vs_status v = Published"
  using lands_on_newest_published
    [of "[\<lparr>vs_id = [], vs_version = 2, vs_status = Draft, vs_created_at = [], vs_published_at = None\<rparr>,
          \<lparr>vs_id = [], vs_version = 1, vs_status = Published, vs_created_at = [], vs_published_at = None\<rparr>]"]
  by (auto split: option.splits)

text \<open>Two answers that come late leave the screen at odds with its own selection: choosing
  another playbook while its versions are still the previous one's lands on a version of the
  previous playbook, and a publication that answers after another version was opened puts the
  published version on the screen in its place.\<close>
theorem late_answers_contradict_selection:
  "\<exists>s a b. library_reach (initial_library (Some (js ''a'')) None) s \<and> li_goto s = []
     \<and> li_playbookId s = Some b \<and> b \<noteq> pb_id a \<and> rc_data (li_playbook s) = Some a
     \<and> (\<exists>v\<in>set (pb_versions a). li_versionId s = Some (vs_id v))
   \<and> (\<exists>t v. library_reach (initial_library (Some (js ''a'')) (Some (js ''a1''))) t \<and> li_goto t = []
       \<and> \<not> rc_loading (li_version t) \<and> rc_data (li_version t) = Some v \<and> li_versionId t \<noteq> Some (v_id v))"
proof -
  let ?pb = "\<lambda>i. \<lparr>pb_id = i, pb_name = [], pb_description = [], pb_alert_type = [], pb_created_at = [], pb_updated_at = []\<rparr>"
  let ?vs = "\<lambda>i. \<lparr>vs_id = i, vs_version = 1, vs_status = Draft, vs_created_at = [], vs_published_at = None\<rparr>"
  let ?a = "\<lparr>pb_id = js ''a'', pb_name = [], pb_description = [], pb_alert_type = [], pb_created_at = [],
     pb_updated_at = [], pb_versions = [?vs (js ''a1''), ?vs (js ''a2'')]\<rparr>"
  let ?def = "\<lambda>i st. \<lparr>g_root = None, g_nodes = [], g_edges = [], v_id = i, v_playbook_id = js ''a'', v_version = 1,
     v_status = st, v_created_at = [], v_published_at = None\<rparr>"
  let ?first = "[Playbooks_Answer (Inr [?pb (js ''a''), ?pb (js ''b'')]), Playbook_Answer (Inr ?a), Arrive,
     Click_Playbook (js ''b''), Arrive, Arrive, Playbook_Answer (Inl (Other_Failure []))]"
  let ?second = "[Playbook_Answer (Inr ?a), Version_Answer (Inr (?def (js ''a1'') Draft)), Press_Publish,
     Click_Version (js ''a2''), Arrive, Version_Answer (Inr (?def (js ''a2'') Draft)),
     Publish_Answer (Inr (?def (js ''a1'') Published))]"
  have "\<exists>s. run_library (initial_library (Some (js ''a'')) None) ?first = Some s \<and> li_goto s = []
      \<and> li_playbookId s = Some (js ''b'') \<and> rc_data (li_playbook s) = Some ?a \<and> li_versionId s = Some (js ''a1'')"
    by (simp add: library_run_defs)
  then obtain s where s: "run_library (initial_library (Some (js ''a'')) None) ?first = Some s" "li_goto s = []"
      "li_playbookId s = Some (js ''b'')" "rc_data (li_playbook s) = Some ?a" "li_versionId s = Some (js ''a1'')"
    by blast
  have "\<exists>t. run_library (initial_library (Some (js ''a'')) (Some (js ''a1''))) ?second = Some t \<and> li_goto t = []
      \<and> \<not> rc_loading (li_version t) \<and> rc_data (li_version t) = Some (?def (js ''a1'') Published)
      \<and> li_versionId t = Some (js ''a2'')"
    by (simp add: library_run_defs)
  then obtain t where t: "run_library (initial_library (Some (js ''a'')) (Some (js ''a1''))) ?second = Some t" "li_goto t = []"
      "\<not> rc_loading (li_version t)" "rc_data (li_version t) = Some (?def (js ''a1'') Published)"
      "li_versionId t = Some (js ''a2'')"
    by blast
  have "library_reach (initial_library (Some (js ''a'')) None) s"
    by (rule run_library_reach [OF reach.start s(1)]) (simp add: well_named_def)
  moreover have "library_reach (initial_library (Some (js ''a'')) (Some (js ''a1''))) t"
    by (rule run_library_reach [OF reach.start t(1)]) (simp add: well_named_def)
  moreover have "js ''b'' \<noteq> pb_id ?a" "\<exists>v\<in>set (pb_versions ?a). li_versionId s = Some (vs_id v)"
    "li_versionId t \<noteq> Some (v_id (?def (js ''a1'') Published))"
    using s(5) t(5) by simp_all
  ultimately show ?thesis using s(2-4) t(2-4) by blast
qed

end
