(* ===== verification/Report.thy ===== *)
theory Report
  imports Drawing Resource
begin

text \<open>
  What a finished and a running investigation show: \<open>InvestigationReportScreen.tsx\<close>,
  \<open>InvestigationRunner.tsx\<close>, \<open>InvestigationOutcome.tsx\<close> and \<open>EvidenceList.tsx\<close>. Each screen is a
  function of its resources' data; \<open>shown\<close> formats an instant, \<open>spent\<close> a pair of them (the
  helpers of Format on the host's clock) and \<open>layout\<close> is the layout of a graph.
\<close>

section \<open>Pieces\<close>

text \<open>An evidence item: type, summary and its data when it has any.\<close>
definition evidence_view :: "evidence_item list \<Rightarrow> (jstring \<times> jstring \<times> jstring option) list" where
  "evidence_view evidence =
     map (\<lambda>item. (ei_type item, ei_summary item,
        case ei_data item of None \<Rightarrow> None | Some kvs \<Rightarrow> if kvs = [] then None else Some (prettyJson (JObj kvs)))) evidence"

definition plural :: "int \<Rightarrow> jstring \<Rightarrow> jstring \<Rightarrow> jstring" where
  "plural amount singular many = number_text (Fin amount) @ js '' '' @ (if amount = 1 then singular else many)"

record alert_view =
  aw_title :: jstring
  aw_type :: jstring
  aw_external_id :: jstring
  aw_occurred :: jstring
  aw_description :: "jstring option"
  aw_payload :: jstring

definition alert_view :: "(jstring option \<Rightarrow> jstring) \<Rightarrow> alert \<Rightarrow> alert_view" where
  "alert_view shown a =
     \<lparr>aw_title = al_title a, aw_type = al_alert_type a, aw_external_id = or_else (al_external_id a) em_dash,
      aw_occurred = shown (Some (al_occurred_at a)), aw_description = null_if_blank (al_description a),
      aw_payload = prettyJson (JObj (al_payload a))\<rparr>"

text \<open>A resolution token and its reading, when there is one.\<close>
definition resolution_view :: "jstring option \<Rightarrow> (jstring \<times> jstring) option" where
  "resolution_view r =
     (case r of None \<Rightarrow> None | Some t \<Rightarrow> if t = [] then None else Some (t, humanizeToken t))"

section \<open>The report\<close>

definition report_overlay :: "investigation_report \<Rightarrow> path_overlay" where
  "report_overlay report =
     buildPathOverlay (rp_path report) (g_edges (rp_playbook_version report))
       (if rs_status (rp_investigation report) = Completed then g_root (rp_playbook_version report) else None)"

record timeline_row =
  tl_number :: int
  tl_question :: jstring
  tl_choice :: jstring
  tl_destination :: "jstring option"
  tl_actor :: jstring
  tl_actor_id :: jstring
  tl_at :: jstring
  tl_rationale :: "jstring option"
  tl_evidence :: "(jstring \<times> jstring \<times> jstring option) list"
  tl_ids :: "uuid \<times> uuid"

text \<open>A node that is not in the version is named by its id, shortened.\<close>
definition timeline_row :: "(jstring option \<Rightarrow> jstring) \<Rightarrow> version_definition \<Rightarrow> path_step \<Rightarrow> timeline_row" where
  "timeline_row shown version entry =
     (let node = indexNodes version (ps_node_id entry);
          edge = indexEdges version (ps_selected_edge_id entry);
          destination = (case edge of None \<Rightarrow> None | Some e \<Rightarrow> indexNodes version (pe_to e))
      in \<lparr>tl_number = ps_step_number entry,
          tl_question = (case node of None \<Rightarrow> shortId (Some (ps_node_id entry)) | Some n \<Rightarrow> pn_title n),
          tl_choice = (case edge of None \<Rightarrow> js ''edge'' | Some e \<Rightarrow> pe_label e),
          tl_destination = map_option pn_title destination,
          tl_actor = actor_type_text (ac_type (ps_actor entry)),
          tl_actor_id = or_else (ac_id (ps_actor entry)) (js ''unattributed''),
          tl_at = shown (Some (ps_created_at entry)),
          tl_rationale = (case ps_rationale entry of None \<Rightarrow> None | Some r \<Rightarrow> null_if_blank r),
          tl_evidence = evidence_view (ps_evidence entry),
          tl_ids = (ps_node_id entry, ps_selected_edge_id entry)\<rparr>)"

definition timeline :: "(jstring option \<Rightarrow> jstring) \<Rightarrow> investigation_report \<Rightarrow> timeline_row list" where
  "timeline shown report =
     map (timeline_row shown (rp_playbook_version report)) (sort_by step_order (rp_path report))"

definition final_node :: "investigation_report \<Rightarrow> playbook_node option" where
  "final_node report =
     (case po_finalNodeId (report_overlay report) of
        None \<Rightarrow> None
      | Some n \<Rightarrow> if n = [] then None else indexNodes (rp_playbook_version report) n)"

text \<open>The counts of the legend: edges selected, nodes on the path, branches not taken.\<close>
definition legend_counts :: "investigation_report \<Rightarrow> int \<times> int \<times> int" where
  "legend_counts report =
     (let overlay = report_overlay report; selected = int (card (po_selectedEdgeIds overlay))
      in (selected, int (length (po_visitedNodeIds overlay)),
          int (length (g_edges (rp_playbook_version report))) - selected))"

definition legend :: "investigation_report \<Rightarrow> jstring list" where
  "legend report =
     (case legend_counts report of (selected, visited, untaken) \<Rightarrow>
        [plural selected (js ''edge'') (js ''edges'') @ js '' selected, numbered in order'',
         plural visited (js ''node'') (js ''nodes'') @ js '' on the path'',
         js ''Where it ended'',
         plural untaken (js ''branch'') (js ''branches'') @ js '' not taken''])"

record summary_view =
  su_status :: jstring
  su_id :: uuid
  su_runner_href :: jstring
  su_alert :: alert_view
  su_started :: jstring
  su_completed :: jstring
  su_elapsed :: jstring
  su_steps :: nat
  su_tone :: tone
  su_resolution :: "(jstring \<times> jstring) option"

definition summary_view ::
  "(jstring option \<Rightarrow> jstring) \<Rightarrow> (jstring \<Rightarrow> jstring option \<Rightarrow> jstring option) \<Rightarrow> investigation_report \<Rightarrow> summary_view"
where
  "summary_view shown spent report =
     (let i = rp_investigation report
      in \<lparr>su_status = investigation_chip (rs_status i), su_id = rs_id i,
          su_runner_href = js ''/investigations/'' @ rs_id i,
          su_alert = alert_view shown (rp_alert report),
          su_started = shown (Some (rs_started_at i)), su_completed = shown (rs_completed_at i),
          su_elapsed = or_else (spent (rs_started_at i) (rs_completed_at i)) em_dash,
          su_steps = length (rp_path report),
          su_tone = resolutionTone (rs_final_resolution i),
          su_resolution = resolution_view (rs_final_resolution i)\<rparr>)"

record report_page =
  rg_summary :: summary_view
  rg_title :: jstring
  rg_library_href :: jstring
  rg_drawing :: "(flow_node list \<times> flow_edge list) option"
  rg_legend :: "jstring list"
  rg_timeline_title :: jstring
  rg_timeline :: "timeline_row list"
  rg_final :: "(jstring \<times> (jstring \<times> jstring) option \<times> jstring option) option"
  rg_alert :: alert_view
  rg_provenance :: "jstring list"

definition report_page ::
  "(playbook_node list \<Rightarrow> playbook_edge list \<Rightarrow> graph_layout) \<Rightarrow> (jstring option \<Rightarrow> jstring)
     \<Rightarrow> (jstring \<Rightarrow> jstring option \<Rightarrow> jstring option) \<Rightarrow> investigation_report \<Rightarrow> report_page"
where
  "report_page layout shown spent report =
     (let version = rp_playbook_version report; path = rp_path report
      in \<lparr>rg_summary = summary_view shown spent report,
          rg_title = js ''Playbook version '' @ number_text (Fin (v_version version)) @ js '' ''
            @ em_dash @ js '' with the path taken'',
          rg_library_href = js ''/playbooks?playbook='' @ v_playbook_id version @ js ''&version='' @ v_id version,
          rg_drawing = playbook_graph layout (g_nodes version) (g_edges version) (g_root version)
            (Some (report_overlay report)) False None,
          rg_legend = legend report,
          rg_timeline_title =
            (if path = [] then js ''No decisions were recorded''
             else nat_text (length path) @ js '' decision'' @ (if length path = 1 then [] else js ''s'')
               @ js '', in the order they were made''),
          rg_timeline = timeline shown report,
          rg_final = map_option (\<lambda>n. (pn_title n, resolution_view (pn_terminal_resolution n),
                                      null_if_blank (pn_description n))) (final_node report),
          rg_alert = alert_view shown (rp_alert report),
          rg_provenance = [rs_id (rp_investigation report), v_id version, status_text (v_status version),
                           shown (v_published_at version)]\<rparr>)"

datatype 'a shown_screen = Screen_Loading | Screen_Failed thrown | Screen_Empty | Screen_Page 'a

definition report_screen :: "(investigation_report \<Rightarrow> 'a) \<Rightarrow> investigation_report resource \<Rightarrow> 'a shown_screen" where
  "report_screen page r =
     (if rc_loading r \<and> rc_data r = None then Screen_Loading
      else case rc_error r of
        Some err \<Rightarrow> Screen_Failed err
      | None \<Rightarrow> (case rc_data r of None \<Rightarrow> Screen_Empty | Some report \<Rightarrow> Screen_Page (page report)))"

section \<open>The running investigation\<close>

definition pad2 :: "jstring \<Rightarrow> jstring" where
  "pad2 s = replicate (2 - length s) 48 @ s"

record history_row =
  hy_number :: jstring
  hy_actor :: jstring
  hy_actor_id :: jstring
  hy_at :: jstring
  hy_rationale :: "jstring option"
  hy_evidence :: "(jstring \<times> jstring \<times> jstring option) list"
  hy_ids :: "uuid \<times> uuid"

definition history_row :: "(jstring option \<Rightarrow> jstring) \<Rightarrow> investigation_step \<Rightarrow> history_row" where
  "history_row shown entry =
     \<lparr>hy_number = pad2 (number_text (Fin (is_sequence_number entry))),
      hy_actor = actor_type_text (ac_type (is_actor entry)),
      hy_actor_id = or_else (ac_id (is_actor entry)) (js ''unattributed''),
      hy_at = shown (Some (is_created_at entry)),
      hy_rationale = (case is_rationale entry of None \<Rightarrow> None | Some r \<Rightarrow> null_if_blank r),
      hy_evidence = evidence_view (is_evidence entry),
      hy_ids = (take 8 (is_node_id entry) @ ellipsis, take 8 (is_selected_edge_id entry) @ ellipsis)\<rparr>"

definition history_title :: "investigation_state \<Rightarrow> jstring" where
  "history_title state =
     (if iv_steps state = [] then js ''No decisions yet''
      else nat_text (length (iv_steps state)) @ js '' decision''
        @ (if length (iv_steps state) = 1 then [] else js ''s'') @ js '' recorded'')"

record header_view =
  hd_id :: uuid
  hd_status :: jstring
  hd_report_href :: "jstring option"
  hd_started :: jstring
  hd_completed :: jstring
  hd_decisions :: nat
  hd_version :: jstring

definition header_view :: "(jstring option \<Rightarrow> jstring) \<Rightarrow> investigation_state \<Rightarrow> header_view" where
  "header_view shown state =
     \<lparr>hd_id = iv_id state, hd_status = investigation_chip (iv_status state),
      hd_report_href = (if iv_status state = Completed
        then Some (js ''/investigations/'' @ iv_id state @ js ''/report'') else None),
      hd_started = shown (Some (iv_started_at state)), hd_completed = shown (iv_completed_at state),
      hd_decisions = length (iv_steps state), hd_version = shortId (Some (iv_playbook_version_id state))\<rparr>"

record outcome_view =
  oc_tone :: tone
  oc_elapsed :: "jstring option"
  oc_resolution :: jstring
  oc_reading :: "jstring option"
  oc_node :: "(jstring \<times> jstring option) option"
  oc_completed :: jstring
  oc_report_href :: jstring

definition outcome_view ::
  "(jstring option \<Rightarrow> jstring) \<Rightarrow> (jstring \<Rightarrow> jstring option \<Rightarrow> jstring option)
     \<Rightarrow> uuid \<Rightarrow> jstring option \<Rightarrow> playbook_node option \<Rightarrow> jstring \<Rightarrow> jstring option \<Rightarrow> outcome_view"
where
  "outcome_view shown spent investigationId finalResolution terminalNode startedAt completedAt =
     \<lparr>oc_tone = resolutionTone finalResolution,
      oc_elapsed = (case completedAt of None \<Rightarrow> None | Some c \<Rightarrow> if c = [] then None else spent startedAt completedAt),
      oc_resolution = or_else finalResolution em_dash,
      oc_reading = map_option snd (resolution_view finalResolution),
      oc_node = map_option (\<lambda>n. (pn_title n, null_if_blank (pn_description n))) terminalNode,
      oc_completed = shown completedAt,
      oc_report_href = js ''/investigations/'' @ investigationId @ js ''/report''\<rparr>"

record question_view =
  qu_eyebrow :: jstring
  qu_title :: jstring
  qu_description :: "jstring option"
  qu_hints :: "jstring option"
  qu_choices :: "available_choice list"

definition question_view :: "investigation_state \<Rightarrow> question_view" where
  "question_view state =
     (let node = iv_current_node state
      in \<lparr>qu_eyebrow = js ''Current decision node '' @ [0xB7] @ js '' '' @ take 8 (pn_id node) @ ellipsis,
          qu_title = pn_title node, qu_description = null_if_blank (pn_description node),
          qu_hints = (case pn_metadata node of None \<Rightarrow> None
                      | Some kvs \<Rightarrow> if kvs = [] then None else Some (prettyJson (JObj kvs))),
          qu_choices = iv_available_choices state\<rparr>)"

definition runner_overlay :: "investigation_state \<Rightarrow> version_definition option \<Rightarrow> path_overlay option" where
  "runner_overlay state version =
     map_option (\<lambda>v. buildOverlayFromSteps (iv_steps state) (g_edges v) (Some (pn_id (iv_current_node state)))) version"

datatype primary = Outcome outcome_view | Question question_view

record runner_page =
  rn_header :: header_view
  rn_primary :: primary
  rn_history_title :: jstring
  rn_history :: "history_row list"
  rn_alert :: alert_view
  rn_version_title :: jstring
  rn_version_error :: "thrown option"
  rn_drawing :: "(flow_node list \<times> flow_edge list) option option"

definition runner_page ::
  "(playbook_node list \<Rightarrow> playbook_edge list \<Rightarrow> graph_layout) \<Rightarrow> (jstring option \<Rightarrow> jstring)
     \<Rightarrow> (jstring \<Rightarrow> jstring option \<Rightarrow> jstring option) \<Rightarrow> version_definition resource \<Rightarrow> investigation_state \<Rightarrow> runner_page"
where
  "runner_page layout shown spent version state =
     (let completed = (iv_status state = Completed)
      in \<lparr>rn_header = header_view shown state,
          rn_primary =
            (if completed
             then Outcome (outcome_view shown spent (iv_id state) (iv_final_resolution state)
                    (Some (iv_current_node state)) (iv_started_at state) (iv_completed_at state))
             else Question (question_view state)),
          rn_history_title = history_title state,
          rn_history = map (history_row shown) (iv_steps state),
          rn_alert = alert_view shown (iv_alert state),
          rn_version_title = (case rc_data version of None \<Rightarrow> js ''Loading'' @ ellipsis
                              | Some v \<Rightarrow> js ''Version '' @ number_text (Fin (v_version v))),
          rn_version_error = rc_error version,
          rn_drawing = map_option (\<lambda>v. playbook_graph layout (g_nodes v) (g_edges v) (g_root v)
                         (runner_overlay state (Some v)) False None) (rc_data version)\<rparr>)"

definition runner_screen :: "(investigation_state \<Rightarrow> 'a) \<Rightarrow> investigation_state resource \<Rightarrow> 'a shown_screen" where
  "runner_screen page r =
     (case rc_data r of
        Some state \<Rightarrow> Screen_Page (page state)
      | None \<Rightarrow>
          if rc_loading r then Screen_Loading
          else (case rc_error r of Some err \<Rightarrow> Screen_Failed err | None \<Rightarrow> Screen_Empty))"

section \<open>A report of a stored version\<close>

text \<open>What the write-time rules give of a version's graph: ids without repeats, edges and root on
  its own nodes, none of them blank.\<close>
definition version_ok :: "version_definition \<Rightarrow> bool" where
  "version_ok v \<longleftrightarrow>
     distinct (map pn_id (g_nodes v)) \<and> distinct (map pe_id (g_edges v))
     \<and> (\<forall>e\<in>set (g_edges v). pe_from e \<in> pn_id ` set (g_nodes v) \<and> pe_to e \<in> pn_id ` set (g_nodes v) \<and> pe_to e \<noteq> [])
     \<and> (\<forall>r. g_root v = Some r \<longrightarrow> r \<in> pn_id ` set (g_nodes v))"

definition path_in :: "version_definition \<Rightarrow> path_step list \<Rightarrow> bool" where
  "path_in v path \<longleftrightarrow>
     (\<forall>s\<in>set path. ps_node_id s \<in> pn_id ` set (g_nodes v) \<and> ps_selected_edge_id s \<in> pe_id ` set (g_edges v))"

lemma index_by:
  assumes "distinct (map k xs)" "x \<in> set xs"
  shows "map_of (rev (map (\<lambda>x. (k x, x)) xs)) (k x) = Some x"
proof (rule map_of_is_SomeI)
  show "distinct (map fst (rev (map (\<lambda>x. (k x, x)) xs)))"
    using assms(1) by (simp add: rev_map comp_def flip: rev_map)
  show "(k x, x) \<in> set (rev (map (\<lambda>x. (k x, x)) xs))" using assms(2) by simp
qed

lemma index_nodes: "distinct (map pn_id (g_nodes v)) \<Longrightarrow> n \<in> set (g_nodes v) \<Longrightarrow> indexNodes v (pn_id n) = Some n"
  by (simp add: indexNodes_def index_by)

lemma index_edges: "distinct (map pe_id (g_edges v)) \<Longrightarrow> e \<in> set (g_edges v) \<Longrightarrow> indexEdges v (pe_id e) = Some e"
  by (simp add: indexEdges_def index_by)

lemma count_by_key:
  assumes "distinct (map k xs)" "S \<subseteq> k ` set xs"
  shows "length (filter (\<lambda>x. k x \<in> S) xs) = card S"
proof -
  have "length (filter (\<lambda>x. k x \<in> S) xs) = length (filter (\<lambda>y. y \<in> S) (map k xs))"
    by (simp add: filter_map comp_def)
  also have "\<dots> = card ({y. y \<in> S} \<inter> set (map k xs))"
    by (rule distinct_length_filter [OF assms(1)])
  also have "{y. y \<in> S} \<inter> set (map k xs) = S" using assms(2) by auto
  finally show ?thesis .
qed

lemma landing_edge:
  "landing path edges = Some c \<Longrightarrow> \<exists>e\<in>set edges. pe_to e = c"
  by (auto simp: landing_def split: if_splits dest!: find_SomeD)

lemma overlay_within:
  assumes "version_ok v" "path_in v path" "\<And>x. r = Some x \<Longrightarrow> g_root v = Some x"
  shows "po_visited (buildPathOverlay path (g_edges v) r) \<subseteq> pn_id ` set (g_nodes v)
    \<and> po_selectedEdgeIds (buildPathOverlay path (g_edges v) r) \<subseteq> pe_id ` set (g_edges v)"
proof (cases "path = []")
  case True
  then show ?thesis
    using assms(1,3) by (auto simp: buildPathOverlay_def emptyOverlay_def version_ok_def split: option.splits)
next
  case False
  have "landing path (g_edges v) = Some c \<Longrightarrow> c \<in> pn_id ` set (g_nodes v)" for c
    using landing_edge [of path "g_edges v" c] assms(1) by (auto simp: version_ok_def)
  with False assms(2) show ?thesis
    by (auto simp: buildPathOverlay_closed path_in_def split: option.splits)
qed

lemma report_overlay_within:
  assumes "version_ok (rp_playbook_version report)" "path_in (rp_playbook_version report) (rp_path report)"
  shows "po_visited (report_overlay report) \<subseteq> pn_id ` set (g_nodes (rp_playbook_version report))
    \<and> po_selectedEdgeIds (report_overlay report) \<subseteq> pe_id ` set (g_edges (rp_playbook_version report))"
  unfolding report_overlay_def by (rule overlay_within [OF assms]) (simp split: if_splits)

section \<open>The timeline\<close>

lemma row_destination:
  assumes "version_ok v" "e \<in> set (g_edges v)" "pe_id e = ps_selected_edge_id s"
  shows "tl_destination (timeline_row shown v s) = map_option pn_title (indexNodes v (pe_to e))
    \<and> tl_choice (timeline_row shown v s) = pe_label e"
  using index_edges [OF _ assms(2)] assms(1,3) by (simp add: timeline_row_def version_ok_def Let_def)

lemma indexed_to:
  assumes "version_ok v" "e \<in> set (g_edges v)"
  shows "\<exists>n. indexNodes v (pe_to e) = Some n"
  using assms index_nodes by (fastforce simp: version_ok_def)

lemma rows_connected:
  assumes "version_ok v" "follows (g_edges v) ps" "Suc i < length ps"
  shows "tl_destination (timeline_row shown v (ps ! i)) = Some (tl_question (timeline_row shown v (ps ! Suc i)))"
  using assms(2,3)
proof (induction ps arbitrary: i rule: induct_list012)
  case (3 s t r)
  show ?case
  proof (cases i)
    case 0
    from "3.prems"(1) obtain e where e: "e \<in> set (g_edges v)" "pe_id e = ps_selected_edge_id s" "pe_to e = ps_node_id t"
      by auto
    from indexed_to [OF assms(1) e(1)] obtain n where "indexNodes v (pe_to e) = Some n" ..
    with row_destination [OF assms(1) e(1,2), of shown] e(3) 0 show ?thesis
      by (simp add: timeline_row_def Let_def)
  next
    case (Suc j)
    with "3.IH"(2) [of j] "3.prems" show ?thesis by simp
  qed
qed simp_all

lemma follows_last:
  "follows edges ps \<Longrightarrow> ps \<noteq> [] \<Longrightarrow> \<exists>e\<in>set edges. pe_id e = ps_selected_edge_id (last ps)"
  by (induction ps rule: induct_list012) auto

lemma final_connected:
  assumes "version_ok (rp_playbook_version report)" "rp_path report \<noteq> []"
    "follows (g_edges (rp_playbook_version report)) (ordered_steps (rp_path report))"
  shows "\<exists>n. final_node report = Some n
    \<and> tl_destination (timeline_row shown (rp_playbook_version report) (last (ordered_steps (rp_path report)))) = Some (pn_title n)"
proof -
  let ?v = "rp_playbook_version report"
  have ne: "ordered_steps (rp_path report) \<noteq> []" using assms(2) by (simp add: ordered_steps_def)
  from follows_last [OF assms(3) ne] obtain e where e: "e \<in> set (g_edges ?v)"
    "pe_id e = ps_selected_edge_id (last (ordered_steps (rp_path report)))" by blast
  have "find_first (\<lambda>x. pe_id x = pe_id e) (g_edges ?v) = Some e"
    using assms(1) e(1) by (intro edge_by_id) (simp_all add: version_ok_def)
  with e(2) assms(2) have "landing (rp_path report) (g_edges ?v) = Some (pe_to e)" by (simp add: landing_def)
  then have final: "po_finalNodeId (report_overlay report) = Some (pe_to e)"
    using assms(2) by (simp add: report_overlay_def buildPathOverlay_closed)
  from indexed_to [OF assms(1) e(1)] obtain n where n: "indexNodes ?v (pe_to e) = Some n" ..
  have "pe_to e \<noteq> []" using assms(1) e(1) by (simp add: version_ok_def)
  with final n have "final_node report = Some n" by (simp add: final_node_def)
  with row_destination [OF assms(1) e] n show ?thesis by simp
qed

section \<open>Properties\<close>

definition sample_report :: investigation_report where
  "sample_report =
     \<lparr>rp_investigation = \<lparr>rs_id = js ''i'', rs_status = Completed, rs_final_resolution = None, rs_started_at = [],
        rs_completed_at = None\<rparr>,
      rp_alert = \<lparr>al_id = [], al_external_id = None, al_alert_type = [], al_title = [], al_description = [],
        al_payload = [], al_occurred_at = [], al_created_at = []\<rparr>,
      rp_playbook_version = \<lparr>g_root = Some (js ''a''),
        g_nodes = map (\<lambda>i. \<lparr>pn_id = js i, pn_kind = Decision, pn_title = js i, pn_description = [],
          pn_terminal_resolution = None, pn_metadata = None\<rparr>) [''a'', ''b'', ''c''],
        g_edges = sample_edges, v_id = [], v_playbook_id = [], v_version = 1, v_status = Published,
        v_created_at = [], v_published_at = None\<rparr>,
      rp_path = sample_path\<rparr>"

lemma sample_report_ok:
  "version_ok (rp_playbook_version sample_report)"
  "path_in (rp_playbook_version sample_report) (rp_path sample_report)"
  "follows (g_edges (rp_playbook_version sample_report)) (ordered_steps (rp_path sample_report))"
  "rp_path sample_report \<noteq> []"
  by (simp_all add: sample_report_def version_ok_def path_in_def sample_edges_def sample_edge_def
      sample_path_ordered sample_step_def) (simp_all add: sample_path_def sample_step_def)

text \<open>The legend counts what the drawing shows: as many edges selected, nodes on the path and
  branches not taken as there are edges drawn selected, nodes drawn visited and edges drawn
  plain, for every path recorded on the version.\<close>
theorem legend_counts_drawing:
  assumes "version_ok (rp_playbook_version report)" "path_in (rp_playbook_version report) (rp_path report)"
    "rg_drawing (report_page layout shown spent report) = Some (ns, es)"
  shows "legend_counts report =
    (int (length (filter (\<lambda>e. ge_isSelected (fe_data e)) es)),
     int (length (filter (\<lambda>n. gn_isVisited (fn_data n)) ns)),
     int (length (filter (\<lambda>e. \<not> ge_isSelected (fe_data e)) es)))"
proof -
  let ?v = "rp_playbook_version report" and ?ov = "report_overlay report"
  note within = report_overlay_within [OF assms(1,2)]
  have ok: "overlay_ok ?ov" unfolding report_overlay_def by (rule overlay_ok_path)
  from assms(3) have ns: "map (\<lambda>n. gn_isVisited (fn_data n)) ns = map (\<lambda>n. pn_id n \<in> po_visited ?ov) (g_nodes ?v)"
    and es: "map (\<lambda>e. ge_isSelected (fe_data e)) es = map (\<lambda>e. pe_id e \<in> po_selectedEdgeIds ?ov) (g_edges ?v)"
    by (auto simp: report_page_def Let_def playbook_graph_def visited_in_def selected_in_def split: if_splits)
  have same: "map f xs = map g ys \<Longrightarrow> length (filter f xs) = length (filter g ys)" for f :: "'x \<Rightarrow> bool" and g :: "'y \<Rightarrow> bool" and xs ys
    by (metis (no_types, lifting) filter_map length_map comp_id id_comp list.map_id map_map o_apply filter_cong)
  have sel: "length (filter (\<lambda>e. ge_isSelected (fe_data e)) es) = card (po_selectedEdgeIds ?ov)"
    using same [OF es] count_by_key [of pe_id "g_edges ?v"] within assms(1) by (simp add: version_ok_def)
  have "length (filter (\<lambda>n. gn_isVisited (fn_data n)) ns) = card (po_visited ?ov)"
    using same [OF ns] count_by_key [of pn_id "g_nodes ?v"] within assms(1) by (simp add: version_ok_def)
  moreover have "card (po_visited ?ov) = length (po_visitedNodeIds ?ov)"
    using ok unfolding overlay_ok_def by (metis distinct_card)
  moreover have "length es = length (g_edges ?v)" using es by (metis length_map)
  moreover have "length (filter (\<lambda>e. ge_isSelected (fe_data e)) es)
      + length (filter (\<lambda>e. \<not> ge_isSelected (fe_data e)) es) = length es"
    by (rule sum_length_filter_compl)
  ultimately show ?thesis using sel by (simp add: legend_counts_def Let_def)
qed

theorem legend_counts_drawing_witness:
  "\<exists>ns es. rg_drawing (report_page (\<lambda>_ _. \<lparr>gl_nodes = Map.empty, gl_width = 0, gl_height = 0\<rparr>) (\<lambda>_. [])
       (\<lambda>_ _. None) sample_report) = Some (ns, es)
     \<and> legend_counts sample_report =
        (int (length (filter (\<lambda>e. ge_isSelected (fe_data e)) es)),
         int (length (filter (\<lambda>n. gn_isVisited (fn_data n)) ns)),
         int (length (filter (\<lambda>e. \<not> ge_isSelected (fe_data e)) es)))"
proof -
  let ?page = "report_page (\<lambda>_ _. \<lparr>gl_nodes = Map.empty, gl_width = 0, gl_height = 0\<rparr>) (\<lambda>_. [])
       (\<lambda>_ _. None) sample_report"
  have "rg_drawing ?page \<noteq> None"
    by (simp add: report_page_def Let_def playbook_graph_def sample_report_def)
  then obtain ns es where "rg_drawing ?page = Some (ns, es)" by auto
  from legend_counts_drawing [OF sample_report_ok(1,2) this] this show ?thesis by blast
qed

text \<open>C28. The audit timeline is the route the investigation took. The report lists, in any order, what the
  server recorded of the decisions. Then the timeline has one row per decision, in the order the
  decisions were taken, numbered from 1, each about the node and the edge of its decision; the first
  asks the question of the root, each row leads to the question of the next, the last to the node
  the investigation is at, which is the one shown as final. A report without steps has an empty
  timeline and, once completed, shows the root as final. The version is taken to be one the database
  can hold: ids are unique and not empty, and its edges and its root name its nodes.\<close>
theorem timeline_is_one_route:
  assumes "version_ok (rp_playbook_version report)" "recorded (rp_playbook_version report) c ks"
    "mset (map path_record (rp_path report)) = mset ks" "c \<noteq> []"
  shows "let rows = timeline shown report; title = (\<lambda>i. map_option pn_title (indexNodes (rp_playbook_version report) i))
    in map (\<lambda>r. (tl_number r, tl_ids r)) rows = ks \<and> map tl_number rows = map int [1..<Suc (length ks)]
     \<and> (\<forall>i. Suc i < length rows \<longrightarrow> tl_destination (rows ! i) = Some (tl_question (rows ! Suc i)))
     \<and> (rows \<noteq> [] \<longrightarrow> Option.bind (g_root (rp_playbook_version report)) title = Some (tl_question (hd rows))
          \<and> tl_destination (last rows) = title c)
     \<and> (rows \<noteq> [] \<or> rs_status (rp_investigation report) = Completed
          \<longrightarrow> final_node report \<noteq> None \<and> final_node report = indexNodes (rp_playbook_version report) c)"
proof -
  let ?v = "rp_playbook_version report" and ?ps = "ordered_steps (rp_path report)"
  have rows: "timeline shown report = map (timeline_row shown ?v) ?ps"
    by (simp add: timeline_def ordered_steps_def)
  note order = ordered_records [OF assms(2,3)]
  note route = recorded_follows [OF assms(2) order]
  have fields: "(tl_number (timeline_row shown ?v s), tl_ids (timeline_row shown ?v s)) = path_record s" for s
    by (simp add: timeline_row_def path_record_def Let_def)
  then have records: "map (\<lambda>r. (tl_number r, tl_ids r)) (timeline shown report) = ks"
    using order by (simp add: rows comp_def)
  then have numbers: "map tl_number (timeline shown report) = map int [1..<Suc (length ks)]"
    using recorded_numbers [OF assms(2)] by (metis (no_types, lifting) fst_conv list.map_comp map_eq_conv comp_apply)
  have empty: "?ps = [] \<longleftrightarrow> rp_path report = []" by (simp add: ordered_steps_def)
  have ends: "\<exists>e\<in>set (g_edges ?v). pe_id e = ps_selected_edge_id (last ?ps) \<and> pe_to e = c"
    "g_root ?v = Some (ps_node_id (hd ?ps))" if "?ps \<noteq> []"
    using route that by auto
  have at_root: "\<exists>n. indexNodes ?v r = Some n" if "g_root ?v = Some r" for r
    using assms(1) that index_nodes by (fastforce simp: version_ok_def)
  have first: "Option.bind (g_root ?v) (\<lambda>i. map_option pn_title (indexNodes ?v i)) = Some (tl_question (timeline_row shown ?v (hd ?ps)))"
    if "?ps \<noteq> []"
    using ends(2) [OF that] at_root by (force simp: timeline_row_def Let_def)
  have last: "tl_destination (timeline_row shown ?v (last ?ps)) = map_option pn_title (indexNodes ?v c)" if "?ps \<noteq> []"
    using ends(1) [OF that] row_destination [OF assms(1)] by auto
  have at_c: "indexNodes ?v c \<noteq> None"
  proof (cases "?ps = []")
    case True
    with route at_root show ?thesis by auto
  next
    case False
    from ends(1) [OF this] indexed_to [OF assms(1)] show ?thesis by auto
  qed
  have final: "final_node report = indexNodes ?v c" if "?ps \<noteq> [] \<or> rs_status (rp_investigation report) = Completed"
  proof -
    have "po_finalNodeId (report_overlay report) = Some c"
    proof (cases "?ps = []")
      case True
      with that route empty assms(4) show ?thesis by (simp add: report_overlay_def buildPathOverlay_def)
    next
      case False
      with recorded_landing [OF assms(2,3)] assms(1) empty show ?thesis
        by (simp add: report_overlay_def buildPathOverlay_closed version_ok_def)
    qed
    with assms(4) show ?thesis by (simp add: final_node_def)
  qed
  from rows_connected [OF assms(1), of ?ps _ shown] route
  have "\<forall>i. Suc i < length (timeline shown report) \<longrightarrow>
      tl_destination (timeline shown report ! i) = Some (tl_question (timeline shown report ! Suc i))"
    by (simp add: rows)
  with records numbers first last final at_c show ?thesis by (simp add: Let_def rows hd_map last_map)
qed

text \<open>The two decisions of the sample report as the server records them.\<close>
lemma sample_recorded:
  "recorded (rp_playbook_version sample_report) (js ''c'') [(1, js ''a'', js ''x''), (2, js ''b'', js ''y'')]"
proof -
  let ?v = "rp_playbook_version sample_report"
  have "recorded ?v (js ''a'') []" by (rule started) (simp add: sample_report_def)
  from decided [OF this, of "sample_edge ''x'' ''a'' ''b''"]
  have "recorded ?v (js ''b'') [(1, js ''a'', js ''x'')]" by (simp add: sample_report_def sample_edges_def sample_edge_def)
  from decided [OF this, of "sample_edge ''y'' ''b'' ''c''"]
  show ?thesis by (simp add: sample_report_def sample_edges_def sample_edge_def)
qed

lemma sample_path_records: "mset (map path_record (rp_path sample_report)) = mset [(1, js ''a'', js ''x''), (2, js ''b'', js ''y'')]"
  by (simp add: sample_report_def sample_path_def sample_step_def path_record_def)

theorem timeline_is_one_route_witness:
  "map tl_number (timeline (\<lambda>_. []) sample_report) = [1, 2] \<and> (\<exists>n. final_node sample_report = Some n)"
proof -
  have "js ''c'' \<noteq> []" by (simp add: js_simps)
  from timeline_is_one_route [OF sample_report_ok(1) sample_recorded sample_path_records this, of "\<lambda>_. []"]
  show ?thesis by (auto simp: Let_def)
qed

text \<open>C30. The running investigation and its report draw the same picture. The state lists the decisions
  the server recorded as steps, the report lists them as its path, each in any order; with the same
  version loaded on both screens and the current node the one the records lead to, the overlay of the
  runner is the overlay of the report, once a decision was taken or the investigation is completed.
  Edge ids are unique within a version and no id is empty.
  (Before that the runner marks the root as the current node and the report marks nothing.)\<close>
theorem runner_agrees_with_report:
  assumes "recorded (rp_playbook_version report) (pn_id (iv_current_node state)) ks"
    "mset (map step_record (iv_steps state)) = mset ks" "mset (map path_record (rp_path report)) = mset ks"
    "distinct (map pe_id (g_edges (rp_playbook_version report)))" "pn_id (iv_current_node state) \<noteq> []"
    "ks \<noteq> [] \<or> rs_status (rp_investigation report) = Completed"
  shows "runner_overlay state (Some (rp_playbook_version report)) = Some (report_overlay report)"
proof -
  let ?v = "rp_playbook_version report" and ?c = "pn_id (iv_current_node state)" and ?own = "map as_path_step (iv_steps state)"
  have "map path_record ?own = map step_record (iv_steps state)"
    by (simp add: as_path_step_def path_record_def step_record_def)
  with assms(2) have own: "mset (map path_record ?own) = mset ks" by (simp only:)
  have empty: "ks = [] \<longleftrightarrow> rp_path report = []" "ks = [] \<longleftrightarrow> iv_steps state = []"
    using assms(2,3) by (metis map_is_Nil_conv mset_zero_iff mset_zero_iff_right)+
  show ?thesis
  proof (cases "ks = []")
    case True
    with recorded_follows [OF assms(1), of "[]"] have "g_root ?v = Some ?c" by simp
    with True empty assms(5,6) show ?thesis
      by (simp add: runner_overlay_def report_overlay_def buildOverlayFromSteps_def buildPathOverlay_def emptyOverlay_def mark_visited_def)
  next
    case False
    then have ne: "rp_path report \<noteq> []" "?own \<noteq> []" using empty by simp_all
    have "map path_record (ordered_steps ?own) = map path_record (ordered_steps (rp_path report))"
      using ordered_records [OF assms(1) own] ordered_records [OF assms(1,3)] by simp
    note same = overlay_of_records [OF this, of "g_edges ?v" None]
    have "report_overlay report = buildPathOverlay (rp_path report) (g_edges ?v) None"
      using ne(1) by (simp add: report_overlay_def buildPathOverlay_def)
    moreover have "finished ?c (buildPathOverlay (rp_path report) (g_edges ?v) None) = buildPathOverlay (rp_path report) (g_edges ?v) None"
      using recorded_landing [OF assms(1,3,4) ne(1)] ne(1) by (simp add: buildPathOverlay_closed finished_finished)
    ultimately show ?thesis
      using assms(5) by (simp add: runner_overlay_def from_steps_closed same)
  qed
qed

text \<open>The same investigation as its runner is handed it.\<close>
definition sample_followed :: investigation_state where
  "sample_followed =
     \<lparr>iv_id = js ''i'', iv_alert = rp_alert sample_report, iv_playbook_version_id = [], iv_status = Completed,
      iv_current_node = \<lparr>pn_id = js ''c'', pn_kind = Terminal, pn_title = js ''c'', pn_description = [],
        pn_terminal_resolution = None, pn_metadata = None\<rparr>,
      iv_available_choices = [], iv_final_resolution = None, iv_started_at = [], iv_completed_at = None,
      iv_steps = map (\<lambda>(k, n, e). \<lparr>is_id = [], is_sequence_number = k, is_node_id = js n, is_selected_edge_id = js e,
        is_actor = \<lparr>ac_type = Agent, ac_id = None\<rparr>, is_rationale = None, is_evidence = [], is_created_at = []\<rparr>)
        [(1, ''a'', ''x''), (2, ''b'', ''y'')]\<rparr>"

theorem runner_agrees_with_report_witness:
  "runner_overlay sample_followed (Some (rp_playbook_version sample_report)) = Some (report_overlay sample_report)"
proof -
  have at: "pn_id (iv_current_node sample_followed) = js ''c''" by (simp add: sample_followed_def)
  show ?thesis
    by (rule runner_agrees_with_report [where ks = "[(1, js ''a'', js ''x''), (2, js ''b'', js ''y'')]"])
      (use sample_recorded sample_path_records sample_report_ok(1) in
        \<open>simp_all add: at version_ok_def js_simps\<close>, simp_all add: sample_followed_def step_record_def js_simps)
qed

end
