(* ===== verification/Editor_View.thy ===== *)
theory Editor_View
  imports Editor_Run Format
begin

text \<open>
  What the authoring screen shows: the rows of \<open>NodeListEditor.tsx\<close> and \<open>EdgeListEditor.tsx\<close>
  with their values, options and inline messages, and the header, notices and side panel of
  \<open>PlaybookEditorScreen.tsx\<close>. A control is a button or a value with what is disabled about it;
  static prose, hints, placeholders and class names are left out.
\<close>

section \<open>Rows\<close>

definition field_error :: "jstring option \<Rightarrow> jstring option" where
  "field_error message = (case message of None \<Rightarrow> None | Some m \<Rightarrow> null_if_blank m)"

record node_row =
  nr_number :: nat
  nr_root :: bool
  nr_id :: uuid
  nr_choice_button :: bool
  nr_kind :: node_kind
  nr_title :: jstring
  nr_title_error :: "jstring option"
  nr_description :: jstring
  nr_resolution :: "jstring option"
  nr_resolution_error :: "jstring option"
  nr_metadata :: jstring
  nr_metadata_error :: "jstring option"

definition node_row :: "uuid \<Rightarrow> draft_error list \<Rightarrow> nat \<Rightarrow> node_draft \<Rightarrow> node_row" where
  "node_row rootNodeId errors index node =
     (let shown = (\<lambda>field. field_error (errorFor errors ScopeNode (int index) field));
          terminal = (nd_kind node = Terminal)
      in \<lparr>nr_number = index + 1, nr_root = (nd_id node = rootNodeId), nr_id = nd_id node,
          nr_choice_button = (nd_kind node = Decision),
          nr_kind = nd_kind node,
          nr_title = nd_title node, nr_title_error = shown FTitle,
          nr_description = nd_description node,
          nr_resolution = (if terminal then Some (nd_terminal_resolution node) else None),
          nr_resolution_error = (if terminal then shown FTerminalResolution else None),
          nr_metadata = nd_metadata node, nr_metadata_error = shown FMetadata\<rparr>)"

definition node_rows :: "node_draft list \<Rightarrow> uuid \<Rightarrow> draft_error list \<Rightarrow> node_row list" where
  "node_rows nodes rootNodeId errors = map_idx 0 (node_row rootNodeId errors) nodes"

text \<open>The options of an endpoint select: value and label. A node's number is its place among all
  nodes, whichever of them are eligible.\<close>
definition endpoint_options ::
  "(node_draft \<Rightarrow> bool) \<Rightarrow> uuid \<Rightarrow> node_draft list \<Rightarrow> (uuid \<times> jstring) list"
where
  "endpoint_options eligible selectedId allNodes =
     (let placed = map_idx 0 Pair allNodes;
          listed = filter (\<lambda>(_, node). eligible node) placed;
          opt = (\<lambda>(position, node). (nd_id node, optionLabel position node));
          stale = (if selectedId \<noteq> [] \<and> \<not> list_ex (\<lambda>(_, node). nd_id node = selectedId) listed
                   then find_first (\<lambda>(_, node). nd_id node = selectedId) placed else None)
      in ([], em_dash @ js '' select a node '' @ em_dash) # map opt listed
         @ (case stale of None \<Rightarrow> [] | Some s \<Rightarrow> [opt s]))"

record edge_row =
  er_number :: nat
  er_id :: uuid
  er_from :: uuid
  er_from_options :: "(uuid \<times> jstring) list"
  er_from_error :: "jstring option"
  er_label :: jstring
  er_label_error :: "jstring option"
  er_to :: uuid
  er_to_options :: "(uuid \<times> jstring) list"
  er_to_error :: "jstring option"
  er_order :: jstring
  er_description :: jstring

definition edge_row :: "node_draft list \<Rightarrow> draft_error list \<Rightarrow> nat \<Rightarrow> edge_draft \<Rightarrow> edge_row" where
  "edge_row nodes errors index edge =
     (let shown = (\<lambda>field. field_error (errorFor errors ScopeEdge (int index) field))
      in \<lparr>er_number = index + 1, er_id = ed_id edge,
          er_from = ed_from edge,
          er_from_options = endpoint_options (\<lambda>node. nd_kind node = Decision) (ed_from edge) nodes,
          er_from_error = shown FFromNodeId,
          er_label = ed_label edge, er_label_error = shown FLabel,
          er_to = ed_to edge,
          er_to_options = endpoint_options (\<lambda>_. True) (ed_to edge) nodes,
          er_to_error = shown FToNodeId,
          er_order = ed_sort_order edge, er_description = ed_description edge\<rparr>)"

definition edge_rows :: "edge_draft list \<Rightarrow> node_draft list \<Rightarrow> draft_error list \<Rightarrow> edge_row list" where
  "edge_rows edges nodes errors = map_idx 0 (edge_row nodes errors) edges"

text \<open>The messages a row shows, and those of the whole form.\<close>
definition some_messages :: "jstring option list \<Rightarrow> jstring list" where
  "some_messages ms = concat (map (\<lambda>m. case m of None \<Rightarrow> [] | Some x \<Rightarrow> [x]) ms)"

definition node_messages :: "node_row \<Rightarrow> jstring list" where
  "node_messages r = some_messages [nr_title_error r, nr_resolution_error r, nr_metadata_error r]"

definition edge_messages :: "edge_row \<Rightarrow> jstring list" where
  "edge_messages r = some_messages [er_from_error r, er_label_error r, er_to_error r]"

section \<open>Every error is on its row\<close>

lemma find_by_key:
  assumes "distinct (map key xs)" "x \<in> set xs"
  shows "List.find (\<lambda>y. key y = key x) xs = Some x"
  using assms
proof (induction xs)
  case Nil
  then show ?case by simp
next
  case (Cons y xs)
  then show ?case by (cases "key y = key x") (auto dest: image_eqI [where f = key and x = x and A = "set xs"])
qed

lemma errorFor_finds:
  assumes "distinct (map de_position errs)" "err \<in> set errs"
  shows "errorFor errs (de_scope err) (de_index err) (de_field err) = Some (de_message err)"
  using find_by_key [OF assms] by (simp add: errorFor_def de_position_def)

lemma node_messages_nonempty: "err \<in> set (node_errors i seen n) \<Longrightarrow> de_message err \<noteq> []"
  by (auto simp: node_errors_def parseMetadata_def draft_error_def Let_def
      split: if_splits option.splits json.splits)

lemma edge_messages_nonempty: "err \<in> set (edge_errors i ids seen labels e) \<Longrightarrow> de_message err \<noteq> []"
  by (auto simp: edge_errors_def endpoint_errors_def draft_error_def Let_def em_dash_def split: if_splits)

lemma draft_messages_nonempty: "err \<in> set (draft_errors d) \<Longrightarrow> de_message err \<noteq> []"
  unfolding draft_errors_def set_append Un_iff mem_concat_map_idx_0
  using node_messages_nonempty edge_messages_nonempty
  by (auto simp: root_errors_def draft_error_def split: if_splits)

text \<open>Where a message must be for the designer to see it at the thing it is about.\<close>
definition shown_at_row :: "playbook_draft \<Rightarrow> draft_error list \<Rightarrow> draft_error \<Rightarrow> bool" where
  "shown_at_row d errs err \<longleftrightarrow>
     (let i = nat (de_index err)
      in case de_scope err of
           ScopeNode \<Rightarrow> i < length (pd_nodes d)
             \<and> de_message err \<in> set (node_messages (node_rows (pd_nodes d) (pd_root d) errs ! i))
         | ScopeEdge \<Rightarrow> i < length (pd_edges d)
             \<and> de_message err \<in> set (edge_messages (edge_rows (pd_edges d) (pd_nodes d) errs ! i))
         | ScopeRoot \<Rightarrow> False)"

lemma field_error_Some: "m \<noteq> [] \<Longrightarrow> field_error (Some m) = Some m"
  by (simp add: field_error_def)

lemma node_error_shown:
  assumes "errorFor errs ScopeNode (int i) f = Some m" "m \<noteq> []" "i < length ns"
    "f \<in> {FTitle, FTerminalResolution, FMetadata}" "f = FTerminalResolution \<longrightarrow> nd_kind (ns ! i) = Terminal"
  shows "m \<in> set (node_messages (node_rows ns r errs ! i))"
proof -
  have "field_error (errorFor errs ScopeNode (int i) f) = Some m"
    using assms(1,2) by (simp add: field_error_Some)
  then show ?thesis
    using assms(3-5) by (auto simp: node_rows_def node_row_def node_messages_def some_messages_def Let_def)
qed

lemma edge_error_shown:
  assumes "errorFor errs ScopeEdge (int i) f = Some m" "m \<noteq> []" "i < length es"
    "f \<in> {FFromNodeId, FLabel, FToNodeId}"
  shows "m \<in> set (edge_messages (edge_rows es ns errs ! i))"
proof -
  have "field_error (errorFor errs ScopeEdge (int i) f) = Some m"
    using assms(1,2) by (simp add: field_error_Some)
  then show ?thesis
    using assms(3,4) by (auto simp: edge_rows_def edge_row_def edge_messages_def some_messages_def Let_def)
qed

text \<open>The errors of a draft of a session are about controls that are there.\<close>
lemma good_error_row:
  assumes "fresh_source foreign newId" "good_draft foreign newId n d"
    "serializePlaybookDraft d = Inl errs" "err \<in> set errs"
  obtains (node) i where "de_scope err = ScopeNode" "de_index err = int i" "i < length (pd_nodes d)"
      "de_field err \<in> {FTitle, FTerminalResolution, FMetadata}"
      "de_field err = FTerminalResolution \<longrightarrow> nd_kind (pd_nodes d ! i) = Terminal"
    | (edge) i where "de_scope err = ScopeEdge" "de_index err = int i" "i < length (pd_edges d)"
      "de_field err \<in> {FFromNodeId, FLabel, FToNodeId}"
proof -
  have errs: "errs = draft_errors d" using assms(3) by (simp add: serialize_closed split: if_splits)
  have problem: "de_position err \<in> draft_problems d"
    using assms(4) unfolding errs draft_errors_positions [symmetric] by simp
  have ok: "correctable d (de_position err)" by (rule good_correctable [OF assms(1,2) problem])
  show thesis
  proof (cases "de_scope err")
    case ScopeNode
    with problem obtain i where "de_index err = int i" "i < length (pd_nodes d)"
      "node_problem (pd_nodes d) i (de_field err)"
      by (auto simp: draft_problems_def de_position_def split: if_splits)
    moreover have "de_field err \<in> {FTitle, FTerminalResolution, FMetadata}"
      using ok ScopeNode by (simp add: correctable_def de_position_def)
    ultimately show ?thesis using ScopeNode by (intro node) auto
  next
    case ScopeEdge
    with problem obtain i where "de_index err = int i" "i < length (pd_edges d)"
      by (auto simp: draft_problems_def de_position_def split: if_splits)
    moreover have "de_field err \<in> {FFromNodeId, FLabel, FToNodeId}"
      using ok ScopeEdge by (auto simp: correctable_def de_position_def)
    ultimately show ?thesis using ScopeEdge by (intro edge)
  next
    case ScopeRoot
    with ok show ?thesis by (simp add: correctable_def de_position_def)
  qed
qed

lemma good_errors_shown:
  assumes "fresh_source foreign newId" "good_draft foreign newId n d"
    "serializePlaybookDraft d = Inl errs" "err \<in> set errs"
  shows "shown_at_row d errs err"
proof -
  have errs: "errs = draft_errors d" using assms(3) by (simp add: serialize_closed split: if_splits)
  have found: "errorFor errs (de_scope err) (de_index err) (de_field err) = Some (de_message err)"
    using draft_errors_distinct assms(4) unfolding errs by (rule errorFor_finds)
  have some: "de_message err \<noteq> []" using assms(4) unfolding errs by (rule draft_messages_nonempty)
  from assms show ?thesis
  proof (cases rule: good_error_row)
    case (node i)
    have "de_message err \<in> set (node_messages (node_rows (pd_nodes d) (pd_root d) errs ! i))"
      by (rule node_error_shown [OF _ some node(3,4)]) (use found node(1,2,5) in auto)
    with node show ?thesis by (simp add: shown_at_row_def)
  next
    case (edge i)
    have "de_message err \<in> set (edge_messages (edge_rows (pd_edges d) (pd_nodes d) errs ! i))"
      by (rule edge_error_shown [OF _ some edge(3,4)]) (use found edge(1,2) in auto)
    with edge show ?thesis by (simp add: shown_at_row_def)
  qed
qed

section \<open>Options\<close>

lemma map_filter_placed:
  "map (\<lambda>p. f (snd p)) (filter (\<lambda>p. q (snd p)) (map_idx k Pair xs)) = map f (filter q xs)"
  by (induction xs arbitrary: k) auto

lemma find_placed:
  "map_option snd (List.find (\<lambda>p. q (snd p)) (map_idx k Pair xs)) = List.find q xs"
  by (induction xs arbitrary: k) auto

lemma list_ex_placed:
  "list_ex (\<lambda>p. q (snd p)) (filter (\<lambda>p. e (snd p)) (map_idx k Pair xs)) = list_ex q (filter e xs)"
  by (induction xs arbitrary: k) auto

lemma list_ex_key: "list_ex (\<lambda>n. key n = x) xs \<longleftrightarrow> x \<in> key ` set xs"
  by (induction xs) auto

text \<open>The values offered are those the machine lets the designer pick.\<close>
lemma endpoint_options_values:
  "map fst (endpoint_options eligible selectedId allNodes)
     = node_options (filter eligible allNodes) selectedId allNodes"
proof -
  let ?placed = "map_idx 0 Pair allNodes"
  have ex: "list_ex (\<lambda>p. nd_id (snd p) = selectedId) (filter (\<lambda>p. eligible (snd p)) ?placed)
      \<longleftrightarrow> selectedId \<in> nd_id ` set (filter eligible allNodes)"
    unfolding list_ex_placed [where q = "\<lambda>n. nd_id n = selectedId"] by (rule list_ex_key)
  have find: "map_option snd (List.find (\<lambda>p. nd_id (snd p) = selectedId) ?placed)
      = List.find (\<lambda>n. nd_id n = selectedId) allNodes"
    by (rule find_placed)
  have stale: "map fst (case x of None \<Rightarrow> [] | Some s \<Rightarrow> [(nd_id (snd s), optionLabel (fst s) (snd s))])
      = (case map_option snd x of None \<Rightarrow> [] | Some n \<Rightarrow> [nd_id n])" for x :: "(nat \<times> node_draft) option"
    by (cases x) simp_all
  have listed: "map (\<lambda>p. nd_id (snd p)) (filter (\<lambda>p. eligible (snd p)) ?placed) = map nd_id (filter eligible allNodes)"
    by (rule map_filter_placed)
  show ?thesis
    unfolding endpoint_options_def node_options_def Let_def case_prod_beta ex list.map fst_conv map_append
      map_map stale comp_def fst_conv listed
    by (cases "selectedId \<noteq> [] \<and> selectedId \<notin> nd_id ` set (filter eligible allNodes)") (simp_all only: find option.map if_True if_False simp_thms)
qed

section \<open>The page\<close>

record button =
  bt_label :: jstring
  bt_disabled :: bool

record metadata_field =
  mf_value :: jstring
  mf_error :: "jstring option"

datatype metadata_panel =
    Stored_Metadata jstring jstring "jstring \<times> jstring" "jstring option"
  | Metadata_Form metadata_field metadata_field jstring

record editor_page =
  pg_eyebrow :: jstring
  pg_title :: jstring
  pg_status :: "version_status option"
  pg_save :: "button option"
  pg_publish :: "button option"
  pg_clone :: "button option"
  pg_library :: "jstring option"
  pg_notices :: "thrown list"
  pg_banner :: "jstring option"
  pg_frozen :: "(jstring \<times> jstring) option"
  pg_fields_disabled :: bool
  pg_metadata :: metadata_panel
  pg_nodes_eyebrow :: jstring
  pg_node_rows :: "node_row list"
  pg_edges_eyebrow :: jstring
  pg_edge_rows :: "edge_row list"
  pg_add_edge_disabled :: bool
  pg_root :: uuid
  pg_root_options :: "(uuid \<times> jstring) list"
  pg_preview :: "playbook_node list \<times> playbook_edge list"
  pg_preview_root :: "uuid option"
  pg_unsaved :: bool

definition middot :: jstring where "middot = [0xB7]"

definition page_title :: "editor \<Rightarrow> jstring" where
  "page_title e =
     (if sc_versionId e = None then js ''Design a playbook''
      else (case rc_data (sc_playbook e) of None \<Rightarrow> js ''Playbook'' | Some p \<Rightarrow> pb_name p)
        @ js '' '' @ middot @ js '' version ''
        @ (case rc_data (sc_version e) of None \<Rightarrow> em_dash | Some v \<Rightarrow> number_text (Fin (v_version v))))"

definition save_button :: "editor \<Rightarrow> button option" where
  "save_button e =
     (if frozen e then None
      else Some \<lparr>bt_label = (if sc_saving e then js ''Saving'' @ ellipsis
                            else if sc_versionId e \<noteq> None then js ''Save draft'' else js ''Create draft''),
                 bt_disabled = (locked e \<or> (sc_versionId e \<noteq> None \<and> \<not> sc_dirty e))\<rparr>)"

definition publish_button :: "editor \<Rightarrow> button option" where
  "publish_button e =
     (if sc_versionId e \<noteq> None \<and> \<not> frozen e
      then Some \<lparr>bt_label = (if sc_publishing e then js ''Publishing'' @ ellipsis else js ''Publish version''),
                 bt_disabled = (locked e \<or> sc_dirty e)\<rparr>
      else None)"

definition clone_button :: "editor \<Rightarrow> button option" where
  "clone_button e =
     (if frozen e \<and> sc_playbookId e \<noteq> None
      then Some \<lparr>bt_label = (if sc_cloning e then js ''Creating'' @ ellipsis
                            else js ''Create a new version from this one''),
                 bt_disabled = sc_cloning e\<rparr>
      else None)"

text \<open>The notices, in the order they are stacked.\<close>
definition page_notices :: "editor \<Rightarrow> thrown list" where
  "page_notices e =
     concat (map (\<lambda>x. case x of None \<Rightarrow> [] | Some err \<Rightarrow> [err])
       [rc_error (sc_version e), rc_error (sc_playbook e), sc_saveError e, sc_publishError e, sc_cloneError e])"

definition page_banner :: "draft_error list \<Rightarrow> jstring option" where
  "page_banner errors =
     (if errors = [] then None
      else Some (nat_text (length errors) @ js '' field'' @ (if length errors = 1 then [] else js ''s'')
                 @ js '' would be rejected by the draft write with a 400. Each is marked below. Nothing was sent.''))"

definition metadata_panel_of :: "(jstring option \<Rightarrow> jstring) \<Rightarrow> editor \<Rightarrow> metadata_panel" where
  "metadata_panel_of shown e =
     (if sc_versionId e \<noteq> None then
        let pb = rc_data (sc_playbook e); v = rc_data (sc_version e)
        in Stored_Metadata
             (case pb of None \<Rightarrow> em_dash | Some p \<Rightarrow> pb_name p)
             (case pb of None \<Rightarrow> em_dash | Some p \<Rightarrow> pb_alert_type p)
             (if (case v of None \<Rightarrow> False | Some d \<Rightarrow> or_else (v_published_at d) [] \<noteq> [])
              then js ''Published'' else js ''Created'',
              shown (map_option (\<lambda>d. or_else (v_published_at d) (v_created_at d)) v))
             (case pb of None \<Rightarrow> None | Some p \<Rightarrow> null_if_blank (pb_description p))
      else
        Metadata_Form
          \<lparr>mf_value = sc_name e, mf_error = field_error (me_name (sc_metadataErrors e))\<rparr>
          \<lparr>mf_value = sc_alertType e, mf_error = field_error (me_alertType (sc_metadataErrors e))\<rparr>
          (sc_description e))"

definition editor_page :: "(jstring option \<Rightarrow> jstring) \<Rightarrow> editor \<Rightarrow> editor_page" where
  "editor_page shown e =
     (let draft = sc_draft e;
          decisionCount = length (filter (\<lambda>n. nd_kind n = Decision) (pd_nodes draft));
          versionId = or_else (sc_versionId e) []
      in \<lparr>pg_eyebrow = (if sc_versionId e \<noteq> None then js ''Playbook design''
                       else js ''Playbook design '' @ middot @ js '' new''),
          pg_title = page_title e,
          pg_status = map_option v_status (rc_data (sc_version e)),
          pg_save = save_button e, pg_publish = publish_button e, pg_clone = clone_button e,
          pg_library = (if sc_versionId e \<noteq> None
            then Some (js ''/playbooks?playbook='' @ or_else (sc_playbookId e) [] @ js ''&version='' @ versionId)
            else None),
          pg_notices = page_notices e,
          pg_banner = page_banner (sc_errors e),
          pg_frozen = (if frozen e
            then Some (if sc_justPublished e then js ''Published. This version is now frozen.''
                       else js ''This version is published and frozen.'',
                       js ''/investigations/new?version='' @ versionId)
            else None),
          pg_fields_disabled = locked e,
          pg_metadata = metadata_panel_of shown e,
          pg_nodes_eyebrow = nat_text decisionCount @ js '' decision '' @ middot @ js '' ''
            @ nat_text (length (pd_nodes draft) - decisionCount) @ js '' terminal'',
          pg_node_rows = node_rows (pd_nodes draft) (pd_root draft) (sc_errors e),
          pg_edges_eyebrow = nat_text (length (pd_edges draft)) @ js '' edges'',
          pg_edge_rows = edge_rows (pd_edges draft) (pd_nodes draft) (sc_errors e),
          pg_add_edge_disabled = (locked e \<or> pd_nodes draft = []),
          pg_root = pd_root draft,
          pg_root_options = ([], em_dash @ js '' no root chosen '' @ em_dash)
            # map_idx 0 (\<lambda>i n. (nd_id n, optionLabel i n)) (pd_nodes draft),
          pg_preview = previewGraph draft,
          pg_preview_root = null_if_blank (pd_root draft),
          pg_unsaved = (sc_dirty e \<and> sc_versionId e \<noteq> None)\<rparr>)"

text \<open>A version of another playbook: the page says whose it is and links there.\<close>
definition mismatch_page :: "uuid \<Rightarrow> version_definition \<Rightarrow> uuid \<times> uuid \<times> uuid \<times> jstring" where
  "mismatch_page playbookId version =
     (v_id version, v_playbook_id version, playbookId, editHref (v_playbook_id version) (v_id version))"

text \<open>The machine's guards are the page's enabled buttons.\<close>
definition enabled :: "button option \<Rightarrow> bool" where
  "enabled b = (case b of None \<Rightarrow> False | Some x \<Rightarrow> \<not> bt_disabled x)"

lemma buttons_are_guards:
  assumes "screen_of e = Form_Screen"
  shows "enabled (save_button e) \<longleftrightarrow> can_save e" "enabled (publish_button e) \<longleftrightarrow> can_publish e"
    "enabled (clone_button e) \<longleftrightarrow> can_clone e" "\<not> pg_fields_disabled (editor_page shown e) \<longleftrightarrow> can_edit e"
  using assms
  by (simp_all add: enabled_def save_button_def publish_button_def clone_button_def can_save_def
      can_publish_def can_clone_def can_edit_def editor_page_def Let_def)

section \<open>Properties\<close>

text \<open>In every session each error of a refused save is shown at the very row and field it is
  about: the banner's promise that each is marked below holds, although the rows show no message
  for ids and the root select none at all.\<close>
theorem every_error_is_marked:
  assumes "session_reach foreign newId (initial_session p v) s" "fresh_source foreign newId"
    "err \<in> set (sc_errors (ss_screen s))"
  shows "shown_at_row (sc_draft (ss_screen s)) (sc_errors (ss_screen s)) err"
proof -
  from session_inv [OF assms(1,2)] have inv: "editor_inv foreign newId (ss_screen s)" ..
  with assms(3) have "serializePlaybookDraft (sc_draft (ss_screen s)) = Inl (sc_errors (ss_screen s))"
    by (auto simp: editor_inv_def errors_current_def)
  with inv assms(2,3) show ?thesis
    by (auto simp: editor_inv_def intro: good_errors_shown)
qed

theorem every_error_is_marked_witness:
  "\<exists>s err. session_reach {} (\<lambda>n. replicate n 65) (initial_session None None) s
     \<and> err \<in> set (sc_errors (ss_screen s)) \<and> shown_at_row (sc_draft (ss_screen s)) (sc_errors (ss_screen s)) err"
proof -
  let ?es = "[Edit (Add_Node Decision), Press_Save]"
  have "\<exists>s. run_session (\<lambda>n. replicate n 65) (initial_session None None) ?es = Some s
      \<and> sc_errors (ss_screen s) \<noteq> []"
    by (simp add: session_run_defs Let_def save_def serializePlaybookDraft_def node_errors_def trim_js
        parseMetadata_def root_errors_def)
  then obtain s err where s: "run_session (\<lambda>n. replicate n 65) (initial_session None None) ?es = Some s"
    and err: "err \<in> set (sc_errors (ss_screen s))" by (metis last_in_set)
  have reach: "session_reach {} (\<lambda>n. replicate n 65) (initial_session None None) s"
    by (rule run_session_reach [OF reach.start s]) simp
  have "fresh_source {} (\<lambda>n. replicate n 65)"
    by (auto simp: fresh_source_def inj_def dest: arg_cong [where f = length])
  from every_error_is_marked [OF reach this err] reach err show ?thesis by blast
qed

text \<open>The endpoint selects of a choice offer exactly what the draft allows: a blank, the nodes
  eligible at that end in their order, and the node already chosen even when it is eligible no
  more, so the value of the select is always one of its options.\<close>
theorem selects_show_the_draft:
  assumes "closed_draft d" "e \<in> set (pd_edges d)"
  shows "ed_from e \<in> fst ` set (er_from_options (edge_row (pd_nodes d) errs i e))
    \<and> ed_to e \<in> fst ` set (er_to_options (edge_row (pd_nodes d) errs i e))
    \<and> map fst (er_from_options (edge_row (pd_nodes d) errs i e))
        = node_options (source_nodes (pd_nodes d)) (ed_from e) (pd_nodes d)
    \<and> map fst (er_to_options (edge_row (pd_nodes d) errs i e)) = node_options (pd_nodes d) (ed_to e) (pd_nodes d)"
proof -
  have from_options: "map fst (er_from_options (edge_row (pd_nodes d) errs i e))
      = node_options (source_nodes (pd_nodes d)) (ed_from e) (pd_nodes d)"
    by (simp add: edge_row_def Let_def endpoint_options_values source_nodes_def)
  have to_options: "map fst (er_to_options (edge_row (pd_nodes d) errs i e))
      = node_options (pd_nodes d) (ed_to e) (pd_nodes d)"
    by (simp add: edge_row_def Let_def endpoint_options_values)
  have chosen: "x \<in> set (node_options ns x (pd_nodes d))" if "x = [] \<or> x \<in> draft_ids d" for x ns
  proof (cases "x = [] \<or> x \<in> nd_id ` set ns")
    case True
    then show ?thesis by (auto simp: node_options_def Let_def)
  next
    case False
    with that have "x \<in> nd_id ` set (pd_nodes d)" by (simp add: draft_ids_def)
    then have "List.find (\<lambda>n. nd_id n = x) (pd_nodes d) \<noteq> None"
      by (auto simp: find_None_iff)
    then obtain m where m: "List.find (\<lambda>n. nd_id n = x) (pd_nodes d) = Some m" by blast
    then have "nd_id m = x" by (auto simp: find_Some_iff)
    with m False show ?thesis by (simp add: node_options_def Let_def)
  qed
  have ends: "ed_from e \<in> set (map fst (er_from_options (edge_row (pd_nodes d) errs i e)))"
    "ed_to e \<in> set (map fst (er_to_options (edge_row (pd_nodes d) errs i e)))"
    unfolding from_options to_options using assms by (simp_all add: closed_draft_def chosen)
  show ?thesis
    using ends [unfolded list.set_map] from_options to_options by blast
qed

theorem selects_show_the_draft_witness:
  "ed_to (hd (pd_edges sample_draft))
     \<in> fst ` set (er_to_options (edge_row (pd_nodes sample_draft) [] 0 (hd (pd_edges sample_draft))))"
proof -
  have "closed_draft sample_draft" "hd (pd_edges sample_draft) \<in> set (pd_edges sample_draft)"
    by (simp_all add: closed_draft_def draft_ids_def sample_draft_def newNodeDraft_def newEdgeDraft_def)
  from selects_show_the_draft [OF this, of "[]" 0] show ?thesis by blast
qed

end
