(* ===== verification/Primitives.thy ===== *)
theory Primitives
  imports Format
begin

text \<open>
  \<open>components/primitives.tsx\<close>: the building blocks of every screen, as the element trees they
  render, attributes and class names included. Event handlers are the operations of the screens'
  machines and are not attributes here; an attribute that is \<open>undefined\<close> or \<open>false\<close> is absent, one
  that is \<open>true\<close> is there with an empty value.
\<close>

section \<open>Element trees\<close>

text \<open>\<open>Nothing\<close> is what React renders nothing for: \<open>undefined\<close>, \<open>null\<close> and \<open>false\<close>.\<close>
datatype react = Nothing | Txt jstring | Elem jstring "(jstring \<times> jstring) list" "react list"

type_synonym attributes = "(jstring \<times> jstring) list"

definition elem :: "string \<Rightarrow> attributes \<Rightarrow> react list \<Rightarrow> react" where
  "elem tag attrs children = Elem (js tag) attrs children"

definition attr :: "string \<Rightarrow> jstring \<Rightarrow> attributes" where
  "attr k v = [(js k, v)]"

definition attr_opt :: "string \<Rightarrow> jstring option \<Rightarrow> attributes" where
  "attr_opt k v = (case v of None \<Rightarrow> [] | Some t \<Rightarrow> [(js k, t)])"

definition flag :: "string \<Rightarrow> bool \<Rightarrow> attributes" where
  "flag k b = (if b then [(js k, [])] else [])"

text \<open>\<open>cond && element\<close> and \<open>cond ? element : null\<close>.\<close>
definition shown_if :: "bool \<Rightarrow> react \<Rightarrow> react" where
  "shown_if b e = (if b then e else Nothing)"

text \<open>JavaScript's truth of what may be rendered.\<close>
fun truthy :: "react \<Rightarrow> bool" where
  "truthy Nothing = False"
| "truthy (Txt t) = (t \<noteq> [])"
| "truthy (Elem _ _ _) = True"

text \<open>What is read on the screen, the attributes of an element, and every element in a tree.\<close>
fun text_of :: "react \<Rightarrow> jstring" where
  "text_of Nothing = []"
| "text_of (Txt t) = t"
| "text_of (Elem _ _ cs) = concat (map text_of cs)"

fun attribute :: "string \<Rightarrow> react \<Rightarrow> jstring option" where
  "attribute k (Elem _ attrs _) = map_of attrs (js k)"
| "attribute k _ = None"

fun elements :: "(react \<Rightarrow> bool) \<Rightarrow> react \<Rightarrow> react list" where
  "elements p (Elem tag attrs cs) =
     (if p (Elem tag attrs cs) then [Elem tag attrs cs] else []) @ concat (map (elements p) cs)"
| "elements p _ = []"

fun is_tag :: "string \<Rightarrow> react \<Rightarrow> bool" where
  "is_tag t (Elem tag _ _) = (tag = js t)"
| "is_tag t _ = False"

section \<open>Containers\<close>

definition Panel :: "react \<Rightarrow> react \<Rightarrow> react \<Rightarrow> react list \<Rightarrow> jstring option \<Rightarrow> jstring option \<Rightarrow> react" where
  "Panel title eyebrow actions children className bodyClassName =
     elem ''section'' (attr ''class'' (js ''panel '' @ or_else className []))
       [shown_if (truthy title \<or> truthy eyebrow \<or> truthy actions)
          (elem ''header'' (attr ''class'' (js ''flex flex-wrap items-center gap-x-3 gap-y-1 border-b border-rule px-4 py-2.5''))
            [elem ''div'' (attr ''class'' (js ''min-w-0''))
               [shown_if (truthy eyebrow) (elem ''p'' (attr ''class'' (js ''label mb-0.5'')) [eyebrow]),
                shown_if (truthy title)
                  (elem ''h2'' (attr ''class'' (js ''truncate text-[13px] font-semibold text-ink'')) [title])],
             shown_if (truthy actions)
               (elem ''div'' (attr ''class'' (js ''ml-auto flex items-center gap-2'')) [actions])]),
        elem ''div'' (attr ''class'' (or_else bodyClassName (js ''p-4''))) children]"

definition Field_Row :: "jstring \<Rightarrow> react list \<Rightarrow> jstring option \<Rightarrow> react" where
  "Field_Row label children className =
     elem ''div'' (attr ''class'' (js ''min-w-0 '' @ or_else className []))
       [elem ''dt'' (attr ''class'' (js ''label mb-1'')) [Txt label],
        elem ''dd'' (attr ''class'' (js ''break-words text-[13px] leading-snug text-ink'')) children]"

section \<open>Values\<close>

fun TONES :: "tone \<Rightarrow> jstring" where
  "TONES Tone_Neutral = js ''border-rule-strong bg-sunken text-ink-muted''"
| "TONES Tone_Signal = js ''border-signal/35 bg-signal-soft text-signal''"
| "TONES Tone_Hold = js ''border-hold/35 bg-hold-soft text-hold''"
| "TONES Tone_Clear = js ''border-clear/35 bg-clear-soft text-clear''"
| "TONES Tone_Alarm = js ''border-alarm/35 bg-alarm-soft text-alarm''"

definition chip_class :: jstring where
  "chip_class = js ''inline-flex items-center gap-1.5 whitespace-nowrap rounded-[2px] border px-1.5 py-[3px] font-mono text-[10px] font-medium uppercase leading-none tracking-[0.08em] ''"

definition Chip :: "tone option \<Rightarrow> react list \<Rightarrow> jstring option \<Rightarrow> react" where
  "Chip tone children className =
     elem ''span'' (attr ''class'' (chip_class @ TONES (or_else tone Tone_Neutral) @ js '' '' @ or_else className []))
       children"

definition Id_Span :: "jstring option \<Rightarrow> jstring option \<Rightarrow> react" where
  "Id_Span value' className =
     elem ''span'' (attr_opt ''title'' value' @ attr ''class'' (js ''font-mono text-[11px] text-ink-muted '' @ or_else className []))
       [Txt (shortId value')]"

definition JsonBlock :: "json \<Rightarrow> jstring option \<Rightarrow> jstring option \<Rightarrow> react" where
  "JsonBlock value' className maxHeight =
     elem ''pre''
       (attr ''style'' (js ''max-height:'' @ or_else maxHeight (js ''18rem''))
        @ attr ''class'' (js ''overflow-auto rounded-[2px] border border-rule bg-sunken p-2.5 font-mono text-[11.5px] leading-[1.55] text-ink ''
            @ or_else className []))
       [Txt (prettyJson value')]"

definition ObjectBlock :: "json_object option \<Rightarrow> jstring option \<Rightarrow> jstring option \<Rightarrow> react" where
  "ObjectBlock value' className maxHeight = JsonBlock (JObj (or_else value' [])) className maxHeight"

section \<open>Controls\<close>

datatype button_variant = Primary | Secondary | Quiet

fun BUTTON_VARIANTS :: "button_variant \<Rightarrow> jstring" where
  "BUTTON_VARIANTS Primary =
     js ''bg-signal text-white border-signal hover:bg-[#1a44bb] disabled:bg-ink-faint disabled:border-ink-faint''"
| "BUTTON_VARIANTS Secondary = js ''bg-panel text-ink border-rule-strong hover:bg-sunken disabled:text-ink-faint''"
| "BUTTON_VARIANTS Quiet = js ''bg-transparent text-ink-muted border-transparent hover:bg-sunken hover:text-ink''"

text \<open>The spread properties come first; the class name is taken out of them, so it cannot be theirs.\<close>
definition Button :: "button_variant option \<Rightarrow> jstring option \<Rightarrow> attributes \<Rightarrow> react list \<Rightarrow> react" where
  "Button variant className props children =
     elem ''button''
       (props @ attr ''class'' (js ''inline-flex items-center justify-center gap-1.5 rounded-[2px] border px-3 py-1.5 text-[13px] font-medium transition-colors disabled:cursor-not-allowed ''
          @ BUTTON_VARIANTS (or_else variant Secondary) @ js '' '' @ or_else className []))
       children"

definition CONTROL :: jstring where
  "CONTROL = js ''w-full rounded-[2px] border border-rule bg-panel px-2.5 py-1.5 text-[13px] text-ink placeholder:text-ink-faint focus:border-signal disabled:bg-sunken disabled:text-ink-muted''"

definition TextInput :: "jstring option \<Rightarrow> attributes \<Rightarrow> react" where
  "TextInput className props = elem ''input'' (props @ attr ''class'' (CONTROL @ js '' '' @ or_else className [])) []"

definition TextArea :: "jstring option \<Rightarrow> attributes \<Rightarrow> react" where
  "TextArea className props =
     elem ''textarea'' (props @ attr ''class'' (CONTROL @ js '' leading-snug '' @ or_else className [])) []"

definition Select :: "jstring option \<Rightarrow> attributes \<Rightarrow> react list \<Rightarrow> react" where
  "Select className props children =
     elem ''select'' (props @ attr ''class'' (CONTROL @ js '' '' @ or_else className [])) children"

definition LabelledField :: "jstring \<Rightarrow> react \<Rightarrow> jstring option \<Rightarrow> react list \<Rightarrow> jstring option \<Rightarrow> react" where
  "LabelledField label hint htmlFor children className =
     elem ''div'' (attr ''class'' (or_else className []))
       ([elem ''label'' (attr_opt ''for'' htmlFor @ attr ''class'' (js ''label mb-1 block'')) [Txt label]]
        @ children
        @ [shown_if (truthy hint) (elem ''p'' (attr ''class'' (js ''mt-1 text-[11.5px] leading-snug text-ink-faint'')) [hint])])"

section \<open>Placeholders\<close>

definition Loading :: "jstring \<Rightarrow> react" where
  "Loading what =
     elem ''p'' (attr ''role'' (js ''status'') @ attr ''class'' (js ''label py-8 text-center''))
       [Txt (js ''Loading ''), Txt what, Txt ellipsis]"

definition Empty_State :: "jstring \<Rightarrow> react \<Rightarrow> react" where
  "Empty_State title children =
     elem ''div'' (attr ''class'' (js ''px-4 py-10 text-center''))
       [elem ''p'' (attr ''class'' (js ''text-[13px] font-medium text-ink'')) [Txt title],
        shown_if (truthy children)
          (elem ''div'' (attr ''class'' (js ''mx-auto mt-2 max-w-md text-[13px] leading-relaxed text-ink-muted'')) [children])]"

section \<open>What they show\<close>

lemma text_of_elem [simp]: "text_of (elem tag attrs cs) = concat (map text_of cs)"
  by (simp add: elem_def)

lemma text_of_shown_if [simp]: "text_of (shown_if b e) = (if b then text_of e else [])"
  by (simp add: shown_if_def)

lemma elements_elem [simp]:
  "elements p (elem t attrs cs) = (if p (elem t attrs cs) then [elem t attrs cs] else []) @ concat (map (elements p) cs)"
  by (simp add: elem_def)

lemma elements_shown_if [simp]: "elements p (shown_if b e) = (if b then elements p e else [])"
  by (simp add: shown_if_def)

lemma attribute_elem [simp]: "attribute k (elem t attrs cs) = map_of attrs (js k)"
  by (simp add: elem_def)

lemma truthy_text: "\<not> truthy e \<Longrightarrow> text_of e = []"
  by (cases e) simp_all

text \<open>A panel reads its eyebrow, its title, its actions and its body, in this order, whichever of
  them it was given.\<close>
lemma panel_text:
  "text_of (Panel title eyebrow actions children c b)
     = text_of eyebrow @ text_of title @ text_of actions @ concat (map text_of children)"
  using truthy_text [of title] truthy_text [of eyebrow] truthy_text [of actions] by (auto simp: Panel_def)

lemma tones_differ: "TONES s = TONES t \<longleftrightarrow> s = t"
  by (cases s; cases t) simp_all

lemma chip_tone: "attribute ''class'' (Chip (Some s) cs None) = attribute ''class'' (Chip (Some t) ds None) \<longleftrightarrow> s = t"
  by (simp add: Chip_def elem_def attr_def or_else_def tones_differ)

text \<open>A shortened id keeps the whole one within reach.\<close>
lemma id_span: "text_of (Id_Span (Some i) c) = shortId (Some i)" "attribute ''title'' (Id_Span (Some i) c) = Some i"
  by (simp_all add: Id_Span_def elem_def attr_opt_def)

end
