(* ===== verification/Routes.thy ===== *)
theory Routes
  imports Library Report Editor_View Primitives
begin

text \<open>
  The pages under \<open>app/\<close>, the frame of \<open>app/layout.tsx\<close>, the header of \<open>components/ConsoleHeader.tsx\<close> and the addresses the screens
  lead to. A page is a directory: its names are the pattern of its address, a bracketed name takes
  any segment, and of two directories that both fit the one with a fixed name where they differ
  wins, which is the rule of the framework. Segments are compared as they stand in the address;
  the theorems are about ids that no percent escape touches, which every UUID is.
\<close>

section \<open>The pages\<close>

datatype console_screen =
    Playbooks_Screen
  | Editor_Screen "uuid option" "uuid option"
  | Start_Screen
  | Runner_Screen uuid
  | Report_Screen uuid

text \<open>A page redirects, or renders a screen under a title, with what its \<open>Suspense\<close> says meanwhile.\<close>
datatype page = Redirect jstring | Render jstring "jstring option" console_screen

text \<open>The dot before the console's name.\<close>
definition titled :: "jstring \<Rightarrow> jstring" where
  "titled t = t @ js '' '' @ middot @ js '' Interbellum Console''"

definition Home :: page where "Home = Redirect (js ''/playbooks'')"

definition PlaybooksPage :: page where
  "PlaybooksPage = Render (titled (js ''Playbooks'')) (Some (js ''playbooks'')) Playbooks_Screen"

definition NewPlaybookPage :: page where
  "NewPlaybookPage = Render (titled (js ''Design a playbook'')) None (Editor_Screen None None)"

definition EditPlaybookVersionPage :: "uuid \<Rightarrow> uuid \<Rightarrow> page" where
  "EditPlaybookVersionPage playbookId versionId =
     Render (titled (js ''Edit playbook version'')) None (Editor_Screen (Some playbookId) (Some versionId))"

definition NewInvestigationPage :: page where
  "NewInvestigationPage =
     Render (titled (js ''Start investigation'')) (Some (js ''the ingestion form'')) Start_Screen"

definition InvestigationPage :: "uuid \<Rightarrow> page" where
  "InvestigationPage i = Render (titled (js ''Investigation'')) None (Runner_Screen i)"

definition ReportPage :: "uuid \<Rightarrow> page" where
  "ReportPage i = Render (titled (js ''Investigation report'')) None (Report_Screen i)"

section \<open>Addresses\<close>

text \<open>A directory name: fixed, or bracketed.\<close>
datatype dir = Fixed jstring | Any

fun fits_dirs :: "dir list \<Rightarrow> jstring list \<Rightarrow> bool" where
  "fits_dirs [] [] = True"
| "fits_dirs (Fixed d # ds) (s # ss) = (s = d \<and> fits_dirs ds ss)"
| "fits_dirs (Any # ds) (s # ss) = fits_dirs ds ss"
| "fits_dirs _ _ = False"

fun params_of :: "dir list \<Rightarrow> jstring list \<Rightarrow> jstring list" where
  "params_of (Fixed d # ds) (s # ss) = params_of ds ss"
| "params_of (Any # ds) (s # ss) = s # params_of ds ss"
| "params_of _ _ = []"

text \<open>The page of a directory, from the values of its bracketed names.\<close>
datatype page_file = App | Playbooks | Playbooks_New | Version_Edit | Investigations_New | Investigation | Investigation_Report

fun page_of :: "page_file \<Rightarrow> jstring list \<Rightarrow> page" where
  "page_of App _ = Home"
| "page_of Playbooks _ = PlaybooksPage"
| "page_of Playbooks_New _ = NewPlaybookPage"
| "page_of Version_Edit ids = EditPlaybookVersionPage (hd ids) (hd (tl ids))"
| "page_of Investigations_New _ = NewInvestigationPage"
| "page_of Investigation ids = InvestigationPage (hd ids)"
| "page_of Investigation_Report ids = ReportPage (hd ids)"

text \<open>The directories with a page, a fixed name before a bracketed one.\<close>
definition app_dirs :: "(dir list \<times> page_file) list" where
  "app_dirs =
     [([], App),
      ([Fixed (js ''playbooks'')], Playbooks),
      ([Fixed (js ''playbooks''), Fixed (js ''new'')], Playbooks_New),
      ([Fixed (js ''playbooks''), Any, Fixed (js ''versions''), Any, Fixed (js ''edit'')], Version_Edit),
      ([Fixed (js ''investigations''), Fixed (js ''new'')], Investigations_New),
      ([Fixed (js ''investigations''), Any], Investigation),
      ([Fixed (js ''investigations''), Any, Fixed (js ''report'')], Investigation_Report)]"

fun first_fit :: "(dir list \<times> page_file) list \<Rightarrow> jstring list \<Rightarrow> page option" where
  "first_fit [] ss = None"
| "first_fit ((ds, f) # rest) ss = (if fits_dirs ds ss then Some (page_of f (params_of ds ss)) else first_fit rest ss)"

definition page_at :: "jstring list \<Rightarrow> page option" where
  "page_at ss = first_fit app_dirs ss"

definition href_segments :: "jstring \<Rightarrow> jstring list" where
  "href_segments href = filter (\<lambda>s. s \<noteq> []) (split_on 47 (takeWhile (\<lambda>c. c \<noteq> 63) href))"

text \<open>Following a link: the screen it opens, a redirect taken, and the search parameters it finds.\<close>
definition follow :: "jstring \<Rightarrow> (console_screen \<times> search_params) option" where
  "follow href =
     (case page_at (href_segments href) of
        Some (Render _ _ s) \<Rightarrow> map_option (Pair s) (address_params href)
      | Some (Redirect to) \<Rightarrow>
          (case page_at (href_segments to) of
             Some (Render _ _ s) \<Rightarrow> map_option (Pair s) (address_params to)
           | _ \<Rightarrow> None)
      | None \<Rightarrow> None)"

section \<open>The header\<close>

record nav_item =
  nv_href :: jstring
  nv_label :: jstring
  nv_isActive :: "jstring \<Rightarrow> bool"

definition startsWith :: "jstring \<Rightarrow> jstring \<Rightarrow> bool" where
  "startsWith s p \<longleftrightarrow> take (length p) s = p"

definition NAV :: "nav_item list" where
  "NAV =
     [\<lparr>nv_href = js ''/playbooks'', nv_label = js ''Playbooks'',
       nv_isActive = (\<lambda>path. path = js ''/playbooks'')\<rparr>,
      \<lparr>nv_href = js ''/playbooks/new'', nv_label = js ''Design a playbook'',
       nv_isActive = (\<lambda>path. startsWith path (js ''/playbooks/''))\<rparr>,
      \<lparr>nv_href = js ''/investigations/new'', nv_label = js ''Start investigation'',
       nv_isActive = (\<lambda>path. startsWith path (js ''/investigations''))\<rparr>]"

definition nav_link :: "jstring \<Rightarrow> nav_item \<Rightarrow> react" where
  "nav_link pathname item =
     (let active = nv_isActive item pathname
      in elem ''a''
           (attr ''href'' (nv_href item) @ attr_opt ''aria-current'' (if active then Some (js ''page'') else None)
            @ attr ''class'' (js ''rounded-[2px] px-2.5 py-1 text-[13px] transition-colors ''
                @ (if active then js ''bg-signal-soft font-medium text-signal''
                   else js ''text-ink-muted hover:bg-sunken hover:text-ink'')))
           [Txt (nv_label item)])"

definition ConsoleHeader :: "jstring \<Rightarrow> react" where
  "ConsoleHeader pathname =
     elem ''header'' (attr ''class'' (js ''sticky top-0 z-20 border-b border-rule bg-panel''))
       [elem ''div'' (attr ''class'' (js ''mx-auto flex w-full max-w-[1440px] flex-wrap items-center gap-x-6 gap-y-2 px-4 py-2.5 sm:px-6 lg:px-8''))
          [elem ''a'' (attr ''href'' (js ''/playbooks'') @ attr ''class'' (js ''flex items-baseline gap-2''))
             [elem ''span'' (attr ''class'' (js ''font-mono text-[13px] font-medium tracking-[0.16em] text-ink''))
                [Txt (js ''INTERBELLUM'')],
              elem ''span'' (attr ''class'' (js ''label'')) [Txt (js ''Investigation console'')]],
           elem ''nav'' (attr ''class'' (js ''flex items-center gap-1'') @ attr ''aria-label'' (js ''Main''))
             (map (nav_link pathname) NAV),
           elem ''p'' (attr ''class'' (js ''ml-auto hidden text-[11px] text-ink-faint lg:block''))
             [Txt (js ''A client of the same API an automated agent calls. Nothing here is a private endpoint.'')]]]"

text \<open>The frame around every page; the class names of the two fonts come from the framework.\<close>
definition RootLayout :: "jstring \<Rightarrow> jstring \<Rightarrow> jstring \<Rightarrow> react list \<Rightarrow> react" where
  "RootLayout plexSans plexMono pathname children =
     elem ''html'' (attr ''lang'' (js ''en'') @ attr ''class'' (plexSans @ js '' '' @ plexMono))
       [elem ''body'' (attr ''class'' (js ''min-h-full''))
          [ConsoleHeader pathname,
           elem ''main'' (attr ''class'' (js ''mx-auto w-full max-w-[1440px] px-4 py-6 sm:px-6 lg:px-8'')) children]]"

definition is_current :: "react \<Rightarrow> bool" where
  "is_current e \<longleftrightarrow> attribute ''aria-current'' e \<noteq> None"

text \<open>The links marked as the current page: address and text.\<close>
definition current_links :: "react \<Rightarrow> (jstring option \<times> jstring) list" where
  "current_links e =
     map (\<lambda>l. (attribute ''href'' l, text_of l)) (elements is_current e)"

text \<open>The path of an address, as \<open>usePathname\<close> gives it.\<close>
definition pathname_of :: "jstring list \<Rightarrow> jstring" where
  "pathname_of ss = (if ss = [] then [47] else concat (map (Cons 47) ss))"

section \<open>Segments of the addresses the screens write\<close>

text \<open>An id as the server deals them: not empty, and nothing in it is escaped.\<close>
definition plain_id :: "uuid \<Rightarrow> bool" where
  "plain_id i \<longleftrightarrow> i \<noteq> [] \<and> list_all unreserved i"

lemma unreserved_apart:
  assumes "list_all unreserved s"
  shows "47 \<notin> set s" "63 \<notin> set s" "38 \<notin> set s" "61 \<notin> set s" "43 \<notin> set s" "37 \<notin> set s"
  using assms by (auto simp: list_all_iff unreserved_def)

lemma plain_js [simp]:
  "list_all unreserved (js ''playbooks'')" "list_all unreserved (js ''versions'')"
  "list_all unreserved (js ''new'')" "list_all unreserved (js ''edit'')"
  "list_all unreserved (js ''investigations'')" "list_all unreserved (js ''report'')"
  "list_all unreserved (js ''playbook'')" "list_all unreserved (js ''version'')"
  "list_all unreserved (js ''alert'')"
  by (simp_all add: js_simps unreserved_def)

lemma pathname_plain: "list_all (list_all unreserved) ss \<Longrightarrow> 63 \<notin> set (pathname_of ss)"
  using unreserved_apart(2) by (auto simp: pathname_of_def list_all_iff [of _ ss])

lemma split_pathname:
  "list_all (list_all unreserved) ss \<Longrightarrow> ss \<noteq> [] \<Longrightarrow> split_on 47 (pathname_of ss) = [] # ss"
proof (induction ss)
  case (Cons s ss)
  note apart = unreserved_apart(1) [of s]
  show ?case
  proof (cases "ss = []")
    case True
    with Cons.prems apart show ?thesis by (simp add: pathname_of_def split_on_plain)
  next
    case False
    with Cons have "split_on 47 (concat (map (Cons 47) ss)) = [] # ss" by (simp add: pathname_of_def)
    moreover obtain r where "concat (map (Cons 47) ss) = 47 # r" using False by (cases ss) simp_all
    ultimately show ?thesis
      using Cons.prems apart split_on_segment [of 47 s r] by (simp add: pathname_of_def split: list.splits)
  qed
qed simp

lemma segments_of_pathname:
  assumes "list_all plain_id ss"
  shows "href_segments (pathname_of ss) = ss" "href_segments (pathname_of ss @ 63 # q) = ss"
proof -
  have plain: "list_all (list_all unreserved) ss" and full: "filter (\<lambda>s. s \<noteq> []) ss = ss"
    using assms by (auto simp: list_all_iff plain_id_def intro: filter_True)
  have whole: "takeWhile (\<lambda>c. c \<noteq> 63) (pathname_of ss) = pathname_of ss"
    using pathname_plain [OF plain] by (intro takeWhile_eq_all_conv [THEN iffD2]) blast
  have cut: "takeWhile (\<lambda>c. c \<noteq> 63) (pathname_of ss @ 63 # q) = pathname_of ss"
    using pathname_plain [OF plain] by (subst takeWhile_append2) (auto simp: whole)
  have "filter (\<lambda>s. s \<noteq> []) (split_on 47 (pathname_of ss)) = ss"
    using split_pathname [OF plain] full by (cases "ss = []") (simp_all add: pathname_of_def)
  then show "href_segments (pathname_of ss) = ss" "href_segments (pathname_of ss @ 63 # q) = ss"
    by (simp_all only: href_segments_def whole cut)
qed

section \<open>Search strings the screens write by hand\<close>

text \<open>The template \<open>?k=v&k=v\<close> of the links.\<close>
definition template :: "search_params \<Rightarrow> jstring" where
  "template kvs = join_with [38] (map (\<lambda>(k, v). k @ 61 # v) kvs)"

lemma read_text_plain: "list_all unreserved t \<Longrightarrow> read_text t = Some t"
proof -
  assume t: "list_all unreserved t"
  then have "map (\<lambda>c. if c = 43 then 32 else c) t = t"
    using unreserved_apart(5) [OF t] by (intro map_idI) auto
  with t show ?thesis by (simp add: read_text_def decode_encode encode_plain)
qed

lemma read_pair_plain:
  assumes "list_all unreserved k" "list_all unreserved v"
  shows "read_pair (k @ 61 # v) = Some (k, v)"
proof -
  have "takeWhile (\<lambda>c. c \<noteq> 61) (k @ 61 # v) = k" "dropWhile (\<lambda>c. c \<noteq> 61) (k @ 61 # v) = 61 # v"
    using unreserved_apart(4) [OF assms(1)] by (subst takeWhile_append2 dropWhile_append2; auto)+
  with assms show ?thesis by (simp add: read_pair_def read_text_plain)
qed

lemma read_template:
  assumes "kvs \<noteq> []" "list_all (\<lambda>(k, v). list_all unreserved k \<and> list_all unreserved v) kvs"
  shows "read_search (template kvs) = Some kvs"
proof -
  let ?piece = "\<lambda>(k, v). k @ 61 # v"
  have "list_all (\<lambda>p. 38 \<notin> set p) (map ?piece kvs)"
    using assms(2) unreserved_apart(3) by (fastforce simp: list_all_iff)
  then have "split_on 38 (template kvs) = map ?piece kvs"
    unfolding template_def using assms(1) by (intro split_on_join) simp_all
  moreover have "filter (\<lambda>p. p \<noteq> []) (map ?piece kvs) = map ?piece kvs"
    by (rule filter_True) auto
  moreover have "read_pairs (map ?piece kvs) = Some kvs"
    using assms(2) by (induction kvs) (auto simp: read_pair_plain)
  ultimately show ?thesis by (simp add: read_search_def)
qed

text \<open>The search parameters of an address, whatever comes before them.\<close>
lemma address_params_after:
  assumes "63 \<notin> set path"
  shows "address_params path = Some []" "address_params (path @ 63 # q) = read_search q"
proof -
  have path: "dropWhile (\<lambda>c. c \<noteq> 63) path = []"
    using assms by (simp only: dropWhile_eq_Nil_conv) blast
  show "address_params path = Some []"
    by (simp only: address_params_def path) (simp add: read_search_def)
  have "dropWhile (\<lambda>c. c \<noteq> 63) (path @ 63 # q) = 63 # q"
    using path by (simp add: dropWhile_append dropWhile_eq_Nil_conv)
  then show "address_params (path @ 63 # q) = read_search q"
    by (simp add: address_params_def)
qed

section \<open>Where an address leads\<close>

lemmas page_defs = page_at_def app_dirs_def Home_def PlaybooksPage_def NewPlaybookPage_def
  EditPlaybookVersionPage_def NewInvestigationPage_def InvestigationPage_def ReportPage_def

lemma pages_at [simp]:
  "page_at [] = Some Home" "page_at [js ''playbooks''] = Some PlaybooksPage"
  "page_at [js ''playbooks'', js ''new''] = Some NewPlaybookPage"
  "page_at [js ''playbooks'', p, js ''versions'', v, js ''edit''] = Some (EditPlaybookVersionPage p v)"
  "page_at [js ''investigations'', js ''new''] = Some NewInvestigationPage"
  "page_at [js ''investigations'', i, js ''report''] = Some (ReportPage i)"
  "i \<noteq> js ''new'' \<Longrightarrow> page_at [js ''investigations'', i] = Some (InvestigationPage i)"
  by (simp_all add: page_at_def app_dirs_def)

text \<open>The order of the directories matters for one address only.\<close>
lemma dirs_exclusive:
  assumes "ss \<noteq> [js ''investigations'', js ''new'']"
  shows "length (filter (\<lambda>d. fits_dirs (fst d) ss) app_dirs) \<le> 1"
  using assms by (cases ss rule: remdups_adj.cases; cases "tl (tl ss)" rule: remdups_adj.cases)
    (auto simp: app_dirs_def)

text \<open>A link to a page that renders: its segments and its parameters.\<close>
lemma follow_plain:
  assumes "page_at ss = Some (Render t w s)" "list_all plain_id ss"
  shows "follow (pathname_of ss) = Some (s, [])"
    "follow (pathname_of ss @ 63 # q) = map_option (Pair s) (read_search q)"
proof -
  have "63 \<notin> set (pathname_of ss)"
    using assms(2) by (intro pathname_plain) (auto simp: list_all_iff plain_id_def)
  note after = address_params_after [OF this]
  show "follow (pathname_of ss) = Some (s, [])"
    "follow (pathname_of ss @ 63 # q) = map_option (Pair s) (read_search q)"
    using assms by (simp_all add: follow_def segments_of_pathname after)
qed

text \<open>The addresses the screens write, as segments and parameters.\<close>
lemma hrefs_are_paths:
  "editHref p v = pathname_of [js ''playbooks'', p, js ''versions'', v, js ''edit'']"
  "js ''/playbooks?playbook='' @ p @ js ''&version='' @ v
     = pathname_of [js ''playbooks''] @ 63 # template [(js ''playbook'', p), (js ''version'', v)]"
  "js ''/investigations/new?version='' @ v
     = pathname_of [js ''investigations'', js ''new''] @ 63 # template [(js ''version'', v)]"
  "js ''/investigations/'' @ i = pathname_of [js ''investigations'', i]"
  "js ''/investigations/'' @ i @ js ''/report'' = pathname_of [js ''investigations'', i, js ''report'']"
  by (simp_all add: editHref_def pathname_of_def template_def js_simps)

lemma plain_dirs [simp]:
  "plain_id (js ''playbooks'')" "plain_id (js ''versions'')" "plain_id (js ''edit'')"
  "plain_id (js ''investigations'')" "plain_id (js ''new'')" "plain_id (js ''report'')"
  by (simp_all add: plain_id_def)

lemma follow_edit:
  assumes "plain_id p" "plain_id v"
  shows "follow (editHref p v) = Some (Editor_Screen (Some p) (Some v), [])"
  unfolding hrefs_are_paths
  by (rule follow_plain(1) [where t = "titled (js ''Edit playbook version'')" and w = None])
    (use assms in \<open>simp_all add: EditPlaybookVersionPage_def\<close>)

lemma follow_library:
  assumes "plain_id p" "plain_id v"
  shows "follow (js ''/playbooks?playbook='' @ p @ js ''&version='' @ v)
    = Some (Playbooks_Screen, [(js ''playbook'', p), (js ''version'', v)])"
proof -
  have "read_search (template [(js ''playbook'', p), (js ''version'', v)])
      = Some [(js ''playbook'', p), (js ''version'', v)]"
    using assms by (intro read_template) (simp_all add: plain_id_def)
  with follow_plain(2) [OF pages_at(2) [unfolded PlaybooksPage_def]] show ?thesis
    unfolding hrefs_are_paths by simp
qed

lemma follow_start:
  assumes "plain_id v"
  shows "follow (js ''/investigations/new?version='' @ v) = Some (Start_Screen, [(js ''version'', v)])"
proof -
  have "read_search (template [(js ''version'', v)]) = Some [(js ''version'', v)]"
    using assms by (intro read_template) (simp_all add: plain_id_def)
  with follow_plain(2) [OF pages_at(5) [unfolded NewInvestigationPage_def]] show ?thesis
    unfolding hrefs_are_paths by simp
qed

lemma follow_runner:
  assumes "plain_id i" "i \<noteq> js ''new''"
  shows "follow (js ''/investigations/'' @ i) = Some (Runner_Screen i, [])"
  using follow_plain(1) [OF pages_at(7) [OF assms(2), unfolded InvestigationPage_def]] assms(1)
  by (simp add: hrefs_are_paths)

lemma follow_report:
  assumes "plain_id i"
  shows "follow (js ''/investigations/'' @ i @ js ''/report'') = Some (Report_Screen i, [])"
  using follow_plain(1) [OF pages_at(6) [unfolded ReportPage_def]] assms
  unfolding hrefs_are_paths(5) by simp

text \<open>An address with parameters written by \<open>URLSearchParams\<close>.\<close>
lemma follow_href_with:
  assumes "page_at ss = Some (Render t w s)" "list_all plain_id ss"
    "list_all (\<lambda>(k, v). well_formed k \<and> well_formed v) kvs"
  shows "follow (href_with (pathname_of ss) kvs) = Some (s, kvs)"
  using follow_plain [OF assms(1,2)] read_search_string [OF _ assms(3)]
  by (cases "kvs = []") (simp_all add: href_with_def)

section \<open>What opens\<close>

text \<open>A screen as it opens at its address.\<close>
datatype opened =
    Editing session
  | Browsing library
  | Ingesting ingest_screen
  | Running uuid
  | Reading uuid

fun open_screen :: "console_screen \<times> search_params \<Rightarrow> opened" where
  "open_screen (Editor_Screen p v, _) = Editing (initial_session p v)"
| "open_screen (Playbooks_Screen, params) =
     Browsing (initial_library (map_of params (js ''playbook'')) (map_of params (js ''version'')))"
| "open_screen (Start_Screen, params) =
     Ingesting (initial_ingest (map_of params (js ''alert'')) (map_of params (js ''version'')))"
| "open_screen (Runner_Screen i, _) = Running i"
| "open_screen (Report_Screen i, _) = Reading i"

definition visit :: "jstring \<Rightarrow> opened option" where
  "visit href = map_option open_screen (follow href)"

lemma visit_links:
  "plain_id p \<Longrightarrow> plain_id v \<Longrightarrow> visit (editHref p v) = Some (Editing (initial_session (Some p) (Some v)))"
  "plain_id p \<Longrightarrow> plain_id v \<Longrightarrow> visit (js ''/playbooks?playbook='' @ p @ js ''&version='' @ v)
     = Some (Browsing (initial_library (Some p) (Some v)))"
  "plain_id v \<Longrightarrow> visit (js ''/investigations/new?version='' @ v) = Some (Ingesting (initial_ingest None (Some v)))"
  "plain_id i \<Longrightarrow> i \<noteq> js ''new'' \<Longrightarrow> visit (js ''/investigations/'' @ i) = Some (Running i)"
  "plain_id i \<Longrightarrow> visit (js ''/investigations/'' @ i @ js ''/report'') = Some (Reading i)"
  using follow_runner [of i]
  by (simp_all add: visit_def follow_edit follow_library follow_start follow_report)

lemma visit_library:
  assumes "pred_option well_formed p" "pred_option well_formed v"
  shows "visit (library_href (p, v)) = Some (Browsing (initial_library p v))"
proof -
  have "list_all (\<lambda>(k, v). well_formed k \<and> well_formed v) (selection_params (p, v))"
    using assms by (auto simp: selection_params_def well_formed_plain split: option.split)
  moreover have "library_href (p, v) = href_with (pathname_of [js ''playbooks'']) (selection_params (p, v))"
    by (simp add: library_href_def pathname_of_def js_simps)
  ultimately have "follow (library_href (p, v)) = Some (Playbooks_Screen, selection_params (p, v))"
    using follow_href_with [OF pages_at(2) [unfolded PlaybooksPage_def]] by simp
  then show ?thesis by (auto simp: visit_def selection_params_def js_simps split: option.split)
qed

lemma visit_ingest:
  assumes "list_all (\<lambda>(k, v). well_formed k \<and> well_formed v) params"
  shows "visit (ingest_href params)
    = Some (Ingesting (initial_ingest (map_of params (js ''alert'')) (map_of params (js ''version''))))"
proof -
  have "ingest_href params = href_with (pathname_of [js ''investigations'', js ''new'']) params"
    by (simp add: ingest_href_def pathname_of_def js_simps)
  with follow_href_with [OF pages_at(5) [unfolded NewInvestigationPage_def] _ assms] show ?thesis
    by (simp add: visit_def)
qed

section \<open>Properties of the console as a whole\<close>

lemma current_header:
  "current_links (ConsoleHeader pathname)
     = map (\<lambda>item. (Some (nv_href item), nv_label item)) (filter (\<lambda>item. nv_isActive item pathname) NAV)"
proof -
  have one: "map (\<lambda>l. (attribute ''href'' l, text_of l)) (elements is_current (nav_link pathname item))
      = (if nv_isActive item pathname then [(Some (nv_href item), nv_label item)] else [])" for item
    by (simp add: nav_link_def Let_def attr_def attr_opt_def is_current_def)
  have "map (\<lambda>l. (attribute ''href'' l, text_of l))
        (concat (map (elements is_current) (map (nav_link pathname) items)))
      = map (\<lambda>item. (Some (nv_href item), nv_label item)) (filter (\<lambda>item. nv_isActive item pathname) items)" for items
    by (induction items) (simp_all add: one)
  then show ?thesis by (simp add: current_links_def ConsoleHeader_def attr_def is_current_def)
qed

text \<open>Whatever page an address opens, the header marks exactly one of its links as current: the one
  of the page's own part of the console.\<close>
theorem header_marks_one:
  assumes "page_at ss = Some (Render t w s)"
  shows "current_links (ConsoleHeader (pathname_of ss)) =
    [case s of
       Playbooks_Screen \<Rightarrow> (Some (js ''/playbooks''), js ''Playbooks'')
     | Editor_Screen _ _ \<Rightarrow> (Some (js ''/playbooks/new''), js ''Design a playbook'')
     | _ \<Rightarrow> (Some (js ''/investigations/new''), js ''Start investigation'')]"
  using assms unfolding current_header
  by (cases ss rule: remdups_adj.cases; cases "tl (tl ss)" rule: remdups_adj.cases)
    (auto simp: page_defs NAV_def startsWith_def pathname_of_def js_simps split: if_splits)

text \<open>The three links of the header open the three entrances of the console.\<close>
lemma header_links_open:
  "map (\<lambda>item. follow (nv_href item)) NAV =
     [Some (Playbooks_Screen, []), Some (Editor_Screen None None, []), Some (Start_Screen, [])]"
proof -
  have "map nv_href NAV = map pathname_of [[js ''playbooks''], [js ''playbooks'', js ''new''], [js ''investigations'', js ''new'']]"
    by (simp add: NAV_def pathname_of_def js_simps)
  then have "map (follow \<circ> nv_href) NAV
      = map (follow \<circ> pathname_of) [[js ''playbooks''], [js ''playbooks'', js ''new''], [js ''investigations'', js ''new'']]"
    by (simp flip: map_map)
  then show ?thesis
    using follow_plain(1) [OF pages_at(2) [unfolded PlaybooksPage_def]]
      follow_plain(1) [OF pages_at(3) [unfolded NewPlaybookPage_def]]
      follow_plain(1) [OF pages_at(5) [unfolded NewInvestigationPage_def]]
    by (simp add: comp_def)
qed

subsection \<open>Leaving the editor\<close>

text \<open>A clone or a creation under way was asked for, and the screen leaves for what it asked.\<close>
definition leaves_as_asked :: "session \<Rightarrow> bool" where
  "leaves_as_asked s \<longleftrightarrow>
     (let e = ss_screen s; asked = set (ss_log s) in
       (sc_cloning e \<longrightarrow> (\<exists>p v. sc_playbookId e = Some p \<and> sc_versionId e = Some v \<and> Create_Version p v \<in> asked))
       \<and> (sc_saving e \<and> sc_versionId e = None \<longrightarrow> (\<exists>b. Create_Playbook b \<in> asked))
       \<and> (\<forall>p' v'. ss_opened s = Some (p', v') \<longrightarrow>
            (case sc_versionId e of
               None \<Rightarrow> \<exists>b. Create_Playbook b \<in> asked
             | Some v \<Rightarrow> sc_playbookId e = Some p' \<and> Create_Version p' v \<in> asked)))"

lemma leaves_as_asked_frame:
  assumes "leaves_as_asked s" "ss_opened s' = None" "set (ss_log s) \<subseteq> set (ss_log s')"
    "sc_cloning (ss_screen s') \<longrightarrow> sc_cloning (ss_screen s)" "sc_saving (ss_screen s') \<longrightarrow> sc_saving (ss_screen s)"
    "sc_versionId (ss_screen s') = sc_versionId (ss_screen s)" "sc_playbookId (ss_screen s') = sc_playbookId (ss_screen s)"
  shows "leaves_as_asked s'"
  using assms unfolding leaves_as_asked_def Let_def by (metis option.distinct(1) subsetD)

lemma seed_effect_keeps:
  "sc_cloning (seed_effect e) = sc_cloning e" "sc_saving (seed_effect e) = sc_saving e"
  by (simp_all add: seed_effect_def split: option.split)

lemma leaves_as_asked_step:
  assumes "leaves_as_asked s" "session_step newId s ev = Some s'"
  shows "leaves_as_asked s'"
proof -
  have open_yet: "ss_opened s = None" and step: "editor_step newId (ss_screen s) ev s = Some s'"
    using assms(2) unfolding session_step_def by (metis option.distinct(1))+
  note frame = leaves_as_asked_frame [OF assms(1)]
  from step_props [OF step refl] have ids: "sc_versionId (ss_screen s') = sc_versionId (ss_screen s)"
    "sc_playbookId (ss_screen s') = sc_playbookId (ss_screen s)" by simp_all
  have quiet: ?thesis
    if "ss_opened s' = ss_opened s" "ss_log s' = ss_log s" "sc_cloning (ss_screen s') \<longrightarrow> sc_cloning (ss_screen s)"
      "sc_saving (ss_screen s') \<longrightarrow> sc_saving (ss_screen s)"
    by (rule frame) (use that open_yet ids in simp_all)
  show ?thesis
  proof (cases ev)
    case Press_Save
    obtain e' q where saved: "save (ss_screen s) = (e', q)" by (metis surj_pair)
    with step Press_Save have "s' = send (e', q) s" by (auto split: if_splits)
    with saved assms(1) open_yet show ?thesis
      by (auto simp: leaves_as_asked_def send_def Let_def elim!: save_cases split: option.splits)
  next
    case Press_Clone
    with step assms(1) open_yet show ?thesis
      by (auto simp: leaves_as_asked_def send_def Let_def startNewVersion_def split: if_splits option.splits)
  next
    case Press_Publish
    show ?thesis
      by (rule frame) (use step open_yet Press_Publish in
          \<open>auto simp: send_def publish_def split: if_splits option.splits\<close>)
  next
    case (Create_Answer res)
    with step assms(1) open_yet show ?thesis
      by (auto simp: leaves_as_asked_def land_def Let_def create_done_def split: if_splits sum.splits list.splits)
  next
    case (Clone_Answer res)
    with step assms(1) open_yet show ?thesis
      by (auto simp: leaves_as_asked_def land_def Let_def clone_done_def or_else_def split: if_splits sum.splits option.splits)
  next
    case (Put_Answer res)
    show ?thesis
      by (rule quiet) (use step Put_Answer in
          \<open>auto simp: show_editor_def seed_effect_keeps put_done_def split: if_splits sum.splits\<close>)
  next
    case (Publish_Answer res)
    show ?thesis
      by (rule quiet) (use step Publish_Answer in
          \<open>auto simp: show_editor_def seed_effect_keeps publish_done_def split: if_splits sum.splits\<close>)
  next
    case (Version_Answer res)
    show ?thesis
      by (rule quiet) (use step Version_Answer in \<open>auto simp: show_editor_def seed_effect_keeps split: option.splits\<close>)
  qed (rule quiet; use step in \<open>auto simp: show_editor_def mutate_def clearNameError_def clearAlertTypeError_def
      split: if_splits option.splits prod.splits\<close>)+
qed

interpretation leaving: machine_invariant "session_step newId" "honest_answer foreign newId" leaves_as_asked
  for newId foreign
  by unfold_locales (rule leaves_as_asked_step)

text \<open>Only the answer to a creation or to a clone navigates, and to what that answer names.\<close>
lemma navigation_cause:
  assumes "session_step newId s ev = Some s'" "ss_opened s' = Some (p', v')"
  shows "(sc_versionId (ss_screen s) = None \<and> (\<exists>created w ws. ev = editor_event.Create_Answer (Inr created)
        \<and> pb_versions created = w # ws \<and> p' = pb_id created \<and> v' = vs_id w))
    \<or> (\<exists>next. ev = Clone_Answer (Inr next) \<and> p' = or_else (sc_playbookId (ss_screen s)) [] \<and> v' = v_id next
        \<and> sc_cloning (ss_screen s))"
proof -
  have shut: "ss_opened s = None" and step: "editor_step newId (ss_screen s) ev s = Some s'"
    using assms(1) unfolding session_step_def by (metis option.distinct(1))+
  show ?thesis
  proof (cases ev)
    case (Create_Answer res)
    with step assms(2) show ?thesis
      by (cases res) (auto simp: land_def create_done_def split: if_splits list.splits)
  next
    case (Clone_Answer res)
    with step assms(2) show ?thesis
      by (cases res) (auto simp: land_def clone_done_def split: if_splits)
  qed (use step shut assms(2) in \<open>auto simp: show_editor_def send_def split: if_splits option.splits prod.splits\<close>)
qed

text \<open>C12. The editor goes on where it said it would. A session navigates only when the answer to a creation
  or to a clone arrives: a screen without a version that asked for a creation goes to the playbook that
  was created and its first version, a screen of a version that asked for a clone goes to the version
  the answer names, in its own playbook. The address it goes to opens the editor afresh on that
  playbook and that version, and whatever happens there, everything sent is about them. The two ids
  are taken to be plain ones, as every UUID is.\<close>
theorem editor_goes_on_where_it_said:
  assumes "session_reach foreign newId (initial_session p v) s" "session_step newId s ev = Some s'"
    "ss_opened s' = Some (p', v')" "plain_id p'" "plain_id v'"
  shows "(case v of
            None \<Rightarrow> \<exists>b created w ws. Create_Playbook b \<in> set (ss_log s) \<and> ev = editor_event.Create_Answer (Inr created)
              \<and> pb_versions created = w # ws \<and> p' = pb_id created \<and> v' = vs_id w
          | Some w \<Rightarrow> \<exists>next. Create_Version p' w \<in> set (ss_log s) \<and> p = Some p'
              \<and> ev = Clone_Answer (Inr next) \<and> v' = v_id next)
    \<and> visit (editHref p' v') = Some (Editing (initial_session (Some p') (Some v')))
    \<and> (\<forall>u. session_reach foreign newId (initial_session (Some p') (Some v')) u
          \<longrightarrow> list_all (legal_request (Some p') (Some v')) (ss_log u))"
proof -
  have "leaves_as_asked (initial_session p v)" by (simp add: leaves_as_asked_def initial_session_def)
  with assms(1) have asked: "leaves_as_asked s" by (rule leaving.holds)
  note asked' = leaves_as_asked_step [OF asked assms(2)]
  note ids = session_ids [OF assms(1)]
  have step: "editor_step newId (ss_screen s) ev s = Some s'" using assms(2) by (auto simp: session_step_def split: if_splits)
  from step_props [OF step refl] ids have ids': "sc_playbookId (ss_screen s') = p" "sc_versionId (ss_screen s') = v" by simp_all
  from asked' assms(3) ids' have log': "case v of None \<Rightarrow> \<exists>b. Create_Playbook b \<in> set (ss_log s')
      | Some w \<Rightarrow> p = Some p' \<and> Create_Version p' w \<in> set (ss_log s')"
    by (auto simp: leaves_as_asked_def Let_def)
  note cause = navigation_cause [OF assms(2,3)]
  then have "ss_log s' = ss_log s" using step by (auto simp: land_def split: if_splits)
  with log' cause ids asked have "case v of
            None \<Rightarrow> \<exists>b created w ws. Create_Playbook b \<in> set (ss_log s) \<and> ev = editor_event.Create_Answer (Inr created)
              \<and> pb_versions created = w # ws \<and> p' = pb_id created \<and> v' = vs_id w
          | Some w \<Rightarrow> \<exists>next. Create_Version p' w \<in> set (ss_log s) \<and> p = Some p'
              \<and> ev = Clone_Answer (Inr next) \<and> v' = v_id next"
    by (cases v) (auto simp: leaves_as_asked_def Let_def)
  with visit_links(1) [OF assms(4,5)] log_legal [of newId foreign "Some p'" "Some v'"] show ?thesis by blast
qed

lemma cloned_run:
  "\<exists>s s' next. session_reach {} (\<lambda>n. replicate n 65) (initial_session (Some (js ''p'')) (Some (js ''v''))) s
     \<and> session_step (\<lambda>n. replicate n 65) s (Clone_Answer (Inr next)) = Some s'
     \<and> ss_opened s' = Some (js ''p'', js ''w'')"
proof -
  let ?newId = "\<lambda>n. replicate n 65"
  let ?v = "\<lambda>v st. \<lparr>g_root = None, g_nodes = [], g_edges = [], v_id = v, v_playbook_id = js ''p'', v_version = 1,
      v_status = st, v_created_at = [], v_published_at = None\<rparr>"
  let ?evs = "[Version_Answer (Inr (?v (js ''v'') Published)), Press_Clone]"
  have "\<exists>s. run_session ?newId (initial_session (Some (js ''p'')) (Some (js ''v''))) ?evs = Some s
      \<and> sc_cloning (ss_screen s) \<and> sc_playbookId (ss_screen s) = Some (js ''p'') \<and> ss_opened s = None"
    by (simp add: session_run_defs can_clone_def startNewVersion_def draftFromDefinition_def)
  then obtain s where s: "run_session ?newId (initial_session (Some (js ''p'')) (Some (js ''v''))) ?evs = Some s"
    "sc_cloning (ss_screen s)" "sc_playbookId (ss_screen s) = Some (js ''p'')" "ss_opened s = None" by blast
  have "list_all (\<lambda>ev. \<forall>t. honest_answer {} ?newId t ev) ?evs"
    by (simp add: honest_answer_def stored_version_def coherent_graph_def graph_input.truncate_def)
  note reach = run_from_start [OF s(1) this]
  have "\<exists>s'. session_step ?newId s (Clone_Answer (Inr (?v (js ''w'') Draft))) = Some s' \<and> ss_opened s' = Some (js ''p'', js ''w'')"
    using s(2-4) by (simp add: session_step_def land_def clone_done_def)
  with reach show ?thesis by blast
qed

theorem editor_goes_on_where_it_said_witness:
  "\<exists>s s' next. session_reach {} (\<lambda>n. replicate n 65) (initial_session (Some (js ''p'')) (Some (js ''v''))) s
     \<and> session_step (\<lambda>n. replicate n 65) s (Clone_Answer (Inr next)) = Some s'
     \<and> ss_opened s' = Some (js ''p'', js ''w'') \<and> Create_Version (js ''p'') (js ''v'') \<in> set (ss_log s)
     \<and> visit (editHref (js ''p'') (js ''w'')) = Some (Editing (initial_session (Some (js ''p'')) (Some (js ''w''))))"
proof -
  obtain s s' "next" where s: "session_reach {} (\<lambda>n. replicate n 65) (initial_session (Some (js ''p'')) (Some (js ''v''))) s"
    "session_step (\<lambda>n. replicate n 65) s (Clone_Answer (Inr next)) = Some s'" "ss_opened s' = Some (js ''p'', js ''w'')"
    using cloned_run by blast
  have "plain_id (js ''p'')" "plain_id (js ''w'')"
    by (simp_all add: plain_id_def js_simps unreserved_def)
  from editor_goes_on_where_it_said [OF s this]
  have "Create_Version (js ''p'') (js ''v'') \<in> set (ss_log s)"
    "visit (editHref (js ''p'') (js ''w'')) = Some (Editing (initial_session (Some (js ''p'')) (Some (js ''w''))))"
    by auto
  with s show ?thesis by blast
qed

subsection \<open>Links and addresses\<close>

lemma editor_links:
  assumes "sc_versionId e = Some v"
  shows "pg_library (editor_page shown e)
      = Some (js ''/playbooks?playbook='' @ or_else (sc_playbookId e) [] @ js ''&version='' @ v)"
    "pred_option (\<lambda>(_, h). h = js ''/investigations/new?version='' @ v) (pg_frozen (editor_page shown e))"
  unfolding editor_page_def Let_def editor_page.simps by (simp_all add: assms or_else_def)

lemma landing_keeps [simp]:
  "li_playbookId (land_on_playbook s) = li_playbookId s" "li_versionId (land_on_playbook s) = li_versionId s"
  "li_playbookId (land_on_version s) = li_playbookId s" "li_versionId (land_on_version s) = li_versionId s"
  by (auto simp: land_on_playbook_def land_on_version_def select_def split: list.split option.split)

lemma arrive_at_takes: "li_playbookId (arrive_at (p, w) s) = p \<and> li_versionId (arrive_at (p, w) s) = w"
  by (simp add: arrive_at_def Let_def)

lemma mount_keeps [simp]:
  "ig_alertId (mount_candidates s) = ig_alertId s" "ig_preselected (mount_candidates s) = ig_preselected s"
  by (auto simp: mount_candidates_def split: option.split)

text \<open>C13. Every link opens what it names. From whichever screen it is followed (the library, the
  editor, the page of a mismatched version, a candidate of an alert, the report), a link about a
  version opens the editor, the library or the ingestion screen on that very version and its
  playbook, and a link about an investigation opens its runner or its report.\<close>
theorem links_open_what_they_name:
  assumes "plain_id (v_id v)" "plain_id (v_playbook_id v)" "plain_id i" "i \<noteq> js ''new''"
    "sc_playbookId e = Some (v_playbook_id v)" "sc_versionId e = Some (v_id v)"
    "cd_playbookId c = v_playbook_id v" "vs_id (cd_version c) = v_id v"
    "rp_playbook_version r = v" "rs_id (rp_investigation r) = i" "iv_id st = i"
  shows "(let edited = Editing (initial_session (Some (v_playbook_id v)) (Some (v_id v)));
        browsed = Browsing (initial_library (Some (v_playbook_id v)) (Some (v_id v)));
        begun = Ingesting (initial_ingest None (Some (v_id v)))
    in visit (vc_edit_href (version_card shown s v)) = Some edited
      \<and> visit (snd (snd (snd (mismatch_page q v)))) = Some edited
      \<and> pred_option (\<lambda>h. visit h = Some begun) (vc_investigate (version_card shown s v))
      \<and> pred_option (\<lambda>(_, h). visit h = Some begun) (pg_frozen (editor_page shown e))
      \<and> map_option visit (pg_library (editor_page shown e)) = Some (Some browsed)
      \<and> visit (rg_library_href (report_page lay shown spent r)) = Some browsed
      \<and> visit (cr_graph (candidate_row shown pre starting c)) = Some browsed
      \<and> visit (su_runner_href (summary_view shown spent r)) = Some (Running i)
      \<and> pred_option (\<lambda>h. visit h = Some (Reading i)) (hd_report_href (header_view shown st))
      \<and> visit (oc_report_href (outcome_view shown spent i resolution node started completed)) = Some (Reading i))"
proof -
  note links = visit_links(1,2) [OF assms(2,1)] visit_links(3) [OF assms(1)]
    visit_links(4) [OF assms(3,4)] visit_links(5) [OF assms(3)]
  have edit: "js ''/playbooks/'' @ p @ js ''/versions/'' @ w @ js ''/edit'' = editHref p w" for p w
    by (simp add: editHref_def)
  show ?thesis
    using links assms(5,7-) editor_links [OF assms(6), of shown]
    by (simp add: Let_def version_card_def mismatch_page_def report_page_def candidate_row_def
        summary_view_def header_view_def outcome_view_def edit or_else_def option.pred_set case_prod_unfold)
qed

text \<open>C14. What a navigation lands on is what a refresh of its address opens: the library and the
  ingestion screen, once they have taken an address, hold the selection that the address opens them
  with, whatever characters the ids are made of, so a refreshed, bookmarked or shared address shows
  the same playbook, version and alert.\<close>
theorem navigation_survives_reload:
  assumes "library_step s Arrive = Some s'" "pv = hd (li_goto s)"
    "pred_option well_formed (fst pv)" "pred_option well_formed (snd pv)"
    "ingest_step g ingest_event.Arrive = Some g'" "ig_goto g = Some params"
    "list_all (\<lambda>(k, w). well_formed k \<and> well_formed w) params"
  shows "visit (library_href pv) = Some (Browsing (initial_library (li_playbookId s') (li_versionId s')))
    \<and> visit (ingest_href params) = Some (Ingesting (initial_ingest (ig_alertId g') (ig_preselected g')))"
proof -
  obtain p w where pv: "pv = (p, w)" by (cases pv)
  have "li_playbookId s' = p \<and> li_versionId s' = w"
    using assms(1,2) pv by (auto simp: arrive_at_takes split: list.splits)
  moreover have "ig_alertId g' = map_of params (js ''alert'') \<and> ig_preselected g' = map_of params (js ''version'')"
    using assms(5,6) by (auto simp: ingest_step_def arrive_def Let_def split: if_splits)
  ultimately show ?thesis
    using visit_library [of p w] visit_ingest [OF assms(7)] assms(3,4) pv by simp
qed

theorem links_open_what_they_name_witness:
  "visit (su_runner_href (summary_view (\<lambda>_. []) (\<lambda>_ _. None) sample_report)) = Some (Running (js ''i''))
   \<and> visit (js ''/playbooks/p/versions/v/edit'') = Some (Editing (initial_session (Some (js ''p'')) (Some (js ''v''))))"
proof -
  let ?v = "(rp_playbook_version sample_report)\<lparr>v_id := js ''v'', v_playbook_id := js ''p''\<rparr>"
  let ?st = "\<lparr>iv_id = js ''i'', iv_alert = sample_alert, iv_playbook_version_id = js ''v'', iv_status = Completed,
      iv_current_node = g_nodes ?v ! 0, iv_available_choices = [], iv_final_resolution = None,
      iv_started_at = [], iv_completed_at = None, iv_steps = []\<rparr>"
  let ?c = "\<lparr>cd_playbookId = js ''p'', cd_playbookName = [], cd_playbookDescription = [],
      cd_version = \<lparr>vs_id = js ''v'', vs_version = 1, vs_status = Published, vs_created_at = [], vs_published_at = None\<rparr>\<rparr>"
  have "plain_id (v_id ?v)" "plain_id (v_playbook_id ?v)" "plain_id (js ''i'')" "js ''i'' \<noteq> js ''new''"
    by (simp_all add: plain_id_def js_simps unreserved_def)
  note all = links_open_what_they_name [OF this, of "ss_screen (initial_session (Some (js ''p'')) (Some (js ''v'')))" ?c
      "sample_report\<lparr>rp_playbook_version := ?v\<rparr>" ?st]
  from all [where shown = "\<lambda>_. []" and spent = "\<lambda>_ _. None"] show ?thesis
    by (simp add: Let_def initial_session_def sample_report_def summary_view_def version_card_def js_simps)
qed

theorem navigation_survives_reload_witness:
  "visit (library_href (Some (js ''a b''), None)) = Some (Browsing (initial_library (Some (js ''a b'')) None))
   \<and> visit (ingest_href [(js ''alert'', js ''a&b'')]) = Some (Ingesting (initial_ingest (Some (js ''a&b'')) None))"
proof -
  let ?s = "(initial_library None None)\<lparr>li_goto := [(Some (js ''a b''), None)]\<rparr>"
  let ?g = "(initial_ingest None None)\<lparr>ig_goto := Some [(js ''alert'', js ''a&b'')]\<rparr>"
  obtain s' where s': "library_step ?s library_event.Arrive = Some s'" "li_playbookId s' = Some (js ''a b'')" "li_versionId s' = None"
    by (simp add: arrive_at_def initial_library_def Let_def land_on_playbook_def land_on_version_def
        run_effect_def initial_resource_def)
  obtain g' where g': "ingest_step ?g ingest_event.Arrive = Some g'"
    "ig_alertId g' = Some (js ''a&b'')" "ig_preselected g' = None"
    by (simp add: ingest_step_def arrive_def mount_candidates_def initial_ingest_def Let_def
        run_effect_def initial_resource_def js_simps)
  have "pred_option well_formed (Some (js ''a b''))" "well_formed (js ''alert'')" "well_formed (js ''a&b'')"
    by (simp_all add: well_formed_def js_simps is_high_def is_low_def)
  with navigation_survives_reload [OF s'(1) _ _ _ g'(1), of "(Some (js ''a b''), None)"] s' g' show ?thesis by simp
qed

end
