(* ===== verification/Editor_Graph.thy ===== *)
theory Editor_Graph
  imports Editor_Edits
begin

text \<open>
  The specification the form's edits implement: a graph as a set of nodes, a map from edges to
  their ends, and an optional root. Every edit of the draft, which works on arrays by index, is
  one operation of this graph; the abstraction forgets texts and order.
\<close>

section \<open>Graphs\<close>

record plain_graph =
  gr_nodes :: "uuid set"
  gr_ends :: "uuid \<rightharpoonup> uuid \<times> uuid"
  gr_root :: "uuid option"

definition insert_node :: "uuid \<Rightarrow> plain_graph \<Rightarrow> plain_graph" where
  "insert_node x g =
     g\<lparr>gr_nodes := insert x (gr_nodes g),
       gr_root := (if gr_root g = None \<and> gr_nodes g = {} then Some x else gr_root g)\<rparr>"

text \<open>A node goes with every edge that touches it, and with its rootship.\<close>
definition delete_node :: "uuid \<Rightarrow> plain_graph \<Rightarrow> plain_graph" where
  "delete_node x g =
     \<lparr>gr_nodes = gr_nodes g - {x},
      gr_ends = (\<lambda>i. case gr_ends g i of None \<Rightarrow> None
                 | Some (a, b) \<Rightarrow> if a = x \<or> b = x then None else Some (a, b)),
      gr_root = (if gr_root g = Some x then None else gr_root g)\<rparr>"

definition set_ends :: "uuid \<Rightarrow> uuid option \<Rightarrow> uuid option \<Rightarrow> plain_graph \<Rightarrow> plain_graph" where
  "set_ends i a b g =
     g\<lparr>gr_ends := (gr_ends g)(i := map_option (\<lambda>(x, y). (or_else a x, or_else b y)) (gr_ends g i))\<rparr>"

definition insert_edge :: "uuid \<Rightarrow> uuid \<Rightarrow> plain_graph \<Rightarrow> plain_graph" where
  "insert_edge i a g = g\<lparr>gr_ends := (gr_ends g)(i \<mapsto> (a, []))\<rparr>"

definition delete_edge :: "uuid \<Rightarrow> plain_graph \<Rightarrow> plain_graph" where
  "delete_edge i g = g\<lparr>gr_ends := (gr_ends g)(i := None)\<rparr>"

definition choose_root :: "uuid option \<Rightarrow> plain_graph \<Rightarrow> plain_graph" where
  "choose_root r g = g\<lparr>gr_root := r\<rparr>"

section \<open>The graph of a draft\<close>

definition ends_of :: "edge_draft list \<Rightarrow> uuid \<rightharpoonup> uuid \<times> uuid" where
  "ends_of es = map_of (map (\<lambda>e. (ed_id e, ed_from e, ed_to e)) es)"

definition abs_draft :: "playbook_draft \<Rightarrow> plain_graph" where
  "abs_draft d = \<lparr>gr_nodes = draft_ids d, gr_ends = ends_of (pd_edges d), gr_root = null_if_blank (pd_root d)\<rparr>"

text \<open>The operation an edit of a draft stands for; ids come from the draft and the source.\<close>
fun graph_edit :: "(nat \<Rightarrow> uuid) \<Rightarrow> nat \<Rightarrow> playbook_draft \<Rightarrow> draft_edit \<Rightarrow> plain_graph \<Rightarrow> plain_graph" where
  "graph_edit newId n d (Add_Node kind) = insert_node (newId n)"
| "graph_edit newId n d (Update_Node i patch) = id"
| "graph_edit newId n d (Remove_Node i) = delete_node (nd_id (pd_nodes d ! i))"
| "graph_edit newId n d (Add_Edge f) = insert_edge (newId n) f"
| "graph_edit newId n d (Update_Edge i patch) = set_ends (ed_id (pd_edges d ! i)) (es_from patch) (es_to patch)"
| "graph_edit newId n d (Remove_Edge i) = delete_edge (ed_id (pd_edges d ! i))"
| "graph_edit newId n d (Set_Root r) = choose_root (null_if_blank r)"

section \<open>Each operation on arrays\<close>

lemma ends_of_simps [simp]:
  "ends_of [] = Map.empty"
  "ends_of (e # es) = (ends_of es)(ed_id e \<mapsto> (ed_from e, ed_to e))"
  by (simp_all add: ends_of_def)

lemma ends_of_None: "ends_of es i = None \<longleftrightarrow> i \<notin> ed_id ` set es"
  by (induction es) auto

lemma ends_of_append: "ends_of (us @ vs) = ends_of vs ++ ends_of us"
  by (simp add: ends_of_def)

lemma ends_filter:
  assumes "distinct (map ed_id es)"
  shows "ends_of (filter (\<lambda>e. ed_from e \<noteq> x \<and> ed_to e \<noteq> x) es) =
    (\<lambda>i. case ends_of es i of None \<Rightarrow> None | Some (a, b) \<Rightarrow> if a = x \<or> b = x then None else Some (a, b))"
  using assms
proof (induction es)
  case (Cons e es)
  then have "ends_of es (ed_id e) = None" by (simp add: ends_of_None)
  with Cons show ?case by (auto simp: fun_eq_iff)
qed simp

text \<open>An edge found by its index, with its id nowhere else in the list.\<close>
lemma edge_at:
  assumes "distinct (map ed_id es)" "k < length es"
  obtains us e vs where "es ! k = e" "es = us @ e # vs" "length us = k"
    "ends_of us (ed_id e) = None" "ends_of vs (ed_id e) = None"
proof -
  obtain us e vs where s: "es = us @ e # vs" "length us = k"
    using assms(2) id_take_nth_drop [of k es] by (metis length_take min.absorb4)
  from assms(1) have "ends_of us (ed_id e) = None" "ends_of vs (ed_id e) = None"
    unfolding s(1) by (auto simp: ends_of_None)
  then show thesis using that [of e us vs] s by auto
qed

lemma ends_remove:
  assumes "distinct (map ed_id es)" "k < length es"
  shows "ends_of (remove_at k es) = (ends_of es)(ed_id (es ! k) := None)"
  using assms
proof (rule edge_at)
  fix us e vs
  assume s: "es ! k = e" "es = us @ e # vs" "length us = k"
    "ends_of us (ed_id e) = None" "ends_of vs (ed_id e) = None"
  have "remove_at k es = us @ vs" unfolding s(2) by (simp add: remove_at_def s(3) [symmetric])
  then show ?thesis unfolding s(1)
    using s(4,5) by (auto simp: s(2) ends_of_append fun_eq_iff map_add_def split: option.split)
qed

lemma ends_update:
  assumes "distinct (map ed_id es)" "k < length es" "ed_id (f (es ! k)) = ed_id (es ! k)"
  shows "ends_of (update_at k f es) =
    (ends_of es)(ed_id (es ! k) \<mapsto> (ed_from (f (es ! k)), ed_to (f (es ! k))))"
  using assms(1,2)
proof (rule edge_at)
  fix us e vs
  assume s: "es ! k = e" "es = us @ e # vs" "length us = k"
    "ends_of us (ed_id e) = None" "ends_of vs (ed_id e) = None"
  have "update_at k f es = us @ f e # vs"
    unfolding s(2) by (simp add: update_at_list_update s(3) [symmetric])
  then show ?thesis using s(4,5) assms(3) unfolding s(1)
    by (auto simp: s(2) ends_of_append fun_eq_iff map_add_def split: option.split)
qed

lemma ends_at:
  assumes "distinct (map ed_id es)" "k < length es"
  shows "ends_of es (ed_id (es ! k)) = Some (ed_from (es ! k), ed_to (es ! k))"
  using assms by (rule edge_at) (auto simp: ends_of_append map_add_def)

section \<open>Each edit\<close>

lemma good_edges:
  assumes "fresh_source foreign newId" "good_draft foreign newId n d"
  shows "distinct (map ed_id (pd_edges d))" "newId n \<notin> ed_id ` set (pd_edges d)"
proof -
  have "id_supply.keyed (drawn foreign newId) ed_id n (pd_edges d)"
    using assms(2) by (simp add: good_draft_def keyed_draft_def)
  from id_supply.keyed_distinct [OF source_supply this] id_supply.keyed_fresh [OF source_supply this draw_next]
  show "distinct (map ed_id (pd_edges d))" "newId n \<notin> ed_id ` set (pd_edges d)"
    using assms(1) by blast+
qed

lemma removed_nodes:
  assumes "fresh_source foreign newId" "good_draft foreign newId n d" "i < length (pd_nodes d)"
  shows "draft_ids (removeNode i d) = draft_ids d - {nd_id (pd_nodes d ! i)}"
proof -
  have "id_supply.keyed (drawn foreign newId) nd_id n (pd_nodes d)"
    using assms(2) by (simp add: good_draft_def keyed_draft_def)
  then have "distinct (map nd_id (pd_nodes d))"
    by (rule id_supply.keyed_distinct [OF source_supply [OF assms(1)]])
  then have "set (remove_at i (map nd_id (pd_nodes d))) = set (map nd_id (pd_nodes d)) - {nd_id (pd_nodes d ! i)}"
    using assms(3) by (subst set_remove_at_distinct) simp_all
  then show ?thesis by (simp add: draft_ids_def removeNode_def Let_def map_remove_at [symmetric])
qed

lemma updated_nodes: "draft_ids (updateNode i patch d) = draft_ids d"
proof -
  have "map nd_id (update_at i (patch_node patch) (pd_nodes d)) = map nd_id (pd_nodes d)"
    by (rule map_update_at) (simp add: patch_node_def)
  then show ?thesis unfolding draft_ids_def updateNode_def by (simp flip: set_map)
qed

lemma add_node_graph:
  assumes "newId n \<noteq> []"
  shows "abs_draft (fst (addNode newId kind d n)) = insert_node (newId n) (abs_draft d)"
  using assms
  by (auto simp: addNode_def abs_draft_def insert_node_def newNodeDraft_def draft_ids_def null_if_blank_def Let_def)

lemma remove_node_graph:
  assumes "fresh_source foreign newId" "good_draft foreign newId n d" "i < length (pd_nodes d)"
  shows "abs_draft (removeNode i d) = delete_node (nd_id (pd_nodes d ! i)) (abs_draft d)"
  using removed_nodes [OF assms] good_edges [OF assms(1,2)]
  by (auto simp: abs_draft_def delete_node_def removeNode_def Let_def ends_filter null_if_blank_def)

lemma add_edge_graph:
  assumes "newId n \<notin> ed_id ` set (pd_edges d)"
  shows "abs_draft (fst (addEdge newId f d n)) = insert_edge (newId n) f (abs_draft d)"
  using assms
  by (auto simp: abs_draft_def insert_edge_def addEdge_def newEdgeDraft_def ends_of_append fun_eq_iff
      map_add_def ends_of_None [symmetric] split: option.split)

lemma update_edge_graph:
  assumes "distinct (map ed_id (pd_edges d))" "i < length (pd_edges d)"
  shows "abs_draft (updateEdge i patch d)
    = set_ends (ed_id (pd_edges d ! i)) (es_from patch) (es_to patch) (abs_draft d)"
  using assms by (simp add: abs_draft_def set_ends_def updateEdge_def ends_update ends_at)

text \<open>C8. The arrays the editor keeps implement a graph. Whatever edit the controls offer, the
  draft it leaves is the draft of the graph operation the edit stands for: adding a node inserts
  it and makes it the root of an empty graph; removing one by its index deletes the node, every
  edge that touches it and its rootship; editing a node's texts changes nothing; an edge row
  inserts, moves or deletes one edge and leaves the ends of every other edge alone. Ids are
  assumed to be fresh and not blank.\<close>
theorem edit_refines_graph:
  assumes "fresh_source foreign newId" "[] \<in> foreign" "good_draft foreign newId n d" "offered d ed"
  shows "abs_draft (fst (edit_draft newId ed d n)) = graph_edit newId n d ed (abs_draft d)"
proof (cases ed)
  case (Add_Node kind)
  have "newId n \<noteq> []" using assms(1,2) by (metis disjoint_iff fresh_source_def rangeI)
  with Add_Node show ?thesis by (simp add: add_node_graph)
next
  case (Update_Node i patch)
  with updated_nodes [of i patch d] show ?thesis by (simp add: abs_draft_def updateNode_def)
next
  case (Remove_Node i)
  with assms show ?thesis by (simp add: remove_node_graph)
next
  case (Add_Edge f)
  with good_edges [OF assms(1,3)] show ?thesis by (simp add: add_edge_graph)
next
  case (Update_Edge i patch)
  with assms(4) good_edges [OF assms(1,3)] show ?thesis by (simp add: update_edge_graph)
next
  case (Remove_Edge i)
  with assms(4) good_edges [OF assms(1,3)] show ?thesis
    by (simp add: abs_draft_def removeEdge_def delete_edge_def ends_remove)
next
  case (Set_Root r)
  then show ?thesis by (simp add: abs_draft_def setRoot_def choose_root_def)
qed

text \<open>A draft of two nodes and an edge between them; removing its root empties the graph's edges.\<close>
definition two_nodes :: playbook_draft where
  "two_nodes = \<lparr>pd_root = js ''a'',
     pd_nodes = [newNodeDraft \<lparr>ns_kind = Some Decision, ns_title = None, ns_description = None,
         ns_terminal_resolution = None, ns_metadata = None\<rparr> (js ''a''),
       newNodeDraft \<lparr>ns_kind = Some Terminal, ns_title = None, ns_description = None,
         ns_terminal_resolution = None, ns_metadata = None\<rparr> (js ''b'')],
     pd_edges = [newEdgeDraft \<lparr>es_from = Some (js ''a''), es_to = Some (js ''b''), es_label = None,
         es_description = None, es_sort_order = None\<rparr> (js ''c'')]\<rparr>"

theorem edit_refines_graph_witness:
  "abs_draft (fst (edit_draft (\<lambda>n. replicate (n + 2) 65) (Remove_Node 0) two_nodes 0))
     = \<lparr>gr_nodes = {js ''b''}, gr_ends = Map.empty, gr_root = None\<rparr>"
proof -
  let ?newId = "\<lambda>n. replicate (n + 2) 65"
  let ?foreign = "{[], js ''a'', js ''b'', js ''c''}"
  have fresh: "fresh_source ?foreign ?newId"
    by (auto simp: fresh_source_def inj_def js_def dest: arg_cong [where f = length])
  have "id_supply.keyed (drawn ?foreign ?newId) nd_id 0 (pd_nodes two_nodes)"
    "id_supply.keyed (drawn ?foreign ?newId) ed_id 0 (pd_edges two_nodes)"
    unfolding id_supply.keyed_def [OF source_supply [OF fresh]]
    by (simp_all add: drawn_def two_nodes_def newNodeDraft_def newEdgeDraft_def js_def)
  then have "good_draft ?foreign ?newId 0 two_nodes"
    by (simp add: good_draft_def keyed_draft_def closed_draft_def two_nodes_def draft_ids_def
        newNodeDraft_def newEdgeDraft_def)
  from edit_refines_graph [OF fresh _ this, of "Remove_Node 0"] show ?thesis
    by (simp add: two_nodes_def abs_draft_def delete_node_def draft_ids_def newNodeDraft_def newEdgeDraft_def
        js_def fun_eq_iff)
qed

end
