(* ===== verification/Decision_View.thy ===== *)
theory Decision_View
  imports Decision Primitives
begin

text \<open>
  What \<open>components/DecisionForm.tsx\<close> and \<open>components/EvidenceEditor.tsx\<close> put on the screen, as
  element trees over the form's state, and that the screen says what the form holds: the choice
  picked, whether it may be submitted, and each problem of the evidence at its own control.
\<close>

section \<open>The evidence editor\<close>

definition bool_text :: "bool \<Rightarrow> jstring" where
  "bool_text b = (if b then js ''true'' else js ''false'')"

text \<open>\<open>Boolean(message)\<close>: there and not empty.\<close>
definition said :: "jstring option \<Rightarrow> bool" where
  "said m \<longleftrightarrow> m \<noteq> None \<and> m \<noteq> Some []"

definition FieldError :: "jstring option \<Rightarrow> react" where
  "FieldError message =
     shown_if (said message)
       (elem ''p'' (attr ''role'' (js ''alert'') @ attr ''class'' (js ''mt-1 text-[11.5px] leading-snug text-alarm''))
         [Txt (or_else message [])])"

text \<open>The three controls of a row, each labelled and followed by its error.\<close>
definition type_field :: "nat \<Rightarrow> evidence_draft \<Rightarrow> evidence_error list \<Rightarrow> bool \<Rightarrow> react" where
  "type_field index draft errors disabled =
     (let message = evidence_errorFor errors index EvType; i = ev_key draft @ js ''-type''
      in LabelledField (js ''Type'') Nothing (Some i)
           [TextInput (Some (js ''font-mono !text-[12px]''))
              (attr ''id'' i @ attr ''value'' (ev_type draft) @ flag ''disabled'' disabled
               @ attr ''placeholder'' (js ''asset_inventory_lookup'') @ attr ''aria-invalid'' (bool_text (said message))),
            FieldError message] None)"

definition summary_field :: "nat \<Rightarrow> evidence_draft \<Rightarrow> evidence_error list \<Rightarrow> bool \<Rightarrow> react" where
  "summary_field index draft errors disabled =
     (let message = evidence_errorFor errors index EvSummary; i = ev_key draft @ js ''-summary''
      in LabelledField (js ''Summary'') Nothing (Some i)
           [TextInput None
              (attr ''id'' i @ attr ''value'' (ev_summary draft) @ flag ''disabled'' disabled
               @ attr ''placeholder'' (js ''10.20.1.44 maps to ENG-WS-14'') @ attr ''aria-invalid'' (bool_text (said message))),
            FieldError message] None)"

definition data_example :: jstring where
  "data_example = js ''{ '' @ [34] @ js ''asset'' @ [34] @ js '': '' @ [34] @ js ''ENG-WS-14'' @ [34] @ js '', '' @ [34]
     @ js ''trusted'' @ [34] @ js '': true }''"

definition data_field :: "nat \<Rightarrow> evidence_draft \<Rightarrow> evidence_error list \<Rightarrow> bool \<Rightarrow> react" where
  "data_field index draft errors disabled =
     (let message = evidence_errorFor errors index EvData; i = ev_key draft @ js ''-data''
      in LabelledField (js ''Data (JSON object, optional)'') Nothing (Some i)
           [TextArea (Some (js ''font-mono !text-[11.5px]''))
              (attr ''id'' i @ attr ''rows'' (js ''3'') @ attr ''value'' (ev_data draft) @ flag ''disabled'' disabled
               @ attr ''spellcheck'' (js ''false'') @ attr ''placeholder'' data_example
               @ attr ''aria-invalid'' (bool_text (said message))),
            FieldError message] (Some (js ''mt-2'')))"

definition evidence_item_row :: "evidence_error list \<Rightarrow> bool \<Rightarrow> nat \<Rightarrow> evidence_draft \<Rightarrow> react" where
  "evidence_item_row errors disabled index draft =
     elem ''li'' (attr ''class'' (js ''rounded-[2px] border border-rule bg-sunken p-2.5''))
       [elem ''div'' (attr ''class'' (js ''mb-2 flex items-center gap-2''))
          [elem ''span'' (attr ''class'' (js ''label'')) [Txt (js ''Item ''), Txt (nat_text (index + 1))],
           Button (Some Quiet) (Some (js ''ml-auto !py-0.5 !text-[12px]''))
             (attr ''type'' (js ''button'') @ flag ''disabled'' disabled) [Txt (js ''Remove'')]],
        elem ''div'' (attr ''class'' (js ''grid gap-2 sm:grid-cols-[200px_minmax(0,1fr)]''))
          [type_field index draft errors disabled, summary_field index draft errors disabled],
        data_field index draft errors disabled]"

definition EvidenceEditor :: "evidence_draft list \<Rightarrow> evidence_error list \<Rightarrow> bool \<Rightarrow> react" where
  "EvidenceEditor drafts errors disabled =
     elem ''div'' (attr ''class'' (js ''space-y-2''))
       [elem ''div'' (attr ''class'' (js ''flex items-center gap-2''))
          [elem ''span'' (attr ''class'' (js ''label'')) [Txt (js ''Evidence'')],
           elem ''span'' (attr ''class'' (js ''text-[11.5px] text-ink-faint''))
             [Txt (if drafts = [] then js ''Optional, but it is what makes the step reviewable later.''
                   else nat_text (length drafts) @ js '' item'' @ (if length drafts = 1 then [] else js ''s''))],
           Button (Some Quiet) (Some (js ''ml-auto''))
             (attr ''type'' (js ''button'') @ flag ''disabled'' disabled) [Txt (js ''+ Add evidence'')]],
        shown_if (drafts \<noteq> [])
          (elem ''ul'' (attr ''class'' (js ''space-y-2'')) (map_idx 0 (evidence_item_row errors disabled) drafts))]"

section \<open>The decision form\<close>

definition choice_button :: "bool \<Rightarrow> available_choice \<Rightarrow> react" where
  "choice_button active choice =
     elem ''button''
      (attr ''type'' (js ''button'') @ attr ''aria-pressed'' (bool_text active)
       @ attr ''class'' (js ''w-full rounded-[2px] border px-3 py-2.5 text-left transition-colors ''
           @ (if active then js ''border-signal bg-signal-soft''
              else js ''border-rule-strong bg-panel hover:border-ink-faint hover:bg-sunken'')
           @ js '' disabled:opacity-60''))
      [elem ''span'' (attr ''class'' (js ''flex items-center gap-2''))
         [elem ''span''
            (attr ''class'' (js ''inline-flex h-4 w-4 shrink-0 items-center justify-center rounded-full border ''
                @ (if active then js ''border-signal bg-signal'' else js ''border-rule-strong''))
             @ attr ''aria-hidden'' (js ''true''))
            [shown_if active (elem ''span'' (attr ''class'' (js ''h-1.5 w-1.5 rounded-full bg-white'')) [])],
          elem ''span''
            (attr ''class'' (js ''text-[14px] font-semibold '' @ (if active then js ''text-signal'' else js ''text-ink'')))
            [Txt (ch_label choice)]],
       shown_if (said (ch_description choice))
         (elem ''span'' (attr ''class'' (js ''mt-1 block pl-6 text-[12px] leading-snug text-ink-muted''))
           [Txt (or_else (ch_description choice) [])])]"

definition choice_item :: "decision_form \<Rightarrow> available_choice \<Rightarrow> react" where
  "choice_item f choice = elem ''li'' [] [choice_button (Some (ch_edge_id choice) = df_edgeId f) choice]"

definition choices_list :: "available_choice list \<Rightarrow> decision_form \<Rightarrow> react" where
  "choices_list choices f =
     elem ''div'' []
       [elem ''p'' (attr ''class'' (js ''label mb-1.5'')) [Txt (js ''Choices from this node'')],
        elem ''ul'' (attr ''class'' (js ''grid gap-2 sm:grid-cols-2'')) (map (choice_item f) choices)]"

definition actor_fields :: "decision_form \<Rightarrow> react" where
  "actor_fields f =
     elem ''div'' (attr ''class'' (js ''grid gap-3 sm:grid-cols-[160px_minmax(0,1fr)]''))
       [LabelledField (js ''Actor type'') Nothing (Some (js ''actor-type''))
          [Select None (attr ''id'' (js ''actor-type'') @ attr ''value'' (actor_type_text (df_actorType f)))
             (map (\<lambda>t. elem ''option'' (attr ''value'' (actor_type_text t)) [Txt (actor_type_text t)]) [Human, Agent])] None,
        LabelledField (js ''Actor id'')
          (Txt (js ''Self-reported here. Behind an authenticating gateway this would come from the principal, not the request.''))
          (Some (js ''actor-id''))
          [TextInput (Some (js ''font-mono''))
             (attr ''id'' (js ''actor-id'') @ attr ''value'' (df_actorId f)
              @ attr ''placeholder'' (js ''analyst / investigation-agent-v1''))] None]"

definition rationale_field :: "decision_form \<Rightarrow> react" where
  "rationale_field f =
     LabelledField (js ''Rationale'') (Txt (js ''Free text. This is the sentence an auditor reads years from now.''))
       (Some (js ''rationale''))
       [TextArea None
          (attr ''id'' (js ''rationale'') @ attr ''rows'' (js ''3'') @ attr ''value'' (df_rationale f)
           @ attr ''placeholder'' (js ''Why this choice, given the evidence gathered.''))] None"

text \<open>\<open>!edgeId\<close>: none picked, or an empty one.\<close>
definition submit_disabled :: "decision_form \<Rightarrow> bool" where
  "submit_disabled f \<longleftrightarrow> df_submitting f \<or> \<not> said (df_edgeId f)"

definition submit_bar :: "available_choice list \<Rightarrow> decision_form \<Rightarrow> react" where
  "submit_bar choices f =
     elem ''div'' (attr ''class'' (js ''flex flex-wrap items-center gap-3 border-t border-rule pt-3''))
       [Button (Some Primary) None (attr ''type'' (js ''submit'') @ flag ''disabled'' (submit_disabled f))
          [Txt (if df_submitting f then js ''Recording decision'' @ ellipsis else js ''Record decision'')],
        (case selected_choice choices f of
           Some c \<Rightarrow>
             elem ''p'' (attr ''class'' (js ''text-[12.5px] text-ink-muted''))
               [Txt (js ''Selecting edge ''), Chip (Some Tone_Signal) [Txt (ch_label c)] None, Txt (js '' ''),
                elem ''span'' (attr ''class'' (js ''font-mono text-[11px] text-ink-faint'')) [Txt (ch_edge_id c)],
                Txt (js ''. The server derives the next node.'')]
         | None \<Rightarrow>
             elem ''p'' (attr ''class'' (js ''text-[12.5px] text-ink-faint''))
               [Txt (js ''Pick a choice above to enable the submission.'')]),
        shown_if (df_submitting f)
          (elem ''p'' (attr ''role'' (js ''status'') @ attr ''class'' (js ''label ml-auto !text-signal''))
            [Txt (js ''Submitting '' @ em_dash @ js '' controls locked'')])]"

text \<open>The form; \<open>notice\<close> is how an error is shown (\<open>ErrorNotice\<close>).\<close>
definition DecisionForm :: "(thrown \<Rightarrow> react) \<Rightarrow> available_choice list \<Rightarrow> decision_form \<Rightarrow> react" where
  "DecisionForm notice choices f =
     elem ''form'' (attr ''class'' (js ''space-y-4''))
       [elem ''fieldset'' (flag ''disabled'' (df_submitting f) @ attr ''class'' (js ''space-y-4''))
          [choices_list choices f, actor_fields f, rationale_field f,
           EvidenceEditor (df_evidence f) (df_evidenceErrors f) (df_submitting f)],
        (case df_error f of None \<Rightarrow> Nothing | Some err \<Rightarrow> notice err),
        submit_bar choices f]"

section \<open>What the screen says\<close>

definition is_alert :: "react \<Rightarrow> bool" where
  "is_alert e \<longleftrightarrow> attribute ''role'' e = Some (js ''alert'')"

definition alerts_in :: "react \<Rightarrow> jstring list" where
  "alerts_in e = map text_of (elements is_alert e)"

lemma alerts_FieldError:
  "alerts_in (FieldError m) = (if said m then [or_else m []] else [])"
  by (simp add: alerts_in_def FieldError_def is_alert_def attr_def)

lemma alerts_fields:
  "alerts_in (type_field i d errs dis) = alerts_in (FieldError (evidence_errorFor errs i EvType))"
  "alerts_in (summary_field i d errs dis) = alerts_in (FieldError (evidence_errorFor errs i EvSummary))"
  "alerts_in (data_field i d errs dis) = alerts_in (FieldError (evidence_errorFor errs i EvData))"
  by (simp_all add: alerts_in_def type_field_def summary_field_def data_field_def LabelledField_def TextInput_def
      TextArea_def Let_def is_alert_def attr_def attr_opt_def flag_def shown_if_def)

lemma alerts_row:
  "alerts_in (evidence_item_row errs dis i d)
     = concat (map (\<lambda>k. alerts_in (FieldError (evidence_errorFor errs i k))) [EvType, EvSummary, EvData])"
  unfolding alerts_fields(1) [of i d errs dis, symmetric] alerts_fields(2) [of i d errs dis, symmetric]
    alerts_fields(3) [of i d errs dis, symmetric] list.map concat.simps
  by (simp add: alerts_in_def evidence_item_row_def Button_def is_alert_def attr_def flag_def)

lemma evidence_errorFor_append:
  assumes "list_all (\<lambda>e. ee_index e \<noteq> i) pre"
  shows "evidence_errorFor (pre @ errs) i k = evidence_errorFor errs i k"
    "evidence_errorFor (errs @ pre) i k = evidence_errorFor errs i k"
  using assms by (induction pre; induction errs; auto simp: evidence_errorFor_def)+

text \<open>The problems of one row, in the order of its controls.\<close>
lemma row_shape:
  obtains a b c where "c \<noteq> Some []"
    "fst (evidence_row i d) =
       (if a then [evidence_error i EvType (js ''Type is required.'')] else [])
       @ (if b then [evidence_error i EvSummary (js ''Summary is required.'')] else [])
       @ (case c of None \<Rightarrow> [] | Some m \<Rightarrow> [evidence_error i EvData m])"
proof (cases "trim (ev_type d) = [] \<and> trim (ev_summary d) = [] \<and> trim (ev_data d) = []")
  case True
  then show ?thesis by (intro that [of None False False]) (simp_all add: evidence_row_def)
next
  case False
  let ?a = "trim (ev_type d) = []" and ?b = "trim (ev_summary d) = []"
  show ?thesis
  proof (cases "trim (ev_data d) = []")
    case True
    with False show ?thesis by (intro that [of None ?a ?b]) (simp_all add: evidence_row_def)
  next
    case data: False
    show ?thesis
    proof (cases "parse_json (trim (ev_data d))")
      case None
      with data show ?thesis
        by (intro that [of "Some (js ''Data is not valid JSON.'')" ?a ?b]) (simp_all add: evidence_row_def)
    next
      case (Some v)
      show ?thesis
      proof (cases "\<exists>kvs. v = JObj kvs")
        case True
        with Some data show ?thesis by (intro that [of None ?a ?b]) (auto simp: evidence_row_def)
      next
        case no_object: False
        with Some data show ?thesis
          by (intro that [of "Some data_not_object" ?a ?b], simp add: data_not_object_def)
            (cases v; simp add: evidence_row_def)
      qed
    qed
  qed
qed

lemma alerts_own_row:
  "concat (map (\<lambda>k. alerts_in (FieldError (evidence_errorFor (fst (evidence_row i d)) i k))) [EvType, EvSummary, EvData])
     = map ee_message (fst (evidence_row i d))"
proof -
  obtain a b c where "c \<noteq> Some []" and row: "fst (evidence_row i d) =
       (if a then [evidence_error i EvType (js ''Type is required.'')] else [])
       @ (if b then [evidence_error i EvSummary (js ''Summary is required.'')] else [])
       @ (case c of None \<Rightarrow> [] | Some m \<Rightarrow> [evidence_error i EvData m])" by (rule row_shape)
  then show ?thesis unfolding row
    by (cases a; cases b; cases c)
      (simp_all add: evidence_errorFor_def evidence_error_def alerts_FieldError said_def or_else_def)
qed

lemma row_errors_index: "list_all (\<lambda>e. ee_index e = i) (fst (evidence_row i d))"
proof -
  obtain a b c where "fst (evidence_row i d) =
       (if a then [evidence_error i EvType (js ''Type is required.'')] else [])
       @ (if b then [evidence_error i EvSummary (js ''Summary is required.'')] else [])
       @ (case c of None \<Rightarrow> [] | Some m \<Rightarrow> [evidence_error i EvData m])" by (rule row_shape)
  then show ?thesis by (cases a; cases b; cases c) (simp_all add: evidence_error_def)
qed

lemma rows_errors_index: "list_all (\<lambda>e. k \<le> ee_index e) (fst (serialize_rows k ds))"
proof (induction ds arbitrary: k)
  case (Cons d ds)
  from Cons [of "Suc k"] row_errors_index [of k d] show ?case
    by (auto simp: split_beta list_all_iff)
qed simp

lemma alerts_rows:
  assumes "list_all (\<lambda>e. ee_index e < k) pre"
  shows "concat (map_idx k (\<lambda>i d. alerts_in (evidence_item_row (pre @ fst (serialize_rows k ds)) dis i d)) ds)
    = map ee_message (fst (serialize_rows k ds))"
  using assms
proof (induction ds arbitrary: k pre)
  case (Cons d ds)
  let ?row = "fst (evidence_row k d)" and ?rest = "fst (serialize_rows (Suc k) ds)"
  have errs: "fst (serialize_rows k (d # ds)) = ?row @ ?rest" by (simp add: split_beta)
  have "list_all (\<lambda>e. ee_index e < Suc k) (pre @ ?row)"
    using Cons.prems row_errors_index [of k d] by (auto simp: list_all_iff)
  from Cons.IH [OF this] have rest:
    "concat (map_idx (Suc k) (\<lambda>i d. alerts_in (evidence_item_row (pre @ ?row @ ?rest) dis i d)) ds) = map ee_message ?rest"
    by simp
  have "list_all (\<lambda>e. ee_index e \<noteq> k) pre" "list_all (\<lambda>e. ee_index e \<noteq> k) ?rest"
    using Cons.prems rows_errors_index [of "Suc k" ds] by (auto simp: list_all_iff)
  then have "evidence_errorFor (pre @ ?row @ ?rest) k f = evidence_errorFor ?row k f" for f
    by (simp add: evidence_errorFor_append)
  then have "alerts_in (evidence_item_row (pre @ ?row @ ?rest) dis k d) = map ee_message ?row"
    using alerts_own_row [of k d] by (simp only: alerts_row)
  with rest show ?case by (simp only: errs map_idx.simps concat.simps map_append)
qed simp

lemma concat_elements: "concat (map (alerts_in) es) = map text_of (concat (map (elements is_alert) es))"
  by (induction es) (simp_all add: alerts_in_def)

lemma alerts_editor: "alerts_in (EvidenceEditor ds errs dis) = concat (map_idx 0 (\<lambda>i d. alerts_in (evidence_item_row errs dis i d)) ds)"
proof -
  have "alerts_in (EvidenceEditor ds errs dis) = concat (map alerts_in (map_idx 0 (evidence_item_row errs dis) ds))"
    unfolding concat_elements
    by (cases ds) (simp_all add: alerts_in_def EvidenceEditor_def Button_def is_alert_def attr_def flag_def)
  then show ?thesis by (simp add: map_map_idx)
qed

text \<open>What a row's controls are marked with, and the choices shown as picked.\<close>
definition marks_in :: "react \<Rightarrow> jstring list" where
  "marks_in e = List.map_filter (attribute ''aria-invalid'') (elements (\<lambda>x. attribute ''aria-invalid'' x \<noteq> None) e)"

definition is_pressed :: "react \<Rightarrow> bool" where
  "is_pressed e \<longleftrightarrow> attribute ''aria-pressed'' e = Some (js ''true'')"

lemma marks_row:
  "marks_in (evidence_item_row errs dis i d)
     = map (\<lambda>k. bool_text (said (evidence_errorFor errs i k))) [EvType, EvSummary, EvData]"
  by (simp add: marks_in_def evidence_item_row_def type_field_def summary_field_def data_field_def LabelledField_def
      TextInput_def TextArea_def FieldError_def Button_def Let_def attr_def attr_opt_def flag_def shown_if_def
      List.map_filter_def)

lemma said_problem:
  assumes "serializeEvidence ds = Inl errs"
  shows "said (evidence_errorFor errs i k) \<longleftrightarrow> (i, k) \<in> evidence_problems ds"
proof -
  have errs: "errs = fst (serialize_rows 0 ds)"
    using assms by (auto simp: serializeEvidence_def split_beta split: if_splits)
  have "list_all (\<lambda>e. ee_message e \<noteq> []) (fst (serialize_rows j es))" for j es
  proof (induction es arbitrary: j)
    case (Cons d es)
    have "list_all (\<lambda>e. ee_message e \<noteq> []) (fst (evidence_row j d))"
    proof -
      obtain a b c where "c \<noteq> Some []" "fst (evidence_row j d) =
         (if a then [evidence_error j EvType (js ''Type is required.'')] else [])
         @ (if b then [evidence_error j EvSummary (js ''Summary is required.'')] else [])
         @ (case c of None \<Rightarrow> [] | Some m \<Rightarrow> [evidence_error j EvData m])" by (rule row_shape)
      then show ?thesis by (cases a; cases b; cases c) (simp_all add: evidence_error_def)
    qed
    with Cons [of "Suc j"] show ?case by (simp add: split_beta)
  qed simp
  then have spoken: "e \<in> set errs \<Longrightarrow> ee_message e \<noteq> []" for e by (simp add: errs list_all_iff)
  have "said (evidence_errorFor errs i k) \<longleftrightarrow> (i, k) \<in> set (map ee_position errs)"
  proof (cases "find_first (\<lambda>e. ee_index e = i \<and> ee_field e = k) errs")
    case None
    then show ?thesis by (auto simp: evidence_errorFor_def said_def find_None_iff ee_position_def)
  next
    case (Some e)
    then have "e \<in> set errs" "ee_index e = i" "ee_field e = k"
      by (auto simp: find_Some_iff)
    with Some spoken show ?thesis by (force simp: evidence_errorFor_def said_def ee_position_def)
  qed
  then show ?thesis by (simp only: errs set_serialize_rows)
qed

lemma pressed_button:
  "elements is_pressed (choice_button active c) = (if active then [choice_button active c] else [])"
proof -
  have "is_pressed (choice_button active c) \<longleftrightarrow> active"
    by (simp add: choice_button_def is_pressed_def attr_def bool_text_def)
  moreover have "\<not> is_pressed (elem ''span'' (attr ''class'' x @ attr ''aria-hidden'' b) cs)"
    "\<not> is_pressed (elem ''span'' (attr ''class'' x) cs)" for x b cs
    by (simp_all add: is_pressed_def attr_def flag_def)
  ultimately show ?thesis unfolding choice_button_def by simp
qed

lemma button_text: "text_of (choice_button active c) = ch_label c @ or_else (ch_description c) []"
  by (cases "ch_description c") (simp_all add: choice_button_def said_def or_else_def)

lemma pressed_choices:
  "map text_of (elements is_pressed (choices_list cs f))
     = map (\<lambda>c. ch_label c @ or_else (ch_description c) []) (filter (\<lambda>c. Some (ch_edge_id c) = df_edgeId f) cs)"
proof -
  have plain: "\<not> is_pressed (elem t (attr ''class'' x) cs)" "\<not> is_pressed (elem t [] cs)" for t x cs
    by (simp_all add: is_pressed_def attr_def)
  have "map text_of (concat (map (elements is_pressed) (map (choice_item f) cs)))
      = map (\<lambda>c. ch_label c @ or_else (ch_description c) []) (filter (\<lambda>c. Some (ch_edge_id c) = df_edgeId f) cs)"
    by (induction cs) (simp_all add: choice_item_def plain pressed_button button_text)
  then show ?thesis by (simp add: choices_list_def plain)
qed

section \<open>Properties\<close>

text \<open>C23. A refused decision says why. When the button could be pressed and nothing was sent, the
  evidence was at fault, and the form then on the screen reads out exactly the problems of the
  evidence, each once and in the order of the rows, with every control of every row marked invalid
  exactly when it has a problem of its own.\<close>
theorem refused_evidence_is_shown:
  assumes "submit newId f n = (f', n', None)" "\<not> submit_disabled f"
  shows "\<exists>errs. serializeEvidence (df_evidence f) = Inl errs \<and> errs \<noteq> []
    \<and> alerts_in (EvidenceEditor (df_evidence f') (df_evidenceErrors f') (df_submitting f')) = map ee_message errs
    \<and> (\<forall>i<length (df_evidence f).
         marks_in (evidence_item_row (df_evidenceErrors f') (df_submitting f') i (df_evidence f' ! i))
           = map (\<lambda>k. bool_text ((i, k) \<in> evidence_problems (df_evidence f))) [EvType, EvSummary, EvData])"
proof -
  obtain e where e: "df_edgeId f = Some e" "e \<noteq> []" "\<not> df_submitting f"
    using assms(2) by (auto simp: submit_disabled_def said_def)
  have "\<exists>errs. serializeEvidence (df_evidence f) = Inl errs \<and> f' = f\<lparr>df_evidenceErrors := errs\<rparr>"
  proof (cases "serializeEvidence (df_evidence f)")
    case (Inl errs)
    with assms(1) e show ?thesis by (simp add: submit_def)
  next
    case (Inr evidence)
    with assms(1) e show ?thesis by (simp add: submit_def Let_def split: prod.splits)
  qed
  then obtain errs where errs: "serializeEvidence (df_evidence f) = Inl errs"
    and f': "f' = f\<lparr>df_evidenceErrors := errs\<rparr>" by blast
  then have rows: "errs = fst (serialize_rows 0 (df_evidence f))" and some: "errs \<noteq> []"
    by (auto simp: serializeEvidence_def split_beta split: if_splits)
  have alerts: "alerts_in (EvidenceEditor (df_evidence f) errs (df_submitting f)) = map ee_message errs"
    using alerts_rows [where k = 0 and pre = "[]" and dis = "df_submitting f" and ds = "df_evidence f"] by (simp add: alerts_editor rows)
  show ?thesis
    by (intro exI [of _ errs] conjI allI impI)
      (simp_all add: errs some f' alerts marks_row said_problem [OF errs])
qed

theorem refused_evidence_is_shown_witness:
  "\<exists>errs. serializeEvidence [row_of (js ''ev-1'') \<lparr>ei_type = [], ei_summary = js ''seen'', ei_data = None\<rparr>] = Inl errs
     \<and> errs \<noteq> []
     \<and> alerts_in (EvidenceEditor [row_of (js ''ev-1'') \<lparr>ei_type = [], ei_summary = js ''seen'', ei_data = None\<rparr>] errs False)
       = map ee_message errs"
proof -
  let ?ds = "[row_of (js ''ev-1'') \<lparr>ei_type = [], ei_summary = js ''seen'', ei_data = None\<rparr>]"
  let ?f = "initial_form\<lparr>df_edgeId := Some (js ''e1''), df_evidence := ?ds\<rparr>"
  have "serializeEvidence ?ds = Inl [evidence_error 0 EvType (js ''Type is required.'')]"
    by (simp add: serializeEvidence_def evidence_row_def row_of_def formatEvidenceData_def trim_js
        strip_def blank_char_def)
  then obtain f' where f': "submit (\<lambda>n. replicate n 65) ?f 0 = (f', 0, None)" "df_evidence f' = ?ds" "\<not> df_submitting f'"
    by (simp add: submit_def initial_form_def)
  have "\<not> submit_disabled ?f" by (simp add: submit_disabled_def said_def initial_form_def)
  from refused_evidence_is_shown [OF f'(1) this] f' show ?thesis
    using f'(1) by (auto simp: submit_def initial_form_def split: sum.splits)
qed

text \<open>C24. The submit button tells the truth. There is one; while it is disabled a submission does
  nothing, and otherwise it either reports the evidence or sends the decision, for the very choices
  shown as picked.\<close>
theorem submit_offered_exactly:
  "\<exists>b. elements (is_tag ''button'') (submit_bar cs f) = [b]
     \<and> (if attribute ''disabled'' b \<noteq> None then submit newId f n = (f, n, None)
        else case serializeEvidence (df_evidence f) of
          Inl errs \<Rightarrow> submit newId f n = (f\<lparr>df_evidenceErrors := errs\<rparr>, n, None)
        | Inr evidence \<Rightarrow>
            (\<exists>f' n' key body. submit newId f n = (f', n', Some (key, body)) \<and> sd_evidence body = evidence
               \<and> map text_of (elements is_pressed (choices_list cs f))
                 = map (\<lambda>c. ch_label c @ or_else (ch_description c) []) (filter (\<lambda>c. ch_edge_id c = sd_edge_id body) cs)))"
proof -
  let ?b = "Button (Some Primary) None (attr ''type'' (js ''submit'') @ flag ''disabled'' (submit_disabled f))
          [Txt (if df_submitting f then js ''Recording decision'' @ ellipsis else js ''Record decision'')]"
  have one: "elements (is_tag ''button'') (submit_bar cs f) = [?b]"
    by (simp add: submit_bar_def Button_def Chip_def elem_def shown_if_def split: option.split)
  have disabled: "attribute ''disabled'' ?b \<noteq> None \<longleftrightarrow> submit_disabled f"
    by (simp add: Button_def attr_def flag_def)
  show ?thesis
  proof (cases "submit_disabled f")
    case True
    then have "submit newId f n = (f, n, None)"
      by (auto simp: submit_disabled_def submit_def said_def split: option.split)
    with one disabled True show ?thesis by auto
  next
    case False
    then obtain e where e: "df_edgeId f = Some e" "e \<noteq> []" "\<not> df_submitting f"
      by (auto simp: submit_disabled_def said_def)
    then have "case serializeEvidence (df_evidence f) of
          Inl errs \<Rightarrow> submit newId f n = (f\<lparr>df_evidenceErrors := errs\<rparr>, n, None)
        | Inr evidence \<Rightarrow>
            (\<exists>f' n' key. submit newId f n = (f', n', Some (key, decision_body e evidence f)))"
      by (auto simp: submit_def Let_def split: sum.split prod.split)
    then show ?thesis
      using one disabled False pressed_choices [of cs f] e
      by (auto simp: decision_body_def split: sum.splits)
  qed
qed

end
