(* ===== verification/Panels.thy ===== *)
theory Panels
  imports Editor_View Report Library Primitives
begin

text \<open>
  Panels of the screens as element trees over \<open>components/primitives.tsx\<close>: the live preview of
  \<open>app/playbooks/PlaybookEditorScreen.tsx\<close> with the choice of the root, the provenance panel and the
  legend of the report, the swatches of the library. How a graph is drawn is an argument. The lemmas on
  selects say when a select shows its value.
\<close>

section \<open>The live preview\<close>

definition root_select :: "editor \<Rightarrow> react" where
  "root_select e =
     Select None (attr ''id'' (js ''root-node'') @ attr ''value'' (pd_root (sc_draft e)) @ flag ''disabled'' (locked e))
       (elem ''option'' (attr ''value'' []) [Txt (em_dash @ js '' no root chosen '' @ em_dash)]
        # map_idx 0 (\<lambda>i n. elem ''option'' (attr ''value'' (nd_id n))
            [Txt (nat_text (i + 1)), Txt (js ''. ''),
             Txt (if trim (nd_title n) = [] then js ''Untitled node'' else trim (nd_title n))])
          (pd_nodes (sc_draft e)))"

definition preview_panel :: "(playbook_node list \<times> playbook_edge list \<Rightarrow> uuid option \<Rightarrow> react) \<Rightarrow> editor \<Rightarrow> react" where
  "preview_panel pictured e =
     Panel (Txt (js ''Live preview'')) (Txt (js ''Auto-laid out, read-only'')) Nothing
       [elem ''div'' (attr ''class'' (js ''border-b border-rule p-3''))
          [LabelledField (js ''Root node'')
             (Txt (js ''Where every investigation against this version starts. Required to publish, optional to save.''))
             (Some (js ''root-node'')) [root_select e] None],
        pictured (previewGraph (sc_draft e)) (null_if_blank (pd_root (sc_draft e))),
        elem ''div'' (attr ''class'' (js ''space-y-1.5 border-t border-rule px-3 py-2.5''))
          [shown_if (sc_dirty e \<and> or_else (sc_versionId e) [] \<noteq> [])
             (elem ''p'' (attr ''class'' (js ''flex items-center gap-2 text-[12px] leading-snug text-ink-muted''))
               [Chip (Some Tone_Hold) [Txt (js ''unsaved'')] None,
                Txt (js ''Publish validates the graph the server holds, so save the draft first.'')]),
           elem ''p'' (attr ''class'' (js ''text-[11.5px] leading-relaxed text-ink-faint''))
             [Txt (js ''Publishing checks what this preview cannot: that a root is set, that every node is reachable from it, that the graph is acyclic, and that every decision node offers a choice while every terminal node offers none.'')]]]
       None (Some [])"

section \<open>The report\<close>

definition provenance_value :: "react list \<Rightarrow> react" where
  "provenance_value = elem ''span'' (attr ''class'' (js ''break-all font-mono text-[11.5px]''))"

definition provenance_panel :: "(jstring option \<Rightarrow> jstring) \<Rightarrow> investigation_report \<Rightarrow> react" where
  "provenance_panel shown report =
     (let version = rp_playbook_version report
      in Panel (Txt (js ''What this report is bound to'')) (Txt (js ''Provenance'')) Nothing
           [elem ''dl'' (attr ''class'' (js ''space-y-3''))
              [Field_Row (js ''Investigation id'') [provenance_value [Txt (rs_id (rp_investigation report))]] None,
               Field_Row (js ''Playbook version id'') [provenance_value [Txt (v_id version)]] None,
               Field_Row (js ''Version status'') [Chip (Some Tone_Clear) [Txt (status_text (v_status version))] None] None,
               Field_Row (js ''Published at'')
                 [elem ''span'' (attr ''class'' (js ''font-mono text-[11.5px]'')) [Txt (shown (v_published_at version))]] None],
            elem ''p'' (attr ''class'' (js ''mt-3 border-t border-rule pt-3 text-[12px] leading-relaxed text-ink-muted''))
              [Txt (js ''Published versions are frozen. This report resolves against exactly the graph the investigation ran on, no matter how many times the playbook has been revised since.'')]]
           None None)"

datatype legend_kind = Taken | Visited | Final | Ghost

fun LEGEND :: "legend_kind \<Rightarrow> jstring" where
  "LEGEND Taken = js ''h-[3px] w-6 bg-signal''"
| "LEGEND Visited = js ''h-3.5 w-[3px] bg-signal/55''"
| "LEGEND Final = js ''h-3.5 w-3.5 border border-signal bg-signal-soft''"
| "LEGEND Ghost = js ''h-[1px] w-6 bg-rule-strong''"

definition Legend :: "legend_kind \<Rightarrow> jstring \<Rightarrow> react" where
  "Legend kind label =
     elem ''span'' (attr ''class'' (js ''inline-flex items-center gap-1.5 text-[11.5px] text-ink-muted''))
       [elem ''span'' (attr ''class'' (LEGEND kind) @ attr ''aria-hidden'' (js ''true'')) [], Txt label]"

definition LegendSwatch :: "jstring \<Rightarrow> jstring \<Rightarrow> react" where
  "LegendSwatch accent label =
     elem ''span'' (attr ''class'' (js ''inline-flex items-center gap-1.5 text-[11.5px] text-ink-muted''))
       [elem ''span'' (attr ''class'' (js ''h-3 w-[3px]'') @ attr ''style'' (js ''background:'' @ accent) @ attr ''aria-hidden'' (js ''true'')) [],
        Txt label]"

text \<open>The provenance panel reads what the page's record holds.\<close>
lemma provenance_texts:
  "map text_of (elements (is_tag ''dd'') (provenance_panel shown report))
     = rg_provenance (report_page lay shown spent report)"
  by (simp add: provenance_panel_def Let_def Panel_def Field_Row_def provenance_value_def Chip_def report_page_def
      shown_if_def elem_def)

section \<open>Selects\<close>

text \<open>How many options carry a value: a select shows its value exactly when there is one.\<close>
definition options_with :: "uuid \<Rightarrow> (uuid \<times> jstring) list \<Rightarrow> nat" where
  "options_with x opts = length (filter (\<lambda>o'. fst o' = x) opts)"

definition shows_value :: "react \<Rightarrow> bool" where
  "shows_value s \<longleftrightarrow>
     (case elements (\<lambda>x. is_tag ''option'' x \<and> attribute ''value'' x = attribute ''value'' s) s of [_] \<Rightarrow> True | _ \<Rightarrow> False)"

lemma filter_key:
  assumes "distinct (map f xs)"
  shows "length (filter (\<lambda>y. f y = x) xs) = (if x \<in> f ` set xs then 1 else 0)"
  using assms by (induction xs) (auto simp: filter_empty_conv)

lemma endpoint_select:
  assumes "distinct (map nd_id nodes)" "[] \<notin> nd_id ` set nodes" "sel = [] \<or> sel \<in> nd_id ` set nodes"
  shows "options_with sel (endpoint_options eligible sel nodes) = 1"
proof -
  let ?ns = "filter eligible nodes"
  have "options_with sel (endpoint_options eligible sel nodes)
      = length (filter (\<lambda>i. i = sel) (map fst (endpoint_options eligible sel nodes)))"
    by (simp add: options_with_def filter_map comp_def)
  also have "\<dots> = length (filter (\<lambda>i. i = sel) (node_options ?ns sel nodes))"
    by (simp only: endpoint_options_values)
  also have "\<dots> = 1"
  proof -
    have count: "length (filter (\<lambda>n. nd_id n = sel) ?ns) = (if sel \<in> nd_id ` set ?ns then 1 else 0)"
      by (rule filter_key) (rule distinct_map_filter [OF assms(1)])
    have stale: "\<exists>n. find_first (\<lambda>n. nd_id n = sel) nodes = Some n \<and> nd_id n = sel" if "sel \<in> nd_id ` set nodes"
      using that by (cases "find_first (\<lambda>n. nd_id n = sel) nodes") (auto simp: find_None_iff find_Some_iff)
    from assms(2,3) consider "sel = []" "sel \<notin> nd_id ` set ?ns" | "sel \<noteq> []" "sel \<in> nd_id ` set ?ns"
      | "sel \<noteq> []" "sel \<notin> nd_id ` set ?ns" "sel \<in> nd_id ` set nodes" by auto
    then show ?thesis
      using count stale by cases (auto simp: node_options_def Let_def filter_map comp_def)
  qed
  finally show ?thesis .
qed

lemma root_shown:
  assumes "distinct (map nd_id (pd_nodes (sc_draft e)))" "[] \<notin> draft_ids (sc_draft e)"
    "pd_root (sc_draft e) = [] \<or> pd_root (sc_draft e) \<in> draft_ids (sc_draft e)"
  shows "shows_value (root_select e)"
proof -
  let ?nodes = "pd_nodes (sc_draft e)" and ?root = "pd_root (sc_draft e)"
  let ?q = "\<lambda>x. is_tag ''option'' x \<and> attribute ''value'' x = Some ?root"
  have rows: "length (concat (map (elements ?q) (map_idx k (\<lambda>i n. elem ''option'' (attr ''value'' (nd_id n))
            [Txt (nat_text (i + 1)), Txt (js ''. ''),
             Txt (if trim (nd_title n) = [] then js ''Untitled node'' else trim (nd_title n))]) ns)))
      = length (filter (\<lambda>n. nd_id n = ?root) ns)" for k ns
    by (induction ns arbitrary: k) (simp_all add: attr_def elem_def)
  have value_of: "attribute ''value'' (root_select e) = Some ?root"
    by (simp add: root_select_def Select_def attr_def flag_def)
  have "length (elements ?q (root_select e)) = (if ?root = [] then 1 else 0) + length (filter (\<lambda>n. nd_id n = ?root) ?nodes)"
    using rows [of 0 ?nodes] by (simp add: root_select_def Select_def) (simp add: attr_def elem_def)
  also have "\<dots> = 1"
    unfolding filter_key [OF assms(1)] using assms(2,3) by (auto simp: draft_ids_def)
  finally show ?thesis
    unfolding shows_value_def value_of by (cases "elements ?q (root_select e)") auto
qed

end
