(* ===== verification/Runner_Screen.thy ===== *)
theory Runner_Screen
  imports Decision Report
begin

text \<open>
  \<open>app/investigations/[id]/InvestigationRunner.tsx\<close> and \<open>report/InvestigationReportScreen.tsx\<close> as
  machines of their own: the loads the screens start, what their failures offer, and the decision form
  in the runner once there is a state to decide on. Once it is loaded the runner's screen is an
  implementation of the decision machine: nothing but a decision that landed replaces its state.
\<close>

section \<open>The runner's screen\<close>

text \<open>\<open>rv_sent\<close> holds each request with the investigation it was posted to.\<close>
record runner_view =
  rv_id :: uuid
  rv_investigation :: "investigation_state resource"
  rv_version :: "version_definition resource"
  rv_form :: decision_form
  rv_counter :: nat
  rv_minted :: nat
  rv_sent :: "(uuid \<times> decision_request) list"

definition initial_view :: "uuid \<Rightarrow> nat \<Rightarrow> nat \<Rightarrow> runner_view" where
  "initial_view i counter minted =
     \<lparr>rv_id = i, rv_investigation = run_effect True (initial_resource True),
      rv_version = run_effect False (initial_resource False),
      rv_form = initial_form, rv_counter = counter, rv_minted = minted, rv_sent = []\<rparr>"

text \<open>What the load of the version depends on.\<close>
definition version_key :: "investigation_state resource \<Rightarrow> uuid option" where
  "version_key r = map_option iv_playbook_version_id (rc_data r)"

text \<open>\<open>Boolean(investigation.data?.playbook_version_id)\<close>.\<close>
definition version_enabled :: "investigation_state resource \<Rightarrow> bool" where
  "version_enabled r \<longleftrightarrow> version_key r \<noteq> None \<and> version_key r \<noteq> Some []"

text \<open>The state of the investigation changes, and with it the version it runs on, if it does.\<close>
definition show_investigation :: "investigation_state resource \<Rightarrow> runner_view \<Rightarrow> runner_view" where
  "show_investigation r v =
     v\<lparr>rv_investigation := r,
       rv_version := (if version_key r = version_key (rv_investigation v) then rv_version v
                      else run_effect (version_enabled r) (rv_version v))\<rparr>"

text \<open>\<open>applyDecision\<close>.\<close>
definition applyDecision :: "investigation_state \<Rightarrow> runner_view \<Rightarrow> runner_view" where
  "applyDecision next v = show_investigation (set_resource next (rv_investigation v)) v"

text \<open>The decision machine in the screen.\<close>
definition runner_of :: "runner_view \<Rightarrow> investigation_state \<Rightarrow> runner" where
  "runner_of v st =
     \<lparr>rn_state = st, rn_form = rv_form v, rn_counter = rv_counter v, rn_minted = rv_minted v,
      rn_sent = map snd (rv_sent v)\<rparr>"

definition take_runner :: "investigation_state \<Rightarrow> runner \<Rightarrow> runner_view \<Rightarrow> runner_view" where
  "take_runner st r v =
     v\<lparr>rv_form := rn_form r, rv_counter := rn_counter r, rv_minted := rn_minted r,
       rv_sent := rv_sent v @ map (Pair (iv_id st)) (drop (length (rv_sent v)) (rn_sent r))\<rparr>"

datatype runner_view_event =
    Investigation_Answer "thrown + investigation_state"
  | Bound_Version_Answer "thrown + version_definition"
  | Retry_Investigation
  | Retry_Bound_Version
  | In_Form runner_event

fun view_step :: "(nat \<Rightarrow> uuid) \<Rightarrow> runner_view \<Rightarrow> runner_view_event \<Rightarrow> runner_view option" where
  "view_step newId v (Investigation_Answer res) =
     map_option (\<lambda>r. show_investigation r v) (answer_load res (rv_investigation v))"
| "view_step newId v (Bound_Version_Answer res) =
     map_option (\<lambda>r. v\<lparr>rv_version := r\<rparr>) (answer_load res (rv_version v))"
| "view_step newId v Retry_Investigation =
     (case runner_screen id (rv_investigation v) of
        Screen_Failed _ \<Rightarrow> Some (show_investigation (retry_load (rv_investigation v)) v)
      | _ \<Rightarrow> None)"
| "view_step newId v Retry_Bound_Version =
     (if rc_data (rv_investigation v) \<noteq> None \<and> rc_error (rv_version v) \<noteq> None
      then Some (v\<lparr>rv_version := run_effect (version_enabled (rv_investigation v)) (reload_resource (rv_version v))\<rparr>)
      else None)"
| "view_step newId v (In_Form e) =
     (case rc_data (rv_investigation v) of
        None \<Rightarrow> None
      | Some st \<Rightarrow>
          map_option (\<lambda>r. (case e of Landed next \<Rightarrow> applyDecision next | _ \<Rightarrow> id) (take_runner st r v))
            (runner_step newId (runner_of v st) e))"

text \<open>What is assumed of the answers: the server speaks of the investigation it was asked about.\<close>
definition same_investigation :: "runner_view \<Rightarrow> runner_view_event \<Rightarrow> bool" where
  "same_investigation v ev \<longleftrightarrow>
     (case ev of
        Investigation_Answer (Inr st) \<Rightarrow> iv_id st = rv_id v
      | In_Form (Landed st) \<Rightarrow> iv_id st = rv_id v
      | _ \<Rightarrow> True)"

abbreviation view_reach :: "(nat \<Rightarrow> uuid) \<Rightarrow> runner_view \<Rightarrow> runner_view \<Rightarrow> bool" where
  "view_reach newId \<equiv> reach (view_step newId) same_investigation"

lemma view_more:
  "view_reach newId v0 v \<Longrightarrow> view_step newId v ev = Some v' \<Longrightarrow> same_investigation v ev \<Longrightarrow> view_reach newId v0 v'"
  by (rule reach.more)

section \<open>The report's screen\<close>

record report_view =
  rp_id :: uuid
  rp_report :: "investigation_report resource"

definition initial_report :: "uuid \<Rightarrow> report_view" where
  "initial_report i = \<lparr>rp_id = i, rp_report = run_effect True (initial_resource True)\<rparr>"

datatype report_event = Report_Answer "thrown + investigation_report" | Retry_Report

fun report_step :: "report_view \<Rightarrow> report_event \<Rightarrow> report_view option" where
  "report_step v (Report_Answer res) = map_option (\<lambda>r. v\<lparr>rp_report := r\<rparr>) (answer_load res (rp_report v))"
| "report_step v Retry_Report =
     (case report_screen id (rp_report v) of
        Screen_Failed _ \<Rightarrow> Some (v\<lparr>rp_report := retry_load (rp_report v)\<rparr>)
      | _ \<Rightarrow> None)"

section \<open>The screen implements the decision machine\<close>

text \<open>Before the state is there the form has not been touched; from then on no load is in flight, so
  no answer to a \<open>GET\<close> can replace what a decision brought.\<close>
definition runs_decisions :: "(nat \<Rightarrow> uuid) \<Rightarrow> nat \<Rightarrow> nat \<Rightarrow> runner_view \<Rightarrow> bool" where
  "runs_decisions newId c m v \<longleftrightarrow>
     (case rc_data (rv_investigation v) of
        None \<Rightarrow> rv_form v = initial_form \<and> rv_counter v = c \<and> rv_minted v = m \<and> rv_sent v = []
      | Some st \<Rightarrow> \<not> rc_loading (rv_investigation v)
          \<and> (\<exists>st0. runner_reach newId (initial_runner st0 c m) (runner_of v st)))"

lemma show_investigation_simps [simp]:
  "rv_investigation (show_investigation r v) = r" "rv_form (show_investigation r v) = rv_form v"
  "rv_counter (show_investigation r v) = rv_counter v" "rv_minted (show_investigation r v) = rv_minted v"
  "rv_sent (show_investigation r v) = rv_sent v" "rv_id (show_investigation r v) = rv_id v"
  by (simp_all add: show_investigation_def)

lemma applyDecision_simps [simp]:
  "rv_investigation (applyDecision next v) = set_resource next (rv_investigation v)"
  "rv_form (applyDecision next v) = rv_form v" "rv_counter (applyDecision next v) = rv_counter v"
  "rv_minted (applyDecision next v) = rv_minted v" "rv_sent (applyDecision next v) = rv_sent v"
  "rv_id (applyDecision next v) = rv_id v"
  by (simp_all add: applyDecision_def)

lemma take_runner_simps [simp]:
  "rv_investigation (take_runner st r v) = rv_investigation v" "rv_id (take_runner st r v) = rv_id v"
  "rv_form (take_runner st r v) = rn_form r" "rv_counter (take_runner st r v) = rn_counter r"
  "rv_minted (take_runner st r v) = rn_minted r"
  by (simp_all add: take_runner_def)

lemma sent_extends: "runner_step newId r e = Some r' \<Longrightarrow> \<exists>new. rn_sent r' = rn_sent r @ new"
  using step_log [of newId r e r'] by auto

lemma state_after: "runner_step newId r e = Some r' \<Longrightarrow> rn_state r' = (case e of Landed next \<Rightarrow> next | _ \<Rightarrow> rn_state r)"
  by (cases e) (auto split: if_splits prod.splits)

lemma taken:
  assumes "runner_step newId (runner_of v st) e = Some r"
  shows "runner_of (take_runner st r v) (rn_state r) = r"
    "\<exists>new. rv_sent (take_runner st r v) = rv_sent v @ map (Pair (iv_id st)) new"
proof -
  from sent_extends [OF assms] obtain new where "rn_sent r = map snd (rv_sent v) @ new"
    by (auto simp: runner_of_def)
  then have "map snd (rv_sent (take_runner st r v)) = rn_sent r" "rv_sent (take_runner st r v) = rv_sent v @ map (Pair (iv_id st)) new"
    by (simp_all add: take_runner_def comp_def)
  then show "runner_of (take_runner st r v) (rn_state r) = r"
    "\<exists>new. rv_sent (take_runner st r v) = rv_sent v @ map (Pair (iv_id st)) new"
    by (auto simp: runner_of_def)
qed

text \<open>A step of the form in the screen is a step of the decision machine.\<close>
lemma form_step:
  assumes "view_step newId v (In_Form e) = Some v'"
  obtains st r where "rc_data (rv_investigation v) = Some st" "runner_step newId (runner_of v st) e = Some r"
    "rc_data (rv_investigation v') = Some (rn_state r)" "runner_of v' (rn_state r) = r"
    "rc_loading (rv_investigation v') = rc_loading (rv_investigation v)" "rv_id v' = rv_id v"
    "\<exists>new. rv_sent v' = rv_sent v @ map (Pair (iv_id st)) new"
proof -
  from assms obtain st r where st: "rc_data (rv_investigation v) = Some st"
    and r: "runner_step newId (runner_of v st) e = Some r"
    and v': "v' = (case e of Landed next \<Rightarrow> applyDecision next | _ \<Rightarrow> id) (take_runner st r v)"
    by (auto split: option.splits)
  note after = state_after [OF r]
  have kept: "rv_form v' = rv_form (take_runner st r v)" "rv_counter v' = rv_counter (take_runner st r v)"
    "rv_minted v' = rv_minted (take_runner st r v)" "rv_sent v' = rv_sent (take_runner st r v)" "rv_id v' = rv_id v"
    unfolding v' by (cases e; simp)+
  then have same: "runner_of v' x = runner_of (take_runner st r v) x" for x by (simp add: runner_of_def)
  show ?thesis
  proof (rule that [OF st r])
    show "rc_data (rv_investigation v') = Some (rn_state r)"
      unfolding v' after using st by (cases e) (simp_all add: set_resource_def runner_of_def)
    show "runner_of v' (rn_state r) = r" using taken(1) [OF r] same by simp
    show "rc_loading (rv_investigation v') = rc_loading (rv_investigation v)"
      unfolding v' by (cases e) (simp_all add: set_resource_def)
    show "\<exists>new. rv_sent v' = rv_sent v @ map (Pair (iv_id st)) new" using taken(2) [OF r] kept(4) by simp
  qed (rule kept(5))
qed

lemma runs_decisions_same:
  assumes "runs_decisions newId c m v" "rv_investigation v' = rv_investigation v" "rv_form v' = rv_form v"
    "rv_counter v' = rv_counter v" "rv_minted v' = rv_minted v" "rv_sent v' = rv_sent v"
  shows "runs_decisions newId c m v'"
  using assms by (auto simp: runs_decisions_def runner_of_def split: option.splits)

lemma runs_decisions_step:
  assumes inv: "runs_decisions newId c m v" and step: "view_step newId v ev = Some v'"
  shows "runs_decisions newId c m v'"
proof (cases ev)
  case (Investigation_Answer res)
  with step obtain r where r: "answer_load res (rv_investigation v) = Some r" and v': "v' = show_investigation r v" by auto
  from r have "rc_loading (rv_investigation v)" by (auto simp: answer_load_def split: option.splits if_splits)
  with inv have none: "rc_data (rv_investigation v) = None" by (auto simp: runs_decisions_def split: option.splits)
  have "\<not> rc_loading r" using r by (auto simp: answer_load_def settle_def split: option.splits if_splits sum.splits)
  moreover have "runner_of v' st = initial_runner st c m" for st
    using inv none by (simp add: v' runs_decisions_def runner_of_def initial_runner_def)
  ultimately show ?thesis
    using inv none unfolding runs_decisions_def v' by (auto split: option.splits intro: reach.start)
next
  case (Bound_Version_Answer res)
  with step obtain r where "v' = v\<lparr>rv_version := r\<rparr>" by auto
  with inv show ?thesis by (intro runs_decisions_same [OF inv]) simp_all
next
  case Retry_Investigation
  with step have "rc_data (rv_investigation v) = None" "v' = show_investigation (retry_load (rv_investigation v)) v"
    by (auto simp: runner_screen_def split: shown_screen.splits option.splits if_splits)
  with inv show ?thesis by (simp add: runs_decisions_def)
next
  case Retry_Bound_Version
  with step have "v' = v\<lparr>rv_version := run_effect (version_enabled (rv_investigation v)) (reload_resource (rv_version v))\<rparr>"
    by (auto split: if_splits)
  with inv show ?thesis by (intro runs_decisions_same [OF inv]) simp_all
next
  case (In_Form e)
  with step have "view_step newId v (In_Form e) = Some v'" by simp
  then obtain st r where st: "rc_data (rv_investigation v) = Some st" "runner_step newId (runner_of v st) e = Some r"
    and after: "rc_data (rv_investigation v') = Some (rn_state r)" "runner_of v' (rn_state r) = r"
      "rc_loading (rv_investigation v') = rc_loading (rv_investigation v)" by (rule form_step)
  from inv st(1) obtain st0 where st0: "\<not> rc_loading (rv_investigation v)"
    "runner_reach newId (initial_runner st0 c m) (runner_of v st)" by (auto simp: runs_decisions_def)
  have "runner_reach newId (initial_runner st0 c m) r" by (rule reach.more [OF st0(2) st(2) TrueI])
  with after st0(1) show ?thesis by (auto simp: runs_decisions_def)
qed

interpretation running: machine_invariant "view_step newId" same_investigation "runs_decisions newId c m" for newId c m
  by unfold_locales (rule runs_decisions_step)

lemma initial_runs: "runs_decisions newId c m (initial_view i c m)"
  by (simp add: runs_decisions_def initial_view_def run_effect_def initial_resource_def)

text \<open>Every request went to the investigation of the address, as long as the server speaks of it.\<close>
definition posts_to_address :: "runner_view \<Rightarrow> bool" where
  "posts_to_address v \<longleftrightarrow>
     pred_option (\<lambda>st. iv_id st = rv_id v) (rc_data (rv_investigation v)) \<and> list_all (\<lambda>q. fst q = rv_id v) (rv_sent v)"

lemma posts_to_address_step:
  assumes inv: "posts_to_address v" and step: "view_step newId v ev = Some v'" and honest: "same_investigation v ev"
  shows "posts_to_address v'"
proof (cases ev)
  case (Investigation_Answer res)
  with step obtain r where r: "answer_load res (rv_investigation v) = Some r" and v': "v' = show_investigation r v" by auto
  from answer_load_data [OF r] inv honest show ?thesis
    by (auto simp: v' Investigation_Answer posts_to_address_def same_investigation_def split: sum.splits)
next
  case (In_Form e)
  with step have "view_step newId v (In_Form e) = Some v'" by simp
  then obtain st r where st: "rc_data (rv_investigation v) = Some st" "runner_step newId (runner_of v st) e = Some r"
    and after: "rc_data (rv_investigation v') = Some (rn_state r)" "rv_id v' = rv_id v"
      "\<exists>new. rv_sent v' = rv_sent v @ map (Pair (iv_id st)) new" by (rule form_step)
  have "iv_id (rn_state r) = rv_id v"
    using state_after [OF st(2)] inv st(1) honest In_Form
    by (cases e) (auto simp: posts_to_address_def same_investigation_def runner_of_def)
  with after inv st(1) show ?thesis by (auto simp: posts_to_address_def list_all_iff)
qed (use inv step in \<open>auto simp: posts_to_address_def split: shown_screen.splits if_splits\<close>)

interpretation posting: machine_invariant "view_step newId" same_investigation posts_to_address for newId
  by unfold_locales (rule posts_to_address_step)

lemma view_facts:
  assumes "view_reach newId (initial_view i c m) v"
  shows "runs_decisions newId c m v" "posts_to_address v" "rv_id v = i"
proof -
  show "runs_decisions newId c m v" by (rule running.holds [OF assms initial_runs])
  show "posts_to_address v"
    by (rule posting.holds [OF assms])
      (simp add: posts_to_address_def initial_view_def run_effect_def initial_resource_def)
  show "rv_id v = i"
    using assms
  proof (induction rule: reach.induct)
    case (more v ev v')
    show ?case
    proof (cases ev)
      case (In_Form e)
      with more.hyps(2) have "view_step newId v (In_Form e) = Some v'" by simp
      then have "rv_id v' = rv_id v" by (rule form_step)
      with more.IH show ?thesis by simp
    qed (use more in \<open>auto split: shown_screen.splits if_splits\<close>)
  qed (simp add: initial_view_def)
qed

text \<open>A screen that loads, chooses and submits.\<close>
lemma sample_view_run:
  "\<exists>v1 v. view_step nat_text (initial_view (js ''i1'') 0 0) (Investigation_Answer (Inr sample_state)) = Some v1
     \<and> run (view_step nat_text) v1 [In_Form (Choose (sample_choice ''e1'' ''Yes'')), In_Form Submit] = Some v
     \<and> rc_data (rv_investigation v) = Some sample_state \<and> rv_sent v \<noteq> []"
proof -
  let ?v0 = "initial_view (js ''i1'') 0 0"
  let ?choose = "In_Form (Choose (sample_choice ''e1'' ''Yes''))"
  obtain v1 where v1: "view_step nat_text ?v0 (Investigation_Answer (Inr sample_state)) = Some v1"
    "rc_data (rv_investigation v1) = Some sample_state" "runner_of v1 sample_state = initial_runner sample_state 0 0"
    by (simp add: initial_view_def answer_load_def run_effect_def initial_resource_def settle_def runner_of_def
        initial_runner_def)
  from sample_run obtain r where r: "run_runner nat_text (initial_runner sample_state 0 0)
      [Choose (sample_choice ''e1'' ''Yes''), Submit] = Some r" "rn_sent r \<noteq> []" by fastforce
  then obtain r1 where r1: "runner_step nat_text (initial_runner sample_state 0 0) (Choose (sample_choice ''e1'' ''Yes'')) = Some r1"
    "runner_step nat_text r1 Submit = Some r" by (auto simp del: runner_step.simps split: option.splits)
  have state: "rn_state r1 = sample_state" "rn_state r = sample_state"
    using state_after [OF r1(1)] state_after [OF r1(2)] by (simp_all add: initial_runner_def)
  obtain v2 where v2: "view_step nat_text v1 ?choose = Some v2" using v1 r1(1) by simp
  from form_step [OF v2] v1 r1(1) state have on_v2: "rc_data (rv_investigation v2) = Some sample_state" "runner_of v2 sample_state = r1"
    by (metis option.inject)+
  obtain v3 where v3: "view_step nat_text v2 (In_Form Submit) = Some v3" using on_v2 r1(2) by simp
  from form_step [OF v3] on_v2 r1(2) state have on_v3: "rc_data (rv_investigation v3) = Some sample_state" "runner_of v3 sample_state = r"
    by (metis option.inject)+
  have "run (view_step nat_text) v1 [?choose, In_Form Submit] = Some v3"
    using v2 v3 by (simp del: view_step.simps)
  with v1(1) on_v3 r(2) show ?thesis by (auto simp: runner_of_def simp del: view_step.simps)
qed

section \<open>Property\<close>

text \<open>C29. The runner's screen implements the decision machine. Whatever is answered, retried, edited
  and decided, once the investigation is loaded the screen is a reachable state of the form's machine
  started on some state of the server, so all that is proved of the machine holds of the screen; no
  answer to a load can come between, and every decision was posted to the investigation of the page.\<close>
theorem runner_screen_refines:
  assumes "view_reach newId (initial_view i c m) v" "rc_data (rv_investigation v) = Some st"
  shows "(\<exists>st0. runner_reach newId (initial_runner st0 c m) (runner_of v st))
    \<and> (\<forall>res. view_step newId v (Investigation_Answer res) = None) \<and> view_step newId v Retry_Investigation = None
    \<and> iv_id st = i \<and> list_all (\<lambda>q. fst q = i) (rv_sent v)"
proof -
  note facts = view_facts [OF assms(1)]
  from facts(1) assms(2) have "\<not> rc_loading (rv_investigation v)"
    "\<exists>st0. runner_reach newId (initial_runner st0 c m) (runner_of v st)" by (simp_all add: runs_decisions_def)
  moreover from this(1) have "answer_load res (rv_investigation v) = None" for res
    by (simp add: answer_load_def split: option.split)
  moreover have "view_step newId v Retry_Investigation = None"
    using assms(2) by (simp add: runner_screen_def)
  ultimately show ?thesis using facts(2,3) assms(2) by (simp add: posts_to_address_def)
qed

theorem runner_screen_refines_witness:
  "\<exists>v. rc_data (rv_investigation v) = Some sample_state \<and> rv_sent v \<noteq> []
     \<and> list_all (\<lambda>q. fst q = js ''i1'') (rv_sent v)
     \<and> (\<exists>st0. runner_reach nat_text (initial_runner st0 0 0) (runner_of v sample_state))"
proof -
  let ?v0 = "initial_view (js ''i1'') 0 0"
  obtain v1 v where v: "view_step nat_text ?v0 (Investigation_Answer (Inr sample_state)) = Some v1"
    "run (view_step nat_text) v1 [In_Form (Choose (sample_choice ''e1'' ''Yes'')), In_Form Submit] = Some v"
    "rc_data (rv_investigation v) = Some sample_state" "rv_sent v \<noteq> []" using sample_view_run by blast
  have "view_reach nat_text ?v0 v1"
    by (rule view_more [OF reach.start v(1)]) (simp add: same_investigation_def sample_state_def initial_view_def)
  then have "view_reach nat_text ?v0 v"
    by (rule run_reach [OF _ v(2)]) (simp add: same_investigation_def)
  from runner_screen_refines [OF this v(3)] v(3,4) show ?thesis by auto
qed

end
