(* ===== verification/Console.thy ===== *)
theory Console
  imports Routes Runner_Screen
begin

text \<open>
  The console as a whole: one screen is mounted at a time, links, navigations and the address bar lead
  from one to the next, and a screen that was left goes on only through what it had asked for: its loads are
  aborted (\<open>lib/use-resource.ts\<close>), but a handler that waits at an \<open>await\<close> runs to its end, and what
  it navigates to then takes the console there. All screens draw their ids from one
  \<open>crypto.randomUUID\<close>, so each runs on the part of the sequence that begins where it was mounted.
  A navigation of the screen on display supersedes one that it had asked for and not yet taken.
\<close>

section \<open>Screens\<close>

datatype display =
    At_Editor session
  | At_Library library
  | At_Start ingest_screen
  | At_Runner runner_view
  | At_Report report_view

datatype screen_event =
    On_Editor editor_event
  | On_Library library_event
  | On_Start ingest_event
  | On_Runner runner_view_event
  | On_Report report_event

fun place_step :: "(nat \<Rightarrow> uuid) \<Rightarrow> display \<Rightarrow> screen_event \<Rightarrow> display option" where
  "place_step newId (At_Editor s) (On_Editor e) = map_option At_Editor (session_step newId s e)"
| "place_step newId (At_Library l) (On_Library e) = map_option At_Library (library_step l e)"
| "place_step newId (At_Start g) (On_Start e) = map_option At_Start (ingest_step g e)"
| "place_step newId (At_Runner v) (On_Runner e) = map_option At_Runner (view_step newId v e)"
| "place_step newId (At_Report r) (On_Report e) = map_option At_Report (report_step r e)"
| "place_step newId _ _ = None"

text \<open>How many ids a screen has drawn: rows of the editor, keys of decisions, and the nodes and edges
  of each worked example that was installed.\<close>
fun place_drawn :: "display \<Rightarrow> nat" where
  "place_drawn (At_Editor s) = sc_drawn (ss_screen s)"
| "place_drawn (At_Library l) =
     (length DEMO_NODES + length DEMO_EDGES) * length (filter (\<lambda>q. q = Install_Create) (li_log l))"
| "place_drawn (At_Runner v) = rv_minted v"
| "place_drawn _ = 0"

text \<open>The part of a handler after its \<open>await\<close>: all that still happens on a screen that was left.\<close>
fun continuation :: "screen_event \<Rightarrow> bool" where
  "continuation (On_Editor (Put_Answer _)) = True"
| "continuation (On_Editor (editor_event.Create_Answer _)) = True"
| "continuation (On_Editor (editor_event.Publish_Answer _)) = True"
| "continuation (On_Editor (Clone_Answer _)) = True"
| "continuation (On_Library (library_event.Create_Answer _)) = True"
| "continuation (On_Library (Install_Answer _)) = True"
| "continuation (On_Library (library_event.Publish_Answer _)) = True"
| "continuation (On_Start (Ingest_Answer _)) = True"
| "continuation (On_Start (Start_Answer _)) = True"
| "continuation (On_Runner (In_Form (Landed _))) = True"
| "continuation (On_Runner (In_Form (Failed _))) = True"
| "continuation _ = False"

text \<open>Where the screen is about to go, and where a continuation asks to go when it ends.\<close>
fun departure :: "display \<Rightarrow> jstring option" where
  "departure (At_Editor s) = map_option (\<lambda>(p, v). editHref p v) (ss_opened s)"
| "departure (At_Start g) = map_option (\<lambda>i. js ''/investigations/'' @ i) (ig_opened g)"
| "departure _ = None"

fun asks :: "screen_event \<Rightarrow> display \<Rightarrow> jstring option" where
  "asks (On_Library (Install_Answer (Inr _))) (At_Library l) = Some (library_href (last (li_goto l)))"
| "asks (On_Start (Ingest_Answer (Inr _))) (At_Start g) = map_option ingest_href (ig_goto g)"
| "asks _ pl = departure pl"

section \<open>The console\<close>

text \<open>\<open>mt_base\<close> is the number of ids drawn before the screen was mounted. Of the screens that are no
  longer mounted, those of \<open>cn_left\<close> may still be waiting for an answer; those of \<open>cn_gone\<close> went with a
  full load of the page. \<open>cn_counter\<close> is the counter of evidence rows while no runner is on display.\<close>
record mounted =
  mt_base :: nat
  mt_place :: display

record console =
  cn_now :: mounted
  cn_left :: "mounted list"
  cn_gone :: "mounted list"
  cn_counter :: nat

definition next_base :: "mounted \<Rightarrow> nat" where
  "next_base m = mt_base m + place_drawn (mt_place m)"

definition supply_of :: "(nat \<Rightarrow> uuid) \<Rightarrow> mounted \<Rightarrow> nat \<Rightarrow> uuid" where
  "supply_of newId m n = newId (mt_base m + n)"

definition move :: "(nat \<Rightarrow> uuid) \<Rightarrow> mounted \<Rightarrow> screen_event \<Rightarrow> mounted option" where
  "move newId m e = map_option (\<lambda>pl. m\<lparr>mt_place := pl\<rparr>) (place_step (supply_of newId m) (mt_place m) e)"

definition counter_now :: "console \<Rightarrow> nat" where
  "counter_now c = (case mt_place (cn_now c) of At_Runner v \<Rightarrow> rv_counter v | _ \<Rightarrow> cn_counter c)"

fun fresh_place :: "nat \<Rightarrow> opened \<Rightarrow> display" where
  "fresh_place counter (Editing s) = At_Editor s"
| "fresh_place counter (Browsing l) = At_Library l"
| "fresh_place counter (Ingesting g) = At_Start g"
| "fresh_place counter (Running i) = At_Runner (initial_view i counter 0)"
| "fresh_place counter (Reading i) = At_Report (initial_report i)"

text \<open>A page stays mounted when the address that is opened is one of its own, up to its search
  parameters, which it is then handed.\<close>
fun stays :: "display \<Rightarrow> console_screen \<Rightarrow> bool" where
  "stays (At_Editor s) (Editor_Screen p v) = (sc_playbookId (ss_screen s) = p \<and> sc_versionId (ss_screen s) = v)"
| "stays (At_Library _) Playbooks_Screen = True"
| "stays (At_Start _) Start_Screen = True"
| "stays (At_Runner v) (Runner_Screen i) = (rv_id v = i)"
| "stays (At_Report r) (Report_Screen i) = (rp_id r = i)"
| "stays _ _ = False"

definition handed :: "search_params \<Rightarrow> display \<Rightarrow> screen_event option" where
  "handed params pl =
     (case pl of
        At_Library _ \<Rightarrow> Some (On_Library (Library_Address (map_of params (js ''playbook''), map_of params (js ''version''))))
      | At_Start _ \<Rightarrow> Some (On_Start (Ingest_Address params))
      | _ \<Rightarrow> None)"

definition open_console :: "jstring \<Rightarrow> console option" where
  "open_console href =
     map_option (\<lambda>o'. \<lparr>cn_now = \<lparr>mt_base = 0, mt_place = fresh_place 0 o'\<rparr>, cn_left = [], cn_gone = [], cn_counter = 0\<rparr>)
       (visit href)"

definition navigate :: "(nat \<Rightarrow> uuid) \<Rightarrow> jstring \<Rightarrow> console \<Rightarrow> console option" where
  "navigate newId href c =
     (case follow href of
        None \<Rightarrow> None
      | Some (screen, params) \<Rightarrow>
          if stays (mt_place (cn_now c)) screen then
            (case handed params (mt_place (cn_now c)) of
               None \<Rightarrow> Some c
             | Some e \<Rightarrow> map_option (\<lambda>m. c\<lparr>cn_now := m\<rparr>) (move newId (cn_now c) e))
          else Some (c\<lparr>cn_now := \<lparr>mt_base = next_base (cn_now c),
                                 mt_place = fresh_place (counter_now c) (open_screen (screen, params))\<rparr>,
                       cn_left := cn_left c @ [cn_now c], cn_counter := counter_now c\<rparr>))"

text \<open>A full load: the address is typed, or the page refreshed.\<close>
definition load_page :: "jstring \<Rightarrow> console \<Rightarrow> console option" where
  "load_page href c =
     map_option (\<lambda>o'. \<lparr>cn_now = \<lparr>mt_base = next_base (cn_now c), mt_place = fresh_place 0 o'\<rparr>, cn_left = [],
                       cn_gone = cn_gone c @ cn_left c @ [cn_now c], cn_counter = 0\<rparr>) (visit href)"

text \<open>\<open>Follow\<close> is a link or the browser's history, \<open>Depart\<close> takes the navigation the screen asked for,
  \<open>Late k\<close> is an answer to a screen that was left.\<close>
datatype console_event =
    Now screen_event
  | Follow jstring
  | Depart
  | Late nat screen_event
  | Load jstring

fun console_step :: "(nat \<Rightarrow> uuid) \<Rightarrow> console \<Rightarrow> console_event \<Rightarrow> console option" where
  "console_step newId c (Now e) = map_option (\<lambda>m. c\<lparr>cn_now := m\<rparr>) (move newId (cn_now c) e)"
| "console_step newId c (Follow href) = navigate newId href c"
| "console_step newId c Depart = Option.bind (departure (mt_place (cn_now c))) (\<lambda>href. navigate newId href c)"
| "console_step newId c (Late k e) =
     (if k < length (cn_left c) \<and> continuation e then
        Option.bind (move newId (cn_left c ! k) e) (\<lambda>m.
          let c' = c\<lparr>cn_left := (cn_left c)[k := m]\<rparr>
          in case asks e (mt_place m) of None \<Rightarrow> Some c' | Some href \<Rightarrow> navigate newId href c')
      else None)"
| "console_step newId c (Load href) = load_page href c"

text \<open>What is assumed of the answers is what each screen assumes; to a screen, an id that another
  has drawn before it is one that exists elsewhere.\<close>
definition ids_before :: "uuid set \<Rightarrow> (nat \<Rightarrow> uuid) \<Rightarrow> mounted \<Rightarrow> uuid set" where
  "ids_before foreign newId m = foreign \<union> newId ` {..<mt_base m}"

fun honest_to :: "uuid set \<Rightarrow> (nat \<Rightarrow> uuid) \<Rightarrow> (jstring \<Rightarrow> uuid \<Rightarrow> bool) \<Rightarrow> display \<Rightarrow> screen_event \<Rightarrow> bool" where
  "honest_to ids newId listed (At_Editor s) (On_Editor e) = honest_answer ids newId s e"
| "honest_to ids newId listed (At_Library l) (On_Library e) = well_named e"
| "honest_to ids newId listed (At_Start g) (On_Start e) = answer_listed listed g e"
| "honest_to ids newId listed (At_Runner v) (On_Runner e) = same_investigation v e"
| "honest_to ids newId listed _ _ = True"

definition honest_mounted :: "uuid set \<Rightarrow> (nat \<Rightarrow> uuid) \<Rightarrow> (jstring \<Rightarrow> uuid \<Rightarrow> bool) \<Rightarrow> mounted \<Rightarrow> screen_event \<Rightarrow> bool" where
  "honest_mounted foreign newId listed m e =
     honest_to (ids_before foreign newId m) (supply_of newId m) listed (mt_place m) e"

fun honest_console :: "uuid set \<Rightarrow> (nat \<Rightarrow> uuid) \<Rightarrow> (jstring \<Rightarrow> uuid \<Rightarrow> bool) \<Rightarrow> console \<Rightarrow> console_event \<Rightarrow> bool" where
  "honest_console foreign newId listed c (Now e) = honest_mounted foreign newId listed (cn_now c) e"
| "honest_console foreign newId listed c (Late k e) =
     (k < length (cn_left c) \<longrightarrow> honest_mounted foreign newId listed (cn_left c ! k) e)"
| "honest_console foreign newId listed c _ = True"

abbreviation console_reach :: "uuid set \<Rightarrow> (nat \<Rightarrow> uuid) \<Rightarrow> (jstring \<Rightarrow> uuid \<Rightarrow> bool) \<Rightarrow> console \<Rightarrow> console \<Rightarrow> bool" where
  "console_reach foreign newId listed \<equiv> reach (console_step newId) (honest_console foreign newId listed)"

lemma console_more:
  "console_reach foreign newId listed c0 c \<Longrightarrow> console_step newId c ev = Some c'
     \<Longrightarrow> honest_console foreign newId listed c ev \<Longrightarrow> console_reach foreign newId listed c0 c'"
  by (rule reach.more)

text \<open>Every screen there has been, oldest first, and every decision that was posted.\<close>
definition screens :: "console \<Rightarrow> mounted list" where
  "screens c = cn_gone c @ cn_left c @ [cn_now c]"

fun posted_by :: "display \<Rightarrow> (uuid \<times> decision_request) list" where
  "posted_by (At_Runner v) = rv_sent v"
| "posted_by _ = []"

definition posted :: "console \<Rightarrow> (uuid \<times> decision_request) list" where
  "posted c = concat (map (\<lambda>m. posted_by (mt_place m)) (screens c))"

section \<open>Every screen runs as its own machine\<close>

definition runs_alone :: "uuid set \<Rightarrow> (nat \<Rightarrow> uuid) \<Rightarrow> (jstring \<Rightarrow> uuid \<Rightarrow> bool) \<Rightarrow> mounted \<Rightarrow> bool" where
  "runs_alone foreign newId listed m \<longleftrightarrow>
     (case mt_place m of
        At_Editor s \<Rightarrow> \<exists>p v. session_reach (ids_before foreign newId m) (supply_of newId m) (initial_session p v) s
      | At_Library l \<Rightarrow> \<exists>p v. library_reach (initial_library p v) l
      | At_Start g \<Rightarrow> \<exists>a v. ingest_reach listed (initial_ingest a v) g
      | At_Runner v \<Rightarrow> \<exists>i n. view_reach (supply_of newId m) (initial_view i n 0) v
      | At_Report r \<Rightarrow> \<exists>i. reach report_step (\<lambda>_ _. True) (initial_report i) r)"

lemma supply_place [simp]:
  "supply_of newId (m\<lparr>mt_place := pl\<rparr>) = supply_of newId m"
  "ids_before foreign newId (m\<lparr>mt_place := pl\<rparr>) = ids_before foreign newId m"
  by (simp_all add: supply_of_def ids_before_def fun_eq_iff)

lemma fresh_alone: "runs_alone foreign newId listed \<lparr>mt_base = n, mt_place = fresh_place counter (open_screen sp)\<rparr>"
proof -
  obtain screen params where "sp = (screen, params)" by (cases sp)
  then show ?thesis by (cases screen) (auto simp: runs_alone_def intro: reach.start)
qed

lemma move_alone:
  assumes "runs_alone foreign newId listed m" "move newId m e = Some m'" "honest_mounted foreign newId listed m e"
  shows "runs_alone foreign newId listed m'"
proof -
  from assms(2) obtain pl where pl: "place_step (supply_of newId m) (mt_place m) e = Some pl" "m' = m\<lparr>mt_place := pl\<rparr>"
    by (auto simp: move_def)
  note unfolded = runs_alone_def honest_mounted_def
  show ?thesis
  proof (cases "mt_place m")
    case (At_Editor s)
    with pl(1) obtain ev s' where "e = On_Editor ev" "session_step (supply_of newId m) s ev = Some s'" "pl = At_Editor s'"
      by (cases e) auto
    with assms(1,3) At_Editor pl(2) show ?thesis by (auto simp: unfolded intro: reach.more)
  next
    case (At_Library l)
    with pl(1) obtain ev s' where "e = On_Library ev" "library_step l ev = Some s'" "pl = At_Library s'"
      by (cases e) auto
    with assms(1,3) At_Library pl(2) show ?thesis by (auto simp: unfolded intro: reach.more)
  next
    case (At_Start g)
    with pl(1) obtain ev s' where "e = On_Start ev" "ingest_step g ev = Some s'" "pl = At_Start s'"
      by (cases e) auto
    with assms(1,3) At_Start pl(2) show ?thesis by (auto simp: unfolded intro: reach.more)
  next
    case (At_Runner v)
    with pl(1) obtain ev s' where "e = On_Runner ev" "view_step (supply_of newId m) v ev = Some s'" "pl = At_Runner s'"
      by (cases e) auto
    with assms(1,3) At_Runner pl(2) show ?thesis by (auto simp: unfolded intro: view_more)
  next
    case (At_Report r)
    with pl(1) obtain ev s' where "e = On_Report ev" "report_step r ev = Some s'" "pl = At_Report s'"
      by (cases e) auto
    with assms(1) At_Report pl(2) show ?thesis by (auto simp: unfolded intro: reach.more)
  qed
qed

section \<open>Each screen draws its own ids\<close>

text \<open>From the first id a screen may draw to the first it has not drawn; one screen begins where the one
  before it has come to. The ids a screen has drawn are the first ones of its part of the source.\<close>
definition id_span :: "mounted \<Rightarrow> nat \<times> nat" where
  "id_span m = (mt_base m, next_base m)"

fun stacked :: "nat \<Rightarrow> mounted list \<Rightarrow> bool" where
  "stacked n [] = True"
| "stacked n (m # ms) \<longleftrightarrow> mt_base m = n \<and> stacked (next_base m) ms"

definition apart :: "mounted list \<Rightarrow> bool" where
  "apart ms \<longleftrightarrow> sorted_wrt (\<lambda>a b. snd a \<le> fst b) (map id_span ms)"

definition drawn_by :: "(nat \<Rightarrow> uuid) \<Rightarrow> mounted \<Rightarrow> uuid set" where
  "drawn_by newId m = supply_of newId m ` {..<place_drawn (mt_place m)}"

lemma drawn_by_span: "drawn_by newId m = newId ` {mt_base m..<next_base m}"
proof -
  have "(+) (mt_base m) ` {..<place_drawn (mt_place m)} = {mt_base m..<next_base m}"
    using image_add_atLeastLessThan [of "mt_base m" 0 "place_drawn (mt_place m)"]
    by (simp add: lessThan_atLeast0 next_base_def add.commute)
  moreover have "drawn_by newId m = newId ` (+) (mt_base m) ` {..<place_drawn (mt_place m)}"
    by (simp add: drawn_by_def supply_of_def image_image)
  ultimately show ?thesis by simp
qed

lemma stacked_snoc:
  "stacked n (ms @ [m]) \<longleftrightarrow> stacked n ms \<and> mt_base m = (if ms = [] then n else next_base (last ms))"
  by (induction ms arbitrary: n) auto

lemma stacked_spans: "map id_span ms = map id_span ms' \<Longrightarrow> stacked n ms \<longleftrightarrow> stacked n ms'"
proof (induction ms arbitrary: n ms')
  case (Cons m ms)
  then obtain m' ns where "ms' = m' # ns" "id_span m = id_span m'" "map id_span ms = map id_span ns"
    by (cases ms') auto
  moreover from Cons.IH [OF this(3)] have "stacked (next_base m) ms \<longleftrightarrow> stacked (next_base m) ns" .
  ultimately show ?case by (auto simp: id_span_def)
qed simp

lemma span_le: "mt_base m \<le> next_base m"
  by (simp add: next_base_def)

lemma stacked_above: "stacked n ms \<Longrightarrow> m \<in> set ms \<Longrightarrow> n \<le> mt_base m"
proof (induction ms arbitrary: n)
  case (Cons x ms)
  with span_le [of x] show ?case by fastforce
qed simp

lemma stacked_apart: "stacked n ms \<Longrightarrow> apart ms"
proof (induction ms arbitrary: n)
  case (Cons m ms)
  then have "\<forall>x\<in>set ms. next_base m \<le> mt_base x" "apart ms" using stacked_above by auto
  then show ?case by (simp add: apart_def id_span_def)
qed (simp add: apart_def)

text \<open>What was drawn before a screen was mounted is what the screens before it have drawn.\<close>
lemma stacked_drawn:
  assumes "stacked n ms" "j < length ms"
  shows "newId ` {n..<mt_base (ms ! j)} = (\<Union>m\<in>set (take j ms). drawn_by newId m)"
  using assms
proof (induction ms arbitrary: n j)
  case (Cons m ms)
  show ?case
  proof (cases j)
    case 0
    with Cons.prems show ?thesis by simp
  next
    case (Suc i)
    with Cons.prems have rest: "stacked (next_base m) ms" "i < length ms" "mt_base m = n" by simp_all
    have "{n..<mt_base (ms ! i)} = {mt_base m..<next_base m} \<union> {next_base m..<mt_base (ms ! i)}"
      using rest(3) span_le [of m] stacked_above [OF rest(1) nth_mem [OF rest(2)]] by auto
    with Cons.IH [OF rest(1,2)] Suc show ?thesis by (simp add: drawn_by_span image_Un)
  qed
qed simp

lemma continued_logs:
  "filter (\<lambda>q. q = Install_Create) (li_log (created_done a l)) = filter (\<lambda>q. q = Install_Create) (li_log l)"
  "li_log (installed_done b p l) = li_log l" "li_log (published_done b l) = li_log l"
  by (cases a; simp add: created_done_def split: list.split) (cases b; simp add: installed_done_def select_def published_done_def)+

lemma continuation_keeps_span:
  assumes "move newId m e = Some m'" "continuation e"
  shows "id_span m' = id_span m"
proof -
  from assms(1) obtain pl where pl: "place_step (supply_of newId m) (mt_place m) e = Some pl" "m' = m\<lparr>mt_place := pl\<rparr>"
    by (auto simp: move_def)
  have "place_drawn pl = place_drawn (mt_place m)"
  proof (cases "mt_place m")
    case (At_Editor s)
    with pl(1) assms(2) show ?thesis
      by (cases e rule: continuation.cases)
        (auto simp: session_step_def show_editor_def land_def seed_effect_def put_done_def create_done_def
          publish_done_def clone_done_def split: if_splits sum.splits option.splits list.splits)
  next
    case (At_Library l)
    with pl(1) assms(2) obtain ev s' where ev: "e = On_Library ev" "library_step l ev = Some s'" "pl = At_Library s'"
      by (cases e) auto
    have "filter (\<lambda>q. q = Install_Create) (li_log s') = filter (\<lambda>q. q = Install_Create) (li_log l)"
      using ev assms(2)
      by (cases ev) (auto simp: continued_logs split: if_splits)
    with At_Library ev(3) show ?thesis by simp
  next
    case (At_Start g)
    with pl(1) show ?thesis by (cases e) auto
  next
    case (At_Runner v)
    with pl(1) assms(2) show ?thesis
      by (cases e rule: continuation.cases)
        (auto simp: take_runner_def runner_of_def split: option.splits if_splits)
  next
    case (At_Report r)
    with pl(1) show ?thesis by (cases e) auto
  qed
  with pl(2) show ?thesis by (simp add: id_span_def next_base_def)
qed

lemma move_base: "move newId m e = Some m' \<Longrightarrow> mt_base m' = mt_base m"
  by (auto simp: move_def)

text \<open>What the screens of a console are: each runs alone, on the ids after those drawn before it.\<close>
definition console_inv :: "uuid set \<Rightarrow> (nat \<Rightarrow> uuid) \<Rightarrow> (jstring \<Rightarrow> uuid \<Rightarrow> bool) \<Rightarrow> console \<Rightarrow> bool" where
  "console_inv foreign newId listed c \<longleftrightarrow> list_all (runs_alone foreign newId listed) (screens c) \<and> stacked 0 (screens c)"

lemma now_moves:
  assumes "console_inv foreign newId listed c" "move newId (cn_now c) e = Some m"
    "honest_mounted foreign newId listed (cn_now c) e"
  shows "console_inv foreign newId listed (c\<lparr>cn_now := m\<rparr>)"
  using assms(1) move_alone [OF _ assms(2,3)] move_base [OF assms(2)] stacked_snoc [of 0 "cn_gone c @ cn_left c"]
  by (simp add: console_inv_def screens_def)

lemma opens_inv:
  assumes "console_inv foreign newId listed c" "mt_base m = next_base (cn_now c)"
    "mt_place m = fresh_place counter (open_screen sp)" "screens c' = screens c @ [m]"
  shows "console_inv foreign newId listed c'"
proof -
  have "runs_alone foreign newId listed m"
    using fresh_alone [of foreign newId listed "mt_base m"] assms(3) by (metis (full_types) mounted.surjective old.unit.exhaust)
  moreover have "stacked 0 (screens c @ [m])"
    using assms(1,2) by (simp add: console_inv_def stacked_snoc) (simp add: screens_def)
  ultimately show ?thesis using assms(1) by (simp add: console_inv_def assms(4))
qed

lemma navigate_inv:
  assumes "console_inv foreign newId listed c" "navigate newId href c = Some c'"
  shows "console_inv foreign newId listed c'"
proof -
  from assms(2) obtain screen params where to: "follow href = Some (screen, params)"
    by (auto simp: navigate_def split: option.splits)
  show ?thesis
  proof (cases "stays (mt_place (cn_now c)) screen")
    case True
    with to assms(2) consider "c' = c"
      | e m where "handed params (mt_place (cn_now c)) = Some e" "move newId (cn_now c) e = Some m" "c' = c\<lparr>cn_now := m\<rparr>"
      by (auto simp: navigate_def split: option.splits)
    then show ?thesis
    proof cases
      case (2 e m)
      have "honest_mounted foreign newId listed (cn_now c) e"
        using 2(1) by (auto simp: handed_def honest_mounted_def well_named_def answer_listed_def split: display.splits)
      with now_moves [OF assms(1) 2(2)] 2(3) show ?thesis by simp
    qed (use assms(1) in simp)
  next
    case False
    with to assms(2) have c': "c' = c\<lparr>cn_now := \<lparr>mt_base = next_base (cn_now c),
        mt_place = fresh_place (counter_now c) (open_screen (screen, params))\<rparr>,
        cn_left := cn_left c @ [cn_now c], cn_counter := counter_now c\<rparr>"
      by (simp add: navigate_def)
    then show ?thesis by (intro opens_inv [OF assms(1)]) (simp_all add: screens_def)
  qed
qed

lemma left_moves:
  assumes "console_inv foreign newId listed c" "k < length (cn_left c)" "move newId (cn_left c ! k) e = Some m"
    "continuation e" "honest_mounted foreign newId listed (cn_left c ! k) e"
  shows "console_inv foreign newId listed (c\<lparr>cn_left := (cn_left c)[k := m]\<rparr>)"
proof -
  have "runs_alone foreign newId listed (cn_left c ! k)"
    using assms(1,2) by (simp add: console_inv_def screens_def list_all_iff)
  from move_alone [OF this assms(3,5)] have "runs_alone foreign newId listed m" .
  then have "list_all (runs_alone foreign newId listed) ((cn_left c)[k := m])"
    using assms(1,2) set_update_subset_insert [of "cn_left c" k m]
    by (auto simp: console_inv_def screens_def list_all_iff)
  moreover have "map id_span ((cn_left c)[k := m]) = map id_span (cn_left c)"
    using assms(2) continuation_keeps_span [OF assms(3,4)] by (simp add: map_update list_update_same_conv)
  moreover from this have "map id_span (screens (c\<lparr>cn_left := (cn_left c)[k := m]\<rparr>)) = map id_span (screens c)"
    by (simp add: screens_def)
  from stacked_spans [OF this] have "stacked 0 (screens (c\<lparr>cn_left := (cn_left c)[k := m]\<rparr>))"
    using assms(1) by (simp add: console_inv_def)
  ultimately show ?thesis using assms(1) by (simp add: console_inv_def screens_def)
qed

lemma console_inv_step:
  assumes inv: "console_inv foreign newId listed c" and step: "console_step newId c ev = Some c'"
    and honest: "honest_console foreign newId listed c ev"
  shows "console_inv foreign newId listed c'"
proof (cases ev)
  case (Now e)
  with step obtain m where "move newId (cn_now c) e = Some m" "c' = c\<lparr>cn_now := m\<rparr>" by auto
  with now_moves [OF inv] honest Now show ?thesis by simp
next
  case (Late k e)
  with step obtain m where m: "k < length (cn_left c)" "continuation e" "move newId (cn_left c ! k) e = Some m"
    and c': "(case asks e (mt_place m) of None \<Rightarrow> Some (c\<lparr>cn_left := (cn_left c)[k := m]\<rparr>)
      | Some href \<Rightarrow> navigate newId href (c\<lparr>cn_left := (cn_left c)[k := m]\<rparr>)) = Some c'"
    by (auto simp: Let_def bind_eq_Some_conv split: if_splits)
  from left_moves [OF inv m(1,3,2)] honest Late m(1)
  have "console_inv foreign newId listed (c\<lparr>cn_left := (cn_left c)[k := m]\<rparr>)" by simp
  with c' show ?thesis by (auto split: option.splits dest: navigate_inv)
next
  case (Load href)
  with step obtain sp where "follow href = Some sp" and c': "c' = \<lparr>cn_now = \<lparr>mt_base = next_base (cn_now c),
      mt_place = fresh_place 0 (open_screen sp)\<rparr>, cn_left = [], cn_gone = cn_gone c @ cn_left c @ [cn_now c], cn_counter = 0\<rparr>"
    by (auto simp: load_page_def visit_def)
  then show ?thesis by (intro opens_inv [OF inv]) (simp_all add: screens_def)
qed (use step navigate_inv [OF inv] in \<open>auto simp: bind_eq_Some_conv\<close>)

interpretation whole_console: machine_invariant "console_step newId" "honest_console foreign newId listed"
    "console_inv foreign newId listed" for foreign newId listed
  by unfold_locales (rule console_inv_step)

lemma console_screens:
  assumes "console_reach foreign newId listed c0 c" "open_console href = Some c0"
  shows "console_inv foreign newId listed c"
proof (rule whole_console.holds [OF assms(1)])
  from assms(2) obtain sp where "c0 = \<lparr>cn_now = \<lparr>mt_base = 0, mt_place = fresh_place 0 (open_screen sp)\<rparr>,
      cn_left = [], cn_gone = [], cn_counter = 0\<rparr>"
    by (auto simp: open_console_def visit_def)
  with fresh_alone [of foreign newId listed] show "console_inv foreign newId listed c0"
    by (simp add: console_inv_def screens_def)
qed

section \<open>Keys\<close>

lemma supply_inj: "inj newId \<Longrightarrow> inj (supply_of newId m)"
  by (auto simp: supply_of_def inj_eq intro!: injI)

text \<open>Every decision a screen posted is about its own investigation, under a key it drew itself, and
  the key determines the decision.\<close>
lemma posted_alone:
  assumes "runs_alone foreign newId listed m" "inj newId"
  shows "\<exists>i. \<forall>q\<in>set (posted_by (mt_place m)). fst q = i \<and> (\<exists>n. mt_base m \<le> n \<and> n < next_base m \<and> fst (snd q) = newId n)"
    "one_body (map snd (posted_by (mt_place m)))"
proof -
  have "(\<exists>i. \<forall>q\<in>set (posted_by (mt_place m)). fst q = i \<and> (\<exists>n. mt_base m \<le> n \<and> n < next_base m \<and> fst (snd q) = newId n))
      \<and> one_body (map snd (posted_by (mt_place m)))"
  proof (cases "\<exists>v. mt_place m = At_Runner v \<and> rv_sent v \<noteq> []")
    case False
    then have "posted_by (mt_place m) = []" by (cases "mt_place m") auto
    then show ?thesis by (simp add: one_body_def)
  next
    case True
    then obtain v i n where v: "mt_place m = At_Runner v" "rv_sent v \<noteq> []"
      and reach: "view_reach (supply_of newId m) (initial_view i n 0) v"
      using assms(1) by (auto simp: runs_alone_def)
    note facts = view_facts [OF reach]
    from facts(1) v(2) obtain st st0 where "runner_reach (supply_of newId m) (initial_runner st0 n 0) (runner_of v st)"
      by (auto simp: runs_decisions_def split: option.splits)
    from runner_reach_inv [OF this supply_inj [OF assms(2)] runner_inv_initial]
    have "keys_minted (supply_of newId m) (rv_minted v) (map snd (rv_sent v))" "one_body (map snd (rv_sent v))"
      by (simp_all add: runner_inv_def runner_of_def)
    moreover from this(1) have "\<exists>x\<ge>mt_base m. x < next_base m \<and> fst (snd q) = newId x" if q: "q \<in> set (rv_sent v)" for q
    proof -
      from q \<open>keys_minted _ _ _\<close> obtain x where "x < rv_minted v" "fst (snd q) = newId (mt_base m + x)"
        by (auto simp: keys_minted_def supply_of_def)
      with v(1) show ?thesis by (intro exI [of _ "mt_base m + x"]) (simp add: next_base_def)
    qed
    moreover have "\<forall>q\<in>set (rv_sent v). fst q = rv_id v" using facts(2) by (simp add: posts_to_address_def list_all_iff)
    ultimately show ?thesis using v(1) by auto
  qed
  then show "\<exists>i. \<forall>q\<in>set (posted_by (mt_place m)). fst q = i \<and> (\<exists>n. mt_base m \<le> n \<and> n < next_base m \<and> fst (snd q) = newId n)"
    "one_body (map snd (posted_by (mt_place m)))" by simp_all
qed

lemma apart_same:
  assumes "apart ms" "m \<in> set ms" "m' \<in> set ms" "mt_base m \<le> n" "n < next_base m" "mt_base m' \<le> n" "n < next_base m'"
  shows "m = m'"
  using assms
proof (induction ms)
  case (Cons x ms)
  then have "\<forall>y\<in>set ms. next_base x \<le> mt_base y" "apart ms" by (auto simp: apart_def id_span_def)
  with Cons show ?case by fastforce
qed simp


section \<open>Links\<close>

text \<open>The links a screen shows, and those of the header, which every page has.\<close>
fun place_hrefs :: "(playbook_node list \<Rightarrow> playbook_edge list \<Rightarrow> graph_layout) \<Rightarrow> (jstring option \<Rightarrow> jstring)
     \<Rightarrow> (jstring \<Rightarrow> jstring option \<Rightarrow> jstring option) \<Rightarrow> display \<Rightarrow> jstring set"
where
  "place_hrefs lay shown spent (At_Editor s) =
     (case screen_of (ss_screen s) of
        Mismatch_Screen p v \<Rightarrow> {editHref p v}
      | Form_Screen \<Rightarrow> set_option (pg_library (editor_page shown (ss_screen s)))
          \<union> snd ` set_option (pg_frozen (editor_page shown (ss_screen s)))
      | Loading_Screen \<Rightarrow> {})"
| "place_hrefs lay shown spent (At_Library l) =
     insert (js ''/playbooks/new'')
       (\<Union>v\<in>set_option (rc_data (li_version l)).
          insert (vc_edit_href (version_card shown l v)) (set_option (vc_investigate (version_card shown l v))))"
| "place_hrefs lay shown spent (At_Start g) =
     (case bind_panel g of
        Candidate_List a cs \<Rightarrow>
          (\<lambda>cd. cr_graph (candidate_row shown (ig_preselected g) (ig_startingVersionId g) cd)) ` set cs
      | _ \<Rightarrow> {})"
| "place_hrefs lay shown spent (At_Runner v) =
     (\<Union>st\<in>set_option (rc_data (rv_investigation v)).
        set_option (hd_report_href (rn_header (runner_page lay shown spent (rv_version v) st)))
        \<union> (case rn_primary (runner_page lay shown spent (rv_version v) st) of
             Outcome o' \<Rightarrow> {oc_report_href o'} | Question _ \<Rightarrow> {}))"
| "place_hrefs lay shown spent (At_Report r) =
     (\<Union>rep\<in>set_option (rc_data (rp_report r)).
        {rg_library_href (report_page lay shown spent rep), su_runner_href (rg_summary (report_page lay shown spent rep))})"

definition header_hrefs :: "jstring set" where
  "header_hrefs = insert (js ''/playbooks'') (nv_href ` set NAV)"

text \<open>The ids the screen holds that its links and navigations are made of.\<close>
fun ids_of :: "display \<Rightarrow> uuid set" where
  "ids_of (At_Editor s) =
     set_option (sc_playbookId (ss_screen s)) \<union> set_option (sc_versionId (ss_screen s))
     \<union> (\<Union>v\<in>set_option (rc_data (sc_version (ss_screen s))). {v_playbook_id v, v_id v})
     \<union> (\<Union>(p, v)\<in>set_option (ss_opened s). {p, v})"
| "ids_of (At_Library l) = (\<Union>v\<in>set_option (rc_data (li_version l)). {v_playbook_id v, v_id v})"
| "ids_of (At_Start g) =
     (case bind_panel g of Candidate_List a cs \<Rightarrow> (\<Union>cd\<in>set cs. {cd_playbookId cd, vs_id (cd_version cd)}) | _ \<Rightarrow> {})
     \<union> set_option (ig_opened g)"
| "ids_of (At_Runner v) = iv_id ` set_option (rc_data (rv_investigation v))"
| "ids_of (At_Report r) =
     (\<Union>rep\<in>set_option (rc_data (rp_report r)).
        {v_playbook_id (rp_playbook_version rep), v_id (rp_playbook_version rep), rs_id (rp_investigation rep)})"

definition plain_ids :: "uuid set \<Rightarrow> bool" where
  "plain_ids ids \<longleftrightarrow> (\<forall>i\<in>ids. plain_id i \<and> i \<noteq> js ''new'')"

text \<open>Templates with a hole left empty open as well.\<close>
lemma follow_templates:
  assumes "list_all unreserved p" "list_all unreserved v"
  shows "follow (js ''/playbooks?playbook='' @ p @ js ''&version='' @ v) = Some (Playbooks_Screen, [(js ''playbook'', p), (js ''version'', v)])"
    "follow (js ''/investigations/new?version='' @ v) = Some (Start_Screen, [(js ''version'', v)])"
proof -
  have "read_search (template [(js ''playbook'', p), (js ''version'', v)]) = Some [(js ''playbook'', p), (js ''version'', v)]"
    "read_search (template [(js ''version'', v)]) = Some [(js ''version'', v)]"
    using assms by (intro read_template; simp)+
  with follow_plain(2) [OF pages_at(2) [unfolded PlaybooksPage_def]] follow_plain(2) [OF pages_at(5) [unfolded NewInvestigationPage_def]]
  show "follow (js ''/playbooks?playbook='' @ p @ js ''&version='' @ v) = Some (Playbooks_Screen, [(js ''playbook'', p), (js ''version'', v)])"
    "follow (js ''/investigations/new?version='' @ v) = Some (Start_Screen, [(js ''version'', v)])"
    unfolding hrefs_are_paths by simp_all
qed

lemma follow_fixed:
  "follow (js ''/playbooks'') = Some (Playbooks_Screen, [])"
  "follow (js ''/playbooks/new'') = Some (Editor_Screen None None, [])"
  "follow (js ''/investigations/new'') = Some (Start_Screen, [])"
proof -
  have paths: "js ''/playbooks'' = pathname_of [js ''playbooks'']"
    "js ''/playbooks/new'' = pathname_of [js ''playbooks'', js ''new'']"
    "js ''/investigations/new'' = pathname_of [js ''investigations'', js ''new'']"
    by (simp_all add: pathname_of_def js_simps)
  show "follow (js ''/playbooks'') = Some (Playbooks_Screen, [])"
    "follow (js ''/playbooks/new'') = Some (Editor_Screen None None, [])"
    "follow (js ''/investigations/new'') = Some (Start_Screen, [])"
    using follow_plain(1) [OF pages_at(2) [unfolded PlaybooksPage_def]]
      follow_plain(1) [OF pages_at(3) [unfolded NewPlaybookPage_def]]
      follow_plain(1) [OF pages_at(5) [unfolded NewInvestigationPage_def]]
    unfolding paths by simp_all
qed

lemma hrefs_open:
  assumes "plain_ids (ids_of pl)" "h \<in> place_hrefs lay shown spent pl \<union> header_hrefs"
  shows "\<exists>sp. follow h = Some sp"
proof -
  have unres: "list_all unreserved i" if "plain_id i" for i using that by (simp add: plain_id_def)
  have "\<exists>sp. follow h = Some sp" if "h \<in> header_hrefs"
    using that follow_fixed by (auto simp: header_hrefs_def NAV_def)
  moreover have "\<exists>sp. follow h = Some sp" if "h \<in> place_hrefs lay shown spent pl"
  proof (cases pl)
    case (At_Editor s)
    let ?e = "ss_screen s"
    have blanks: "list_all unreserved (or_else (sc_playbookId ?e) [])" "list_all unreserved (or_else (sc_versionId ?e) [])"
      using assms(1) At_Editor by (auto simp: plain_ids_def or_else_def plain_id_def split: option.split)
    show ?thesis
    proof (cases "screen_of ?e")
      case (Mismatch_Screen p v)
      then obtain d where "rc_data (sc_version ?e) = Some d" "p = v_playbook_id d" "v = v_id d"
        by (auto simp: screen_of_def split: if_splits option.splits)
      with assms(1) At_Editor have "plain_id p" "plain_id v" by (auto simp: plain_ids_def)
      with follow_edit that At_Editor Mismatch_Screen show ?thesis by auto
    next
      case Form_Screen
      with that At_Editor have "h = js ''/playbooks?playbook='' @ or_else (sc_playbookId ?e) [] @ js ''&version='' @ or_else (sc_versionId ?e) []
          \<or> h = js ''/investigations/new?version='' @ or_else (sc_versionId ?e) []"
        by (auto simp: editor_page_def Let_def split: if_splits)
      with follow_templates [OF blanks] show ?thesis by auto
    qed (use that At_Editor in simp)
  next
    case (At_Library l)
    with that consider "h = js ''/playbooks/new''"
      | v where "v \<in> set_option (rc_data (li_version l))" "h = editHref (v_playbook_id v) (v_id v)"
      | v where "v \<in> set_option (rc_data (li_version l))" "h = js ''/investigations/new?version='' @ v_id v"
      by (auto simp: version_card_def Let_def editHref_def split: if_splits)
    then show ?thesis
    proof cases
      case (2 v)
      with assms(1) At_Library have "plain_id (v_playbook_id v)" "plain_id (v_id v)" by (auto simp: plain_ids_def)
      with follow_edit 2(2) show ?thesis by blast
    next
      case (3 v)
      with assms(1) At_Library have "list_all unreserved (v_id v)" by (auto simp: plain_ids_def intro: unres)
      with follow_templates(2) [of "[]"] 3(2) show ?thesis by simp
    qed (use follow_fixed in simp)
  next
    case (At_Start g)
    with that obtain a cs cd where cd: "bind_panel g = Candidate_List a cs" "cd \<in> set cs"
      "h = js ''/playbooks?playbook='' @ cd_playbookId cd @ js ''&version='' @ vs_id (cd_version cd)"
      by (auto simp: candidate_row_def Let_def split: bind_panel.splits)
    with assms(1) At_Start have "list_all unreserved (cd_playbookId cd)" "list_all unreserved (vs_id (cd_version cd))"
      by (auto simp: plain_ids_def intro!: unres)
    with follow_templates(1) cd(3) show ?thesis by simp
  next
    case (At_Runner v)
    with that assms(1) show ?thesis
      using follow_report
      by (auto simp: plain_ids_def runner_page_def header_view_def outcome_view_def Let_def split: if_splits)
  next
    case (At_Report r)
    with that assms(1) show ?thesis
      using follow_templates unres follow_runner
      by (auto simp: plain_ids_def report_page_def summary_view_def Let_def)
  qed
  ultimately show ?thesis using assms(2) by blast
qed

section \<open>Runs used by the witnesses\<close>

lemma supply_first: "mt_base m = 0 \<Longrightarrow> supply_of newId m = newId"
  by (simp add: supply_of_def fun_eq_iff)

text \<open>The events of the runner on display are those of its machine.\<close>
lemma runner_on_display:
  assumes "mt_place (cn_now c) = At_Runner v" "run (view_step (supply_of newId (cn_now c))) v evs = Some v'"
  shows "run (console_step newId) c (map (\<lambda>e. Now (On_Runner e)) evs)
    = Some (c\<lparr>cn_now := (cn_now c)\<lparr>mt_place := At_Runner v'\<rparr>\<rparr>)"
  using assms
proof (induction evs arbitrary: c v)
  case Nil
  then have "c = c\<lparr>cn_now := (cn_now c)\<lparr>mt_place := At_Runner v'\<rparr>\<rparr>" by simp
  then show ?case by simp
next
  case (Cons e evs)
  then obtain w where w: "view_step (supply_of newId (cn_now c)) v e = Some w"
    "run (view_step (supply_of newId (cn_now c))) w evs = Some v'"
    by (auto simp del: view_step.simps split: option.splits)
  let ?c = "c\<lparr>cn_now := (cn_now c)\<lparr>mt_place := At_Runner w\<rparr>\<rparr>"
  have "console_step newId c (Now (On_Runner e)) = Some ?c"
    using Cons.prems(1) w(1) by (simp add: move_def del: view_step.simps)
  then have "run (console_step newId) c (map (\<lambda>e. Now (On_Runner e)) (e # evs)) = run (console_step newId) ?c (map (\<lambda>e. Now (On_Runner e)) evs)"
    by (simp del: console_step.simps)
  moreover have "run (console_step newId) ?c (map (\<lambda>e. Now (On_Runner e)) evs)
      = Some (?c\<lparr>cn_now := (cn_now ?c)\<lparr>mt_place := At_Runner v'\<rparr>\<rparr>)"
    by (rule Cons.IH) (use w(2) in simp_all)
  ultimately show ?case by simp
qed

text \<open>A runner that loads and sends, from its mounting on.\<close>
lemma posting_run:
  "\<exists>c0 c. open_console (js ''/investigations/i1'') = Some c0 \<and> console_reach {} nat_text listed c0 c \<and> posted c \<noteq> []"
proof -
  let ?v0 = "initial_view (js ''i1'') 0 0"
  have "visit (js ''/investigations/'' @ js ''i1'') = Some (Running (js ''i1''))"
    by (rule visit_links) (simp_all add: plain_id_def js_simps unreserved_def)
  then have "visit (js ''/investigations/i1'') = Some (Running (js ''i1''))" by (simp add: js_simps)
  then obtain c0 where c0: "open_console (js ''/investigations/i1'') = Some c0" "cn_now c0 = \<lparr>mt_base = 0, mt_place = At_Runner ?v0\<rparr>"
    by (simp add: open_console_def)
  obtain v1 v where v: "view_step nat_text ?v0 (Investigation_Answer (Inr sample_state)) = Some v1"
    "run (view_step nat_text) v1 [In_Form (Choose (sample_choice ''e1'' ''Yes'')), In_Form Submit] = Some v"
    "rv_sent v \<noteq> []" using sample_view_run by blast
  let ?c1 = "c0\<lparr>cn_now := (cn_now c0)\<lparr>mt_place := At_Runner v1\<rparr>\<rparr>"
  let ?c = "?c1\<lparr>cn_now := (cn_now ?c1)\<lparr>mt_place := At_Runner v\<rparr>\<rparr>"
  have step: "console_step nat_text c0 (Now (On_Runner (Investigation_Answer (Inr sample_state)))) = Some ?c1"
    using v(1) by (simp add: move_def supply_first c0(2) del: view_step.simps)
  have "console_reach {} nat_text listed c0 ?c1"
    by (rule console_more [OF reach.start step])
      (simp add: honest_mounted_def c0(2) same_investigation_def sample_state_def initial_view_def)
  moreover have "run (console_step nat_text) ?c1 (map (\<lambda>e. Now (On_Runner e))
      [In_Form (Choose (sample_choice ''e1'' ''Yes'')), In_Form Submit]) = Some ?c"
    by (rule runner_on_display) (use v(2) in \<open>simp_all add: supply_first c0(2)\<close>)
  moreover have "list_all (\<lambda>ev. \<forall>t. honest_console {} nat_text listed t ev) (map (\<lambda>e. Now (On_Runner e))
      [In_Form (Choose (sample_choice ''e1'' ''Yes'')), In_Form Submit])"
  proof -
    have "honest_to ids newId listed pl (On_Runner (In_Form e))" if "\<And>st. e \<noteq> Landed st" for ids newId pl e
      using that by (cases pl) (auto simp: same_investigation_def split: runner_event.split)
    then show ?thesis by (simp add: honest_mounted_def)
  qed
  ultimately have "console_reach {} nat_text listed c0 ?c" by (rule run_reach)
  moreover have "posted ?c \<noteq> []" using v(3) by (simp add: posted_def screens_def)
  ultimately show ?thesis using c0(1) by blast
qed

text \<open>A new playbook that is being saved.\<close>
lemma saving_run:
  "\<exists>s. run_session newId (initial_session None None)
       [Type_Name (js ''Triage''), Type_Alert_Type (js ''edr''), Press_Save] = Some s
     \<and> sc_saving (ss_screen s) \<and> sc_versionId (ss_screen s) = None \<and> ss_opened s = None"
  by (simp add: session_run_defs save_def Let_def missing_metadata_def no_metadata_errors_def clearNameError_def
      clearAlertTypeError_def serializePlaybookDraft_def root_errors_def js_simps trim_eq_Nil is_space_def)

text \<open>The events of the editor on display are those of its session.\<close>
lemma editor_on_display:
  assumes "mt_place (cn_now c) = At_Editor s" "run_session (supply_of newId (cn_now c)) s evs = Some s'"
  shows "run (console_step newId) c (map (\<lambda>e. Now (On_Editor e)) evs)
    = Some (c\<lparr>cn_now := (cn_now c)\<lparr>mt_place := At_Editor s'\<rparr>\<rparr>)"
  using assms
proof (induction evs arbitrary: c s)
  case Nil
  then have "c = c\<lparr>cn_now := (cn_now c)\<lparr>mt_place := At_Editor s'\<rparr>\<rparr>" by simp
  then show ?case by simp
next
  case (Cons e evs)
  then obtain t where t: "session_step (supply_of newId (cn_now c)) s e = Some t"
    "run_session (supply_of newId (cn_now c)) t evs = Some s'"
    by (auto split: option.splits)
  let ?c = "c\<lparr>cn_now := (cn_now c)\<lparr>mt_place := At_Editor t\<rparr>\<rparr>"
  have "console_step newId c (Now (On_Editor e)) = Some ?c"
    using Cons.prems(1) t(1) by (simp add: move_def)
  then have "run (console_step newId) c (map (\<lambda>e. Now (On_Editor e)) (e # evs)) = run (console_step newId) ?c (map (\<lambda>e. Now (On_Editor e)) evs)"
    by (simp del: console_step.simps)
  moreover have "run (console_step newId) ?c (map (\<lambda>e. Now (On_Editor e)) evs)
      = Some (?c\<lparr>cn_now := (cn_now ?c)\<lparr>mt_place := At_Editor s'\<rparr>\<rparr>)"
    by (rule Cons.IH) (use t(2) in simp_all)
  ultimately show ?case by simp
qed

text \<open>While the save is under way the designer goes on to the ingestion form and fills it in.\<close>
lemma left_while_saving:
  "\<exists>c0 c s g. open_console (js ''/playbooks/new'') = Some c0 \<and> console_reach {} newId listed c0 c
     \<and> mt_place (cn_now c) = At_Start g \<and> af_title (ig_form g) = js ''Beacon'' \<and> ig_opened g = None
     \<and> cn_left c = [\<lparr>mt_base = 0, mt_place = At_Editor s\<rparr>] \<and> cn_gone c = []
     \<and> sc_saving (ss_screen s) \<and> sc_versionId (ss_screen s) = None \<and> ss_opened s = None"
proof -
  obtain c0 where c0: "open_console (js ''/playbooks/new'') = Some c0" "cn_left c0 = []" "cn_gone c0 = []"
    "cn_now c0 = \<lparr>mt_base = 0, mt_place = At_Editor (initial_session None None)\<rparr>"
    by (simp add: open_console_def visit_def follow_fixed)
  let ?typed = "[Type_Name (js ''Triage''), Type_Alert_Type (js ''edr''), Press_Save]"
  obtain s where s: "run_session newId (initial_session None None) ?typed = Some s"
    "sc_saving (ss_screen s)" "sc_versionId (ss_screen s) = None" "ss_opened s = None"
    using saving_run by blast
  let ?c1 = "c0\<lparr>cn_now := (cn_now c0)\<lparr>mt_place := At_Editor s\<rparr>\<rparr>"
  let ?g = "initial_ingest None None"
  let ?g1 = "?g\<lparr>ig_form := BLANK\<lparr>af_title := js ''Beacon''\<rparr>\<rparr>"
  let ?m = "\<lparr>mt_base = next_base (cn_now ?c1), mt_place = At_Start ?g\<rparr>"
  let ?c2 = "?c1\<lparr>cn_now := ?m, cn_left := [cn_now ?c1], cn_counter := counter_now ?c1\<rparr>"
  let ?c3 = "?c2\<lparr>cn_now := ?m\<lparr>mt_place := At_Start ?g1\<rparr>\<rparr>"
  have "run (console_step newId) c0 (map (\<lambda>e. Now (On_Editor e)) ?typed) = Some ?c1"
    by (rule editor_on_display) (use s(1) in \<open>simp_all add: supply_first c0\<close>)
  moreover have "list_all (\<lambda>ev. \<forall>t. honest_console {} newId listed t ev) (map (\<lambda>e. Now (On_Editor e)) ?typed)"
  proof -
    have "honest_to ids source listed pl (On_Editor e)" if "answer_version e = None" for ids source pl e
      using that by (cases pl) (simp_all add: honest_answer_def)
    then show ?thesis by (simp add: honest_mounted_def)
  qed
  ultimately have "console_reach {} newId listed c0 ?c1" by (intro run_reach [OF reach.start])
  moreover have "console_step newId ?c1 (Follow (js ''/investigations/new'')) = Some ?c2"
    by (simp add: navigate_def follow_fixed c0)
  ultimately have "console_reach {} newId listed c0 ?c2" by (rule console_more) simp
  moreover have "console_step newId ?c2 (Now (On_Start (Type_Field Title (js ''Beacon'')))) = Some ?c3"
    by (simp add: move_def ingest_step_def alert_panel_def initial_ingest_def given_def mount_candidates_def
        run_effect_def initial_resource_def)
  ultimately have "console_reach {} newId listed c0 ?c3"
    by (rule console_more) (simp add: honest_mounted_def answer_listed_def)
  moreover have "cn_left ?c3 = [\<lparr>mt_base = 0, mt_place = At_Editor s\<rparr>]" "cn_gone ?c3 = []" by (simp_all add: c0)
  moreover have "mt_place (cn_now ?c3) = At_Start ?g1" "af_title (ig_form ?g1) = js ''Beacon''" "ig_opened ?g1 = None"
    by (simp_all add: initial_ingest_def)
  ultimately show ?thesis using c0(1) s(2-4) by blast
qed

section \<open>Properties\<close>

text \<open>C6. No idempotency key is ever used twice for different things, however long the console is used.
  Whatever screens are opened, left, refreshed and opened again, and whatever answers come late, two
  decisions posted under one key are the same decision on the same investigation.\<close>
theorem keys_unique_across_screens:
  assumes "inj newId" "open_console href = Some c0" "console_reach foreign newId listed c0 c"
    "(i, k, b) \<in> set (posted c)" "(i', k, b') \<in> set (posted c)"
  shows "i = i' \<and> b = b'"
proof -
  note inv = console_screens [OF assms(3,2)]
  have alone: "runs_alone foreign newId listed m" if "m \<in> set (screens c)" for m
    using inv that by (simp add: console_inv_def list_all_iff)
  note post = posted_alone [OF alone assms(1)]
  from assms(4,5) obtain m m' where m: "m \<in> set (screens c)" "(i, k, b) \<in> set (posted_by (mt_place m))"
    and m': "m' \<in> set (screens c)" "(i', k, b') \<in> set (posted_by (mt_place m'))"
    by (auto simp: posted_def)
  from post(1) [OF m(1)] m(2) obtain n where n: "mt_base m \<le> n" "n < next_base m" "k = newId n" by fastforce
  from post(1) [OF m'(1)] m'(2) obtain n' where n': "mt_base m' \<le> n'" "n' < next_base m'" "k = newId n'" by fastforce
  from assms(1) n(3) n'(3) have "n' = n" by (simp add: inj_eq)
  with apart_same [OF _ m(1) m'(1) n(1,2)] n' inv stacked_apart have "m = m'" by (auto simp: console_inv_def)
  with post(1) [OF m(1)] m(2) m'(2) have "i = i'" by (metis fst_conv)
  moreover have "b = b'"
    using post(2) [OF m(1)] m(2) m'(2) \<open>m = m'\<close> by (fastforce simp: one_body_def)
  ultimately show ?thesis ..
qed

theorem keys_unique_across_screens_witness:
  "\<exists>c0 c i k b. open_console (js ''/investigations/i1'') = Some c0 \<and> console_reach {} nat_text (\<lambda>_ _. True) c0 c
     \<and> (i, k, b) \<in> set (posted c) \<and> (\<forall>i' b'. (i', k, b') \<in> set (posted c) \<longrightarrow> i = i' \<and> b = b')"
proof -
  obtain c0 c where c: "open_console (js ''/investigations/i1'') = Some c0"
    "console_reach {} nat_text (\<lambda>_ _. True) c0 c" "posted c \<noteq> []" using posting_run by blast
  then obtain i k b where q: "(i, k, b) \<in> set (posted c)" by (metis list.set_intros(1) neq_Nil_conv prod_cases3)
  have "inj nat_text" by (simp add: inj_def)
  from keys_unique_across_screens [OF this c(1,2) q] c q show ?thesis by blast
qed

text \<open>The ids a screen has put on its form or sent as keys.\<close>
fun held_ids :: "display \<Rightarrow> uuid set" where
  "held_ids (At_Editor s) = draft_ids (sc_draft (ss_screen s)) \<union> ed_id ` set (pd_edges (sc_draft (ss_screen s)))"
| "held_ids pl = (\<lambda>(i, k, b). k) ` set (posted_by pl)"

lemma held_alone:
  assumes "runs_alone foreign newId listed m" "fresh_source foreign newId"
  shows "held_ids (mt_place m) \<subseteq> ids_before foreign newId m \<union> drawn_by newId m"
    "(\<forall>s. mt_place m \<noteq> At_Editor s) \<Longrightarrow> held_ids (mt_place m) \<subseteq> drawn_by newId m"
proof -
  have inj: "inj newId" using assms(2) by (simp add: fresh_source_def)
  have fresh: "fresh_source (ids_before foreign newId m) (supply_of newId m)"
    using assms(2) by (auto simp: fresh_source_def ids_before_def supply_of_def inj_eq intro!: injI)
  have keys: "(\<lambda>(i, k, b). k) ` set (posted_by (mt_place m)) \<subseteq> drawn_by newId m"
    using posted_alone(1) [OF assms(1) inj] by (fastforce simp: drawn_by_span)
  then show "(\<forall>s. mt_place m \<noteq> At_Editor s) \<Longrightarrow> held_ids (mt_place m) \<subseteq> drawn_by newId m"
    by (cases "mt_place m") simp_all
  show "held_ids (mt_place m) \<subseteq> ids_before foreign newId m \<union> drawn_by newId m"
  proof (cases "mt_place m")
    case (At_Editor s)
    with assms(1) obtain p v where "session_reach (ids_before foreign newId m) (supply_of newId m) (initial_session p v) s"
      by (auto simp: runs_alone_def)
    from session_inv [OF this fresh]
    have "good_draft (ids_before foreign newId m) (supply_of newId m) (sc_drawn (ss_screen s)) (sc_draft (ss_screen s))"
      by (simp add: editor_inv_def)
    then have "held_ids (At_Editor s) \<subseteq> drawn (ids_before foreign newId m) (supply_of newId m) (sc_drawn (ss_screen s))"
      by (auto simp: good_draft_def keyed_draft_def id_supply.keyed_def [OF source_supply [OF fresh]] draft_ids_def)
    with At_Editor show ?thesis by (auto simp: drawn_def drawn_by_def)
  qed (use keys in auto)
qed

text \<open>C7. The console is its screens, on one source of ids. Each screen there has ever been, in the order they
  were opened, is in a reachable state of its own machine, opened as its page opens it, whatever else
  was open before it, beside it in flight or after it; to it, the ids that exist elsewhere are those
  that did from the start and exactly those the screens before it have drawn. What it draws itself
  is apart from all of these. So every id on the form of an editor either existed elsewhere or was
  drawn by this editor or a screen before it, and every key a runner has sent is one it drew itself.
  (An answer that brings a version to an editor names no id that was not drawn by then.)\<close>
theorem console_is_its_screens:
  assumes "fresh_source foreign newId" "open_console href = Some c0" "console_reach foreign newId listed c0 c"
    "j < length (screens c)" "m = screens c ! j" "earlier = (\<Union>m'\<in>set (take j (screens c)). drawn_by newId m')"
  shows "(case mt_place m of
        At_Editor s \<Rightarrow> (\<exists>p v. session_reach (foreign \<union> earlier) (supply_of newId m) (initial_session p v) s)
          \<and> held_ids (mt_place m) \<subseteq> foreign \<union> earlier \<union> drawn_by newId m
      | At_Library l \<Rightarrow> \<exists>p v. library_reach (initial_library p v) l
      | At_Start g \<Rightarrow> \<exists>a v. ingest_reach listed (initial_ingest a v) g
      | At_Runner v \<Rightarrow> (\<exists>i n. view_reach (supply_of newId m) (initial_view i n 0) v)
          \<and> held_ids (mt_place m) \<subseteq> drawn_by newId m
      | At_Report r \<Rightarrow> \<exists>i. reach report_step (\<lambda>_ _. True) (initial_report i) r)
    \<and> drawn_by newId m \<inter> (foreign \<union> earlier) = {}
    \<and> fresh_source (foreign \<union> earlier) (supply_of newId m)"
proof -
  have inv: "list_all (runs_alone foreign newId listed) (screens c)" "stacked 0 (screens c)"
    using console_screens [OF assms(3,2)] by (simp_all add: console_inv_def)
  have alone: "runs_alone foreign newId listed m"
    using inv(1) assms(4,5) by (simp add: list_all_length)
  have before: "ids_before foreign newId m = foreign \<union> earlier"
    using stacked_drawn [OF inv(2) assms(4), of newId] assms(5,6) by (simp add: ids_before_def lessThan_atLeast0)
  have fresh: "fresh_source (ids_before foreign newId m) (supply_of newId m)"
    using assms(1) by (auto simp: fresh_source_def ids_before_def supply_of_def inj_eq intro!: injI)
  then have "drawn_by newId m \<inter> ids_before foreign newId m = {}" by (auto simp: fresh_source_def drawn_by_def)
  with alone fresh held_alone [OF alone assms(1)] show ?thesis
    unfolding before by (auto simp: runs_alone_def before split: display.splits)
qed

theorem console_is_its_screens_witness:
  "\<exists>c0 c s. open_console (js ''/playbooks/new'') = Some c0 \<and> console_reach {} nat_text (\<lambda>_ _. True) c0 c
     \<and> length (screens c) = 2 \<and> mt_place (screens c ! 0) = At_Editor s \<and> sc_saving (ss_screen s)
     \<and> held_ids (At_Editor s) \<subseteq> drawn_by nat_text (screens c ! 0)"
proof -
  obtain c0 c s where c: "open_console (js ''/playbooks/new'') = Some c0" "console_reach {} nat_text (\<lambda>_ _. True) c0 c"
    "cn_left c = [\<lparr>mt_base = 0, mt_place = At_Editor s\<rparr>]" "cn_gone c = []" "sc_saving (ss_screen s)"
    using left_while_saving [of nat_text "\<lambda>_ _. True"] by blast
  have fresh: "fresh_source {} nat_text" by (simp add: fresh_source_def inj_def)
  have here: "length (screens c) = 2" "mt_place (screens c ! 0) = At_Editor s" by (simp_all add: screens_def c(3,4))
  have "0 < length (screens c)" by (simp add: here)
  from console_is_its_screens [OF fresh c(1,2) this refl refl] here(2)
  have "held_ids (At_Editor s) \<subseteq> drawn_by nat_text (screens c ! 0)" by simp
  with c here show ?thesis by blast
qed

text \<open>Where a screen stands in the address, or will once the navigations it was handed have landed.\<close>
fun stands_at :: "display \<Rightarrow> search_params \<Rightarrow> bool" where
  "stands_at (At_Library l) params \<longleftrightarrow>
     last ((li_playbookId l, li_versionId l) # li_goto l) = (map_of params (js ''playbook''), map_of params (js ''version''))"
| "stands_at (At_Start g) params \<longleftrightarrow>
     (case ig_goto g of
        None \<Rightarrow> ig_alertId g = map_of params (js ''alert'') \<and> ig_preselected g = map_of params (js ''version'')
      | Some next \<Rightarrow> next = params)"
| "stands_at _ params = True"

text \<open>A navigation that opens a page ends on that page's screen, at the address that was opened.\<close>
lemma navigate_opens:
  assumes "follow href = Some (screen, params)"
    "stays (mt_place (cn_now c)) screen \<Longrightarrow> \<forall>g. mt_place (cn_now c) = At_Start g \<longrightarrow> ig_opened g = None"
  shows "\<exists>c'. navigate newId href c = Some c' \<and> stays (mt_place (cn_now c')) screen \<and> stands_at (mt_place (cn_now c')) params
    \<and> cn_left c' = cn_left c @ (if stays (mt_place (cn_now c)) screen then [] else [cn_now c])"
proof (cases "stays (mt_place (cn_now c)) screen")
  case False
  have "stays (fresh_place n (open_screen (screen, params))) screen
      \<and> stands_at (fresh_place n (open_screen (screen, params))) params" for n
    by (cases screen) (simp_all add: initial_session_def initial_view_def initial_report_def initial_library_def initial_ingest_def)
  with False assms(1) show ?thesis by (simp add: navigate_def)
next
  case True
  show ?thesis
  proof (cases "mt_place (cn_now c)")
    case (At_Library l)
    with True assms(1) show ?thesis by (cases screen) (simp_all add: navigate_def handed_def move_def)
  next
    case (At_Start g)
    have "ig_goto (mount_candidates h) = ig_goto h" for h by (simp add: mount_candidates_def split: option.split)
    with At_Start True assms show ?thesis
      by (cases screen) (simp_all add: navigate_def handed_def move_def ingest_step_def)
  qed (use True assms(1) in \<open>simp_all add: navigate_def handed_def\<close>)
qed

text \<open>C17. No link leads nowhere. Every link a screen shows and every link of the header opens a page of the
  console, and following it ends with that page's screen on display, standing at the address of the
  link or handed it as the next address to go to: the same screen when the page was on display already,
  and otherwise a new one, the old one being left. The same holds of the navigation a screen has asked
  for itself; while there is one, that one is taken and not a link. The ids the screen holds are taken
  to be plain ones, as every UUID is.\<close>
theorem no_link_leads_nowhere:
  assumes "plain_ids (ids_of (mt_place (cn_now c)))"
    "if departure (mt_place (cn_now c)) = None
     then ev = Follow href \<and> href \<in> place_hrefs lay shown spent (mt_place (cn_now c)) \<union> header_hrefs
     else ev = Depart \<and> departure (mt_place (cn_now c)) = Some href"
  shows "\<exists>screen params c'. follow href = Some (screen, params) \<and> console_step newId c ev = Some c'
    \<and> stays (mt_place (cn_now c')) screen \<and> stands_at (mt_place (cn_now c')) params
    \<and> cn_left c' = cn_left c @ (if stays (mt_place (cn_now c)) screen then [] else [cn_now c])"
proof (cases "departure (mt_place (cn_now c))")
  case None
  with assms(2) hrefs_open [OF assms(1)] obtain screen params where to: "follow href = Some (screen, params)" by fastforce
  have "\<forall>g. mt_place (cn_now c) = At_Start g \<longrightarrow> ig_opened g = None" using None by auto
  from navigate_opens [OF to this] None assms(2) to show ?thesis by auto
next
  case (Some there)
  with assms(2) have away: "departure (mt_place (cn_now c)) = Some href" and ev: "ev = Depart" by simp_all
  then consider s p v where "mt_place (cn_now c) = At_Editor s" "ss_opened s = Some (p, v)" "href = editHref p v"
    | g i where "mt_place (cn_now c) = At_Start g" "ig_opened g = Some i" "href = js ''/investigations/'' @ i"
    by (cases "mt_place (cn_now c)") auto
  then obtain screen params where to: "follow href = Some (screen, params)"
    and leaves: "stays (mt_place (cn_now c)) screen \<Longrightarrow> \<forall>g. mt_place (cn_now c) = At_Start g \<longrightarrow> ig_opened g = None"
  proof cases
    case (1 s p v)
    with assms(1) have "plain_id p" "plain_id v" by (auto simp: plain_ids_def)
    from that [OF follow_edit [OF this, folded 1(3)]] 1(1) show ?thesis by simp
  next
    case (2 g i)
    with assms(1) have "plain_id i" "i \<noteq> js ''new''" by (auto simp: plain_ids_def)
    from that [OF follow_runner [OF this, folded 2(3)]] 2(1) show ?thesis by simp
  qed
  from navigate_opens [OF to leaves, of newId] to away ev show ?thesis by auto
qed

theorem no_link_leads_nowhere_witness:
  "\<exists>c0 c'. open_console (js ''/playbooks'') = Some c0 \<and> console_step nat_text c0 (Follow (js ''/playbooks/new'')) = Some c'
     \<and> stays (mt_place (cn_now c')) (Editor_Screen None None) \<and> cn_left c' = [cn_now c0]"
proof -
  obtain c0 where c0: "open_console (js ''/playbooks'') = Some c0" "mt_place (cn_now c0) = At_Library (initial_library None None)"
    "cn_left c0 = []"
    by (simp add: open_console_def visit_def follow_fixed)
  have plain: "plain_ids (ids_of (mt_place (cn_now c0)))"
    by (simp add: c0(2) plain_ids_def initial_library_def run_effect_def initial_resource_def)
  have "if departure (mt_place (cn_now c0)) = None
     then Follow (js ''/playbooks/new'') = Follow (js ''/playbooks/new'')
       \<and> js ''/playbooks/new'' \<in> place_hrefs undefined (\<lambda>_. []) (\<lambda>_ _. None) (mt_place (cn_now c0)) \<union> header_hrefs
     else Follow (js ''/playbooks/new'') = Depart \<and> departure (mt_place (cn_now c0)) = Some (js ''/playbooks/new'')"
    by (simp add: c0(2))
  from no_link_leads_nowhere [OF plain this, of nat_text] c0 follow_fixed(2) show ?thesis by auto
qed

text \<open>C18. An answer that comes late takes the console away from what is being done. When the creation that an
  editor asked for lands after that editor was left, the console goes to the created playbook's first
  version, whatever screen is on display (unless it is the editor of that very version). That screen, as
  it stands and with all that was typed in it, is left in its turn, and of what is left only an answer
  it waits for can still go on.\<close>
theorem late_creation_takes_over:
  assumes "k < length (cn_left c)" "mt_place (cn_left c ! k) = At_Editor s"
    "sc_saving (ss_screen s)" "sc_versionId (ss_screen s) = None" "ss_opened s = None"
    "pb_versions created = w # ws" "plain_id (pb_id created)" "plain_id (vs_id w)"
    "\<not> stays (mt_place (cn_now c)) (Editor_Screen (Some (pb_id created)) (Some (vs_id w)))"
  shows "\<exists>c'. console_step newId c (Late k (On_Editor (editor_event.Create_Answer (Inr created)))) = Some c'
    \<and> mt_place (cn_now c') = At_Editor (initial_session (Some (pb_id created)) (Some (vs_id w)))
    \<and> length (cn_left c') = Suc (length (cn_left c)) \<and> cn_left c' ! length (cn_left c) = cn_now c
    \<and> (\<forall>e. \<not> continuation e \<longrightarrow> console_step newId c' (Late (length (cn_left c)) e) = None)"
proof -
  let ?s = "land (create_done (Inr created) (ss_screen s)) s"
  let ?m = "(cn_left c ! k)\<lparr>mt_place := At_Editor ?s\<rparr>"
  let ?c = "c\<lparr>cn_left := (cn_left c)[k := ?m]\<rparr>"
  let ?c' = "?c\<lparr>cn_now := \<lparr>mt_base = next_base (cn_now c),
        mt_place = At_Editor (initial_session (Some (pb_id created)) (Some (vs_id w)))\<rparr>,
      cn_left := (cn_left c)[k := ?m] @ [cn_now c], cn_counter := counter_now ?c\<rparr>"
  have "move newId (cn_left c ! k) (On_Editor (editor_event.Create_Answer (Inr created))) = Some ?m"
    using assms(2-5) by (simp add: move_def session_step_def)
  moreover have "ss_opened ?s = Some (pb_id created, vs_id w)"
    using assms(6) by (simp add: land_def create_done_def)
  moreover have "navigate newId (editHref (pb_id created) (vs_id w)) ?c = Some ?c'"
    using assms(9) by (simp add: navigate_def follow_edit [OF assms(7,8)])
  ultimately have "console_step newId c (Late k (On_Editor (editor_event.Create_Answer (Inr created)))) = Some ?c'"
    using assms(1) by (simp add: Let_def)
  then show ?thesis using assms(1) by (intro exI [of _ ?c'] conjI) (simp_all add: nth_append)
qed

text \<open>A designer saves a new playbook, goes on to the ingestion form before the answer is there, and fills it in.\<close>
theorem late_creation_takes_over_witness:
  "\<exists>c0 c g created c'. open_console (js ''/playbooks/new'') = Some c0 \<and> console_reach {} nat_text (\<lambda>_ _. True) c0 c
     \<and> mt_place (cn_now c) = At_Start g \<and> af_title (ig_form g) = js ''Beacon''
     \<and> console_step nat_text c (Late 0 (On_Editor (editor_event.Create_Answer (Inr created)))) = Some c'
     \<and> mt_place (cn_now c') = At_Editor (initial_session (Some (js ''p'')) (Some (js ''v'')))
     \<and> At_Start g \<in> mt_place ` set (cn_left c')"
proof -
  let ?vs = "\<lparr>vs_id = js ''v'', vs_version = 1, vs_status = Draft, vs_created_at = [], vs_published_at = None\<rparr>"
  let ?created = "\<lparr>pb_id = js ''p'', pb_name = js ''Triage'', pb_description = [], pb_alert_type = js ''edr'',
      pb_created_at = [], pb_updated_at = [], pb_versions = [?vs]\<rparr>"
  obtain c0 c s g where c: "open_console (js ''/playbooks/new'') = Some c0" "console_reach {} nat_text (\<lambda>_ _. True) c0 c"
    "mt_place (cn_now c) = At_Start g" "af_title (ig_form g) = js ''Beacon''"
    and left: "cn_left c = [\<lparr>mt_base = 0, mt_place = At_Editor s\<rparr>]"
      "sc_saving (ss_screen s)" "sc_versionId (ss_screen s) = None" "ss_opened s = None"
    using left_while_saving [of nat_text "\<lambda>_ _. True"] by blast
  have plain: "plain_id (pb_id ?created)" "plain_id (vs_id ?vs)" by (simp_all add: plain_id_def js_simps unreserved_def)
  have here: "0 < length (cn_left c)" "mt_place (cn_left c ! 0) = At_Editor s"
    "\<not> stays (mt_place (cn_now c)) (Editor_Screen (Some (pb_id ?created)) (Some (vs_id ?vs)))"
    using left(1) c(3) by simp_all
  have "pb_versions ?created = ?vs # []" by simp
  from late_creation_takes_over [OF here(1,2) left(2-4) this plain here(3), of nat_text] obtain c' where
    c': "console_step nat_text c (Late 0 (On_Editor (editor_event.Create_Answer (Inr ?created)))) = Some c'"
    "mt_place (cn_now c') = At_Editor (initial_session (Some (js ''p'')) (Some (js ''v'')))"
    "length (cn_left c') = 2" "cn_left c' ! 1 = cn_now c"
    using left(1) by auto
  from c'(3,4) have "cn_now c \<in> set (cn_left c')" by (metis nth_mem one_less_numeral_iff semiring_norm(76))
  with c(3) have "At_Start g \<in> mt_place ` set (cn_left c')" by force
  with c c'(1,2) show ?thesis by blast
qed

end
