(* ===== verification/Notice_View.thy ===== *)
theory Notice_View
  imports Api_Error Primitives
begin

text \<open>
  \<open>components/ErrorNotice.tsx\<close> as the element tree it renders. A function that a table lookup inherits
  renders as nothing (with the one inherited value that is an object, \<open>__proto__\<close>, React would give the
  page up); the ids of a graph problem are strings, as their type says.
\<close>

section \<open>The notice\<close>

definition lookup_text :: "lookup \<Rightarrow> react" where
  "lookup_text l = (case l of Own t \<Rightarrow> Txt t | _ \<Rightarrow> Nothing)"

definition lookup_truthy :: "lookup \<Rightarrow> bool" where
  "lookup_truthy l = (case l of Own t \<Rightarrow> t \<noteq> [] | Absent \<Rightarrow> False | _ \<Rightarrow> True)"

definition issue_place :: "string \<Rightarrow> json option \<Rightarrow> react" where
  "issue_place what i =
     (case i of
        Some (JStr t) \<Rightarrow>
          shown_if (t \<noteq> [])
            (elem ''span'' (attr ''title'' t @ attr ''class'' (js ''font-mono text-[11px] text-ink-faint''))
              [Txt (js what), Txt (shortId (Some t))])
      | _ \<Rightarrow> Nothing)"

definition issue_item :: "graph_issue \<Rightarrow> react" where
  "issue_item issue =
     elem ''li'' (attr ''class'' (js ''flex flex-wrap items-baseline gap-x-2 px-2.5 py-1.5''))
       [elem ''span'' (attr ''class'' (js ''text-[12.5px] text-ink'')) [lookup_text (explainGraphReason (gi_reason issue))],
        issue_place ''node '' (gi_node_id issue), issue_place ''edge '' (gi_edge_id issue)]"

definition issues_list :: "graph_issue list \<Rightarrow> react" where
  "issues_list issues =
     shown_if (issues \<noteq> [])
       (elem ''div'' (attr ''class'' (js ''rounded-[2px] border border-alarm/25 bg-panel''))
         [elem ''p'' (attr ''class'' (js ''label border-b border-alarm/20 px-2.5 py-1.5 !text-alarm''))
            [Txt (nat_text (length issues)), Txt (js '' graph problem''), Txt (if length issues = 1 then [] else js ''s'')],
          elem ''ul'' (attr ''class'' (js ''divide-y divide-rule'')) (map issue_item issues)])"

definition retry_button :: react where
  "retry_button = Button (Some Quiet) (Some (js ''ml-auto !text-alarm hover:!bg-alarm/10'')) [] [Txt (js ''Try again'')]"

definition ErrorNotice :: "thrown \<Rightarrow> bool \<Rightarrow> jstring option \<Rightarrow> react" where
  "ErrorNotice err retry className =
     (let n = error_notice err
      in elem ''div''
           (attr ''role'' (js ''alert'')
            @ attr ''class'' (js ''rounded-[3px] border border-alarm/40 bg-alarm-soft '' @ or_else className []))
           [elem ''div'' (attr ''class'' (js ''flex flex-wrap items-center gap-x-3 gap-y-1 border-b border-alarm/20 px-3 py-2''))
              [elem ''span'' (attr ''class'' (js ''font-mono text-[11px] font-medium uppercase tracking-[0.08em] text-alarm''))
                 [Txt (nt_code n)],
               (case nt_status n of
                  None \<Rightarrow> Nothing
                | Some code \<Rightarrow>
                    elem ''span'' (attr ''class'' (js ''font-mono text-[11px] text-alarm/70'')) [Txt (js ''HTTP ''), Txt (nat_text code)]),
               shown_if retry retry_button],
            elem ''div'' (attr ''class'' (js ''space-y-2 px-3 py-2.5''))
              [shown_if (lookup_truthy (nt_explanation n))
                 (elem ''p'' (attr ''class'' (js ''text-[13px] font-medium leading-snug text-ink'')) [lookup_text (nt_explanation n)]),
               elem ''p'' (attr ''class'' (js ''font-mono text-[11.5px] leading-relaxed text-ink-muted'')) [Txt (nt_message n)],
               issues_list (nt_issues n)]])"

section \<open>What it brings to a page\<close>

definition control :: "react \<Rightarrow> bool" where
  "control x \<longleftrightarrow> is_tag ''button'' x \<or> is_tag ''input'' x \<or> is_tag ''textarea'' x \<or> is_tag ''select'' x"

lemma is_tag_elem [simp]: "is_tag t (elem u attrs cs) \<longleftrightarrow> u = t"
  by (simp add: elem_def)

abbreviation controls :: "react \<Rightarrow> react list" where
  "controls \<equiv> elements control"

lemma control_elem [simp]: "control (elem t attrs cs) \<longleftrightarrow> t \<in> {''button'', ''input'', ''textarea'', ''select''}"
  by (auto simp: control_def elem_def)

lemma controls_Button [simp]: "controls (Button v c props [Txt t]) = [Button v c props [Txt t]]"
  by (simp add: Button_def)

lemma controls_lookup [simp]: "controls (lookup_text l) = []"
  by (simp add: lookup_text_def split: lookup.split)

lemma controls_place [simp]: "controls (issue_place w i) = []"
  by (auto simp: issue_place_def split: option.split json.split)

lemma controls_issues [simp]: "controls (issues_list issues) = []"
proof -
  have "concat (map controls (map issue_item is)) = []" for "is"
    by (induction "is") (simp_all add: issue_item_def)
  then show ?thesis by (simp add: issues_list_def)
qed

lemma notice_controls: "controls (ErrorNotice err retry c) = (if retry then [retry_button] else [])"
  by (simp add: ErrorNotice_def Let_def retry_button_def split: option.split)

section \<open>Property\<close>

text \<open>A problem as the server reports it: the node it is about, the edge it is about, each when there is
  one, and the reason.\<close>
type_synonym reported = "uuid option \<times> uuid option \<times> graph_reason"

definition rejection :: "nat \<Rightarrow> error_code \<Rightarrow> jstring \<Rightarrow> reported list \<Rightarrow> thrown" where
  "rejection status code m issues =
     Api_Failure (new_ApiError status
       \<lparr>eb_code = error_code_text code, eb_message = m,
        eb_details = Some (map (\<lambda>(node, edge, r). issue_json node edge r) issues)\<rparr>)"

text \<open>What is read of a problem: the sentence for its reason and the short ids of its node and its edge;
  and the ids in full, which show when one is pointed at.\<close>
definition named_by :: "string \<Rightarrow> uuid option \<Rightarrow> jstring" where
  "named_by what i = (case i of None \<Rightarrow> [] | Some t \<Rightarrow> js what @ shortId (Some t))"

fun reported_line :: "reported \<Rightarrow> jstring" where
  "reported_line (node, edge, r) =
     or_else (map_of GRAPH_REASONS (graph_reason_text r)) [] @ named_by ''node '' node @ named_by ''edge '' edge"

fun reported_titles :: "reported \<Rightarrow> jstring list" where
  "reported_titles (node, edge, r) = List.map_filter id [node, edge]"

definition titles_in :: "react \<Rightarrow> jstring list" where
  "titles_in e = List.map_filter (attribute ''title'') (elements (is_tag ''span'') e)"

fun reported_issue :: "reported \<Rightarrow> graph_issue" where
  "reported_issue (node, edge, r) =
     \<lparr>gi_node_id = map_option JStr node, gi_edge_id = map_option JStr edge, gi_reason = graph_reason_text r\<rparr>"

text \<open>The server leaves an id out; it never sends an empty one.\<close>
fun ids_given :: "reported \<Rightarrow> bool" where
  "ids_given (node, edge, r) \<longleftrightarrow> node \<noteq> Some [] \<and> edge \<noteq> Some []"

lemma reason_text: "text_of (lookup_text (explainGraphReason (graph_reason_text r))) = or_else (map_of GRAPH_REASONS (graph_reason_text r)) []"
proof -
  obtain t where "explainGraphReason (graph_reason_text r) = Own t" "map_of GRAPH_REASONS (graph_reason_text r) = Some t"
    using explain_reason by blast
  then show ?thesis by (simp add: lookup_text_def or_else_def)
qed

lemma lookup_no_elements [simp]: "elements p (lookup_text l) = []"
  by (simp add: lookup_text_def split: lookup.split)

lemma place_shown:
  assumes "i \<noteq> Some []"
  shows "text_of (issue_place what (map_option JStr i)) = named_by what i"
    "List.map_filter (attribute ''title'') (elements (is_tag ''span'') (issue_place what (map_option JStr i))) = List.map_filter id [i]"
    "elements (is_tag ''li'') (issue_place what (map_option JStr i)) = []"
  using assms
  by (cases i; simp add: issue_place_def named_by_def shown_if_def elem_def attr_def List.map_filter_def)+

lemma reported_item:
  assumes "ids_given i"
  shows "text_of (issue_item (reported_issue i)) = reported_line i"
    "titles_in (issue_item (reported_issue i)) = reported_titles i"
    "elements (is_tag ''li'') (issue_item (reported_issue i)) = [issue_item (reported_issue i)]"
proof -
  obtain node edge r where i: "i = (node, edge, r)" by (cases i)
  with assms have "node \<noteq> Some []" "edge \<noteq> Some []" by simp_all
  note places = place_shown [OF this(1)] place_shown [OF this(2)]
  show "text_of (issue_item (reported_issue i)) = reported_line i"
    by (simp add: i issue_item_def places reason_text)
  show "elements (is_tag ''li'') (issue_item (reported_issue i)) = [issue_item (reported_issue i)]"
    by (simp add: i issue_item_def places elem_def)
  show "titles_in (issue_item (reported_issue i)) = reported_titles i"
    using places(2,5)
    by (cases node; cases edge) (simp_all add: i issue_item_def titles_in_def List.map_filter_def elem_def attr_def)
qed

lemma reported_items:
  assumes "list_all ids_given issues"
  shows "elements (is_tag ''li'') (issues_list (map reported_issue issues)) = map (\<lambda>i. issue_item (reported_issue i)) issues"
    "issues \<noteq> [] \<Longrightarrow> text_of (issues_list (map reported_issue issues))
      = nat_text (length issues) @ js '' graph problem'' @ (if length issues = 1 then [] else js ''s'')
        @ concat (map reported_line issues)"
proof -
  have "concat (map (elements (is_tag ''li'')) (map issue_item (map reported_issue issues))) = map (\<lambda>i. issue_item (reported_issue i)) issues"
    using assms by (induction issues) (simp_all add: reported_item)
  then show "elements (is_tag ''li'') (issues_list (map reported_issue issues)) = map (\<lambda>i. issue_item (reported_issue i)) issues"
    by (cases issues) (simp_all add: issues_list_def)
  have "concat (map (text_of \<circ> (issue_item \<circ> reported_issue)) issues) = concat (map reported_line issues)"
    using assms by (induction issues) (simp_all add: reported_item)
  then show "issues \<noteq> [] \<Longrightarrow> text_of (issues_list (map reported_issue issues))
      = nat_text (length issues) @ js '' graph problem'' @ (if length issues = 1 then [] else js ''s'')
        @ concat (map reported_line issues)"
    by (simp add: issues_list_def)
qed

lemma rejection_notice:
  "nt_issues (error_notice (rejection status code m issues)) = map reported_issue issues"
  "nt_code (error_notice (rejection status code m issues)) = error_code_text code"
  "nt_status (error_notice (rejection status code m issues)) = (if status > 0 then Some status else None)"
proof -
  have "List.map_filter asGraphIssue (map (\<lambda>(node, edge, r). issue_json node edge r) issues) = map reported_issue issues"
    by (induction issues) (auto simp: map_filter_simps asGraphIssue_issue_json)
  moreover have "error_code_text code \<noteq> []" by (cases code) simp_all
  ultimately show "nt_issues (error_notice (rejection status code m issues)) = map reported_issue issues"
    "nt_code (error_notice (rejection status code m issues)) = error_code_text code"
    "nt_status (error_notice (rejection status code m issues)) = (if status > 0 then Some status else None)"
    by (simp_all add: rejection_def error_notice_def new_ApiError_def)
qed

text \<open>C25. A rejected publication is put on the screen in full. Under the code and the HTTP status there is one
  line for every graph problem the server reported, in the server's order, with the sentence for its
  reason and, where the problem names a node or an edge, that id in full within reach of its short
  form; the heading above the lines counts them, and no other lines are shown. An id the server
  sends is taken not to be empty.\<close>
theorem rejection_on_screen:
  assumes "issues \<noteq> []" "list_all ids_given issues" "status > 0"
  shows "(let tree = ErrorNotice (rejection status code m issues) retry className; items = elements (is_tag ''li'') tree
    in map (\<lambda>li. (text_of li, titles_in li)) items = map (\<lambda>i. (reported_line i, reported_titles i)) issues
      \<and> (\<exists>between. text_of tree = error_code_text code @ js ''HTTP '' @ nat_text status @ between
            @ nat_text (length issues) @ js '' graph problem'' @ (if length issues = 1 then [] else js ''s'')
            @ concat (map reported_line issues)))"
proof -
  let ?n = "error_notice (rejection status code m issues)"
  let ?tree = "ErrorNotice (rejection status code m issues) retry className"
  note facts = rejection_notice [of status code m issues]
  have items: "elements (is_tag ''li'') ?tree = map (\<lambda>i. issue_item (reported_issue i)) issues"
    using reported_items(1) [OF assms(2)] assms(3)
    by (simp add: ErrorNotice_def Let_def facts retry_button_def Button_def shown_if_def elem_def)
  have "map (\<lambda>li. (text_of li, titles_in li)) (map (\<lambda>i. issue_item (reported_issue i)) issues) = map (\<lambda>i. (reported_line i, reported_titles i)) issues"
    using assms(2) by (induction issues) (simp_all add: reported_item)
  moreover have "\<exists>between. text_of ?tree = error_code_text code @ js ''HTTP '' @ nat_text status @ between
      @ text_of (issues_list (map reported_issue issues))"
    using assms(3) by (intro exI [of _ "(if retry then text_of retry_button else [])
        @ (if lookup_truthy (nt_explanation ?n) then text_of (lookup_text (nt_explanation ?n)) else []) @ nt_message ?n"])
      (simp add: ErrorNotice_def Let_def facts)
  ultimately show ?thesis
    using items reported_items(2) [OF assms(2,1)] by (simp add: Let_def)
qed

theorem rejection_on_screen_witness:
  "elements (is_tag ''li'') (ErrorNotice (rejection 422 INVALID_PLAYBOOK_GRAPH [] [(Some (js ''n1''), None, R_cycle_detected), (None, Some (js ''e1''), R_dangling_reference), (None, None, R_missing_root)]) True None)
     \<noteq> []"
  using rejection_on_screen [of "[(Some (js ''n1''), None, R_cycle_detected), (None, Some (js ''e1''), R_dangling_reference), (None, None, R_missing_root)]" 422 INVALID_PLAYBOOK_GRAPH "[]" True None]
  by (auto simp: Let_def)

end
