(* ===== verification/Start_View.thy ===== *)
theory Start_View
  imports Ingest Decision_View Notice_View
begin

text \<open>
  The page of \<open>app/investigations/new/StartInvestigationScreen.tsx\<close> as an element tree over the state of
  the screen: the form, the ingested alert, the candidates. \<open>shown\<close> is \<open>timestamp\<close>. The property ties the controls to the machine: what
  the page lets a person do is what the machine takes as a step.
\<close>

section \<open>The form\<close>

text \<open>A control of the form that is a single line: its id, whether it must be filled, its value.\<close>
definition form_input :: "string \<Rightarrow> bool \<Rightarrow> attributes \<Rightarrow> jstring \<Rightarrow> jstring option \<Rightarrow> react" where
  "form_input name required props value' className =
     TextInput className (attr ''id'' (js name) @ flag ''required'' required @ attr ''value'' value' @ props)"

definition form_identity :: "alert_form \<Rightarrow> react" where
  "form_identity f =
     elem ''div'' (attr ''class'' (js ''grid gap-3 sm:grid-cols-2''))
       [LabelledField (js ''External id'')
          (Txt (js ''Optional. Re-ingesting the same id returns the existing alert rather than duplicating it.''))
          (Some (js ''external_id''))
          [form_input ''external_id'' False (attr ''placeholder'' (js ''INTERBELLUM-2026-0001''))
             (af_external_id f) (Some (js ''font-mono''))] None,
        LabelledField (js ''Alert type'') (Txt (js ''Must match a playbook'' @ [39] @ js ''s alert type.''))
          (Some (js ''alert_type''))
          [form_input ''alert_type'' True (attr ''placeholder'' (js ''unauthorized_plc_register_write''))
             (af_alert_type f) (Some (js ''font-mono''))] None]"

definition form_event :: "alert_form \<Rightarrow> react list" where
  "form_event f =
     [LabelledField (js ''Title'') Nothing (Some (js ''title'')) [form_input ''title'' True [] (af_title f) None] None,
      LabelledField (js ''Description'') Nothing (Some (js ''description''))
        [form_input ''description'' False [] (af_description f) None] None,
      LabelledField (js ''Occurred at (UTC)'')
        (Txt (js ''When the underlying event happened, not when it was ingested.'')) (Some (js ''occurred_at''))
        [form_input ''occurred_at'' True (attr ''type'' (js ''datetime-local'') @ attr ''step'' (js ''1''))
           (af_occurred_at f) (Some (js ''font-mono''))] None]"

definition form_payload :: "alert_form \<Rightarrow> react" where
  "form_payload f =
     LabelledField (js ''Payload'')
       (Txt (js ''Domain-specific JSON object. The engine stores it and hands it back; it never reads it.''))
       (Some (js ''payload''))
       [TextArea (Some (js ''font-mono !text-[11.5px]''))
          (attr ''id'' (js ''payload'') @ attr ''rows'' (js ''8'') @ attr ''value'' (af_payload f)
           @ attr ''spellcheck'' (js ''false''))] None"

definition ingest_form :: "ingest_screen \<Rightarrow> react" where
  "ingest_form s =
     elem ''form'' (attr ''class'' (js ''space-y-3''))
       ([form_identity (ig_form s)] @ form_event (ig_form s)
        @ [form_payload (ig_form s),
           shown_if (said (ig_payloadError s))
             (elem ''p'' (attr ''role'' (js ''alert'')
                @ attr ''class'' (js ''rounded-[2px] border border-alarm/40 bg-alarm-soft px-2.5 py-1.5 text-[12.5px] text-alarm''))
               [Txt (or_else (ig_payloadError s) [])]),
           (case ig_ingestError s of None \<Rightarrow> Nothing | Some err \<Rightarrow> ErrorNotice err False None),
           Button (Some Primary) None (attr ''type'' (js ''submit'') @ flag ''disabled'' (ig_ingesting s))
             [Txt (if ig_ingesting s then js ''Ingesting'' @ ellipsis else js ''Ingest alert'')]])"

section \<open>The ingested alert\<close>

definition mono_value :: "jstring \<Rightarrow> react" where
  "mono_value t = elem ''span'' (attr ''class'' (js ''font-mono text-[11.5px]'')) [Txt t]"

definition mono_word :: "string \<Rightarrow> react" where
  "mono_word t = elem ''span'' (attr ''class'' (js ''font-mono'')) [Txt (js t)]"

definition existed_note :: react where
  "existed_note =
     elem ''p'' (attr ''class'' (js ''rounded-[2px] border border-rule bg-sunken px-2.5 py-1.5 text-[12.5px] leading-snug text-ink-muted''))
       [Txt (js ''An alert with this external id already existed, so the API returned it unchanged ('' ),
        mono_word ''HTTP 200'',
        Txt (js '') instead of creating a duplicate. Ingestion is idempotent on ''),
        mono_word ''external_id'', Txt (js ''.'')]"

definition IngestedAlert :: "(jstring option \<Rightarrow> jstring) \<Rightarrow> alert resource \<Rightarrow> bool \<Rightarrow> react" where
  "IngestedAlert shown r wasExisting =
     (if rc_loading r then Loading (js ''the alert'')
      else case rc_error r of
        Some err \<Rightarrow> ErrorNotice err True None
      | None \<Rightarrow>
          (case rc_data r of
             None \<Rightarrow> Nothing
           | Some a \<Rightarrow>
               elem ''div'' (attr ''class'' (js ''space-y-3''))
                 [shown_if wasExisting existed_note,
                  elem ''dl'' (attr ''class'' (js ''grid grid-cols-2 gap-x-4 gap-y-3''))
                    [Field_Row (js ''Alert id'') [Id_Span (Some (al_id a)) (Some (js ''!text-[12px]''))] (Some (js ''col-span-2'')),
                     Field_Row (js ''Title'') [Txt (al_title a)] (Some (js ''col-span-2'')),
                     Field_Row (js ''Type'') [Chip (Some Tone_Neutral) [Txt (al_alert_type a)] None] (Some (js ''col-span-2'')),
                     Field_Row (js ''External id'') [mono_value (or_else (al_external_id a) em_dash)] None,
                     Field_Row (js ''Occurred at'') [mono_value (shown (Some (al_occurred_at a)))] None,
                     Field_Row (js ''Ingested at'') [mono_value (shown (Some (al_created_at a)))] None,
                     shown_if (al_description a \<noteq> [])
                       (Field_Row (js ''Description'') [Txt (al_description a)] (Some (js ''col-span-2'')))],
                  elem ''div'' []
                    [elem ''p'' (attr ''class'' (js ''label mb-1'')) [Txt (js ''Payload'')],
                     JsonBlock (JObj (al_payload a)) None (Some (js ''14rem''))],
                  Button (Some Quiet) None [] [Txt (js ''Ingest a different alert'')]]))"

section \<open>The candidates\<close>

definition mono_small :: "jstring \<Rightarrow> react" where
  "mono_small t = elem ''span'' (attr ''class'' (js ''font-mono text-[12px]'')) [Txt t]"

definition no_candidates :: "jstring \<Rightarrow> react" where
  "no_candidates alertType =
     Empty_State (js ''No published playbook for this alert type'')
       (elem ''p'' []
         [Txt (js ''Nothing is registered for ''), mono_small alertType,
          Txt (js '' yet. Publish a version whose playbook declares that alert type, then come back '' @ em_dash
            @ js '' the API rejects a mismatch with ''),
          mono_small (js ''ALERT_TYPE_MISMATCH''),
          Txt (js '' rather than recording an investigation whose questions never applied.'')])"

definition candidate_item :: "(jstring option \<Rightarrow> jstring) \<Rightarrow> uuid option \<Rightarrow> uuid option \<Rightarrow> candidate \<Rightarrow> react" where
  "candidate_item shown preselected starting cd =
     (let version = cd_version cd
      in elem ''li''
           (attr ''class'' (js ''flex flex-wrap items-center gap-x-3 gap-y-2 px-4 py-3 ''
              @ (if preselected = Some (vs_id version) then js ''bg-signal-soft'' else [])))
           [elem ''div'' (attr ''class'' (js ''min-w-0 flex-1''))
              [elem ''p'' (attr ''class'' (js ''text-[13px] font-medium leading-snug text-ink''))
                 [Txt (cd_playbookName cd), Txt (js '' ''),
                  elem ''span'' (attr ''class'' (js ''font-mono text-[11.5px] text-ink-muted''))
                    [Txt (js ''v''), Txt (number_text (Fin (vs_version version)))]],
               shown_if (cd_playbookDescription cd \<noteq> [])
                 (elem ''p'' (attr ''class'' (js ''mt-0.5 text-[12px] leading-snug text-ink-muted'')) [Txt (cd_playbookDescription cd)]),
               elem ''p'' (attr ''class'' (js ''mt-1 flex items-center gap-2''))
                 [Chip (Some (version_tone (vs_status version))) [Txt (status_text (vs_status version))] None,
                  elem ''span'' (attr ''class'' (js ''font-mono text-[10.5px] text-ink-faint''))
                    [Txt (js ''published ''), Txt (shown (vs_published_at version))]]],
            elem ''div'' (attr ''class'' (js ''flex items-center gap-2''))
              [elem ''a''
                 (attr ''href'' (js ''/playbooks?playbook='' @ cd_playbookId cd @ js ''&version='' @ vs_id version)
                  @ attr ''class'' (js ''text-[12.5px] text-ink-muted underline decoration-rule-strong underline-offset-2 hover:text-ink''))
                 [Txt (js ''View graph'')],
               Button (Some Primary) None (flag ''disabled'' (starting \<noteq> None))
                 [Txt (if starting = Some (vs_id version) then js ''Starting'' @ ellipsis else js ''Start investigation'')]]])"

definition CandidateVersions ::
  "(jstring option \<Rightarrow> jstring) \<Rightarrow> jstring \<Rightarrow> candidate list resource \<Rightarrow> uuid option \<Rightarrow> uuid option
     \<Rightarrow> thrown option \<Rightarrow> react"
where
  "CandidateVersions shown alertType r preselected starting startError =
     (if rc_loading r then Loading (js ''compatible playbooks'')
      else case rc_error r of
        Some err \<Rightarrow> ErrorNotice err True (Some (js ''m-3''))
      | None \<Rightarrow>
          (if or_else (rc_data r) [] = [] then no_candidates alertType
           else elem ''div'' []
                  [(case startError of None \<Rightarrow> Nothing | Some err \<Rightarrow> ErrorNotice err False (Some (js ''m-3''))),
                   elem ''ul'' (attr ''class'' (js ''divide-y divide-rule''))
                     (map (candidate_item shown preselected starting) (or_else (rc_data r) []))]))"

section \<open>The page\<close>

definition start_heading :: react where
  "start_heading =
     elem ''div'' []
       [elem ''p'' (attr ''class'' (js ''label mb-1'')) [Txt (js ''Step 1 of 2 '' @ [0xB7] @ js '' ingest, then bind'')],
        elem ''h1'' (attr ''class'' (js ''text-[19px] font-semibold leading-tight text-ink'')) [Txt (js ''Start an investigation'')],
        elem ''p'' (attr ''class'' (js ''mt-1 max-w-2xl text-[13px] leading-relaxed text-ink-muted''))
          [Txt (js ''An alert is an opaque trigger '' @ em_dash @ js '' the engine never interprets its payload. An investigation binds that alert to one published playbook version, and a playbook only runs against the alert type it was written for.'')]]"

definition alert_panel_tree :: "(jstring option \<Rightarrow> jstring) \<Rightarrow> ingest_screen \<Rightarrow> react" where
  "alert_panel_tree shown s =
     Panel (Txt (if given (ig_alertId s) then js ''Alert ingested'' else js ''Ingest an alert''))
       (Txt (js ''POST /api/v1/alerts''))
       (shown_if (\<not> given (ig_alertId s)) (Button (Some Secondary) None [] [Txt (js ''Load PLC demo alert'')]))
       [if given (ig_alertId s) then IngestedAlert shown (ig_alert s) (ig_ingestedExisting s)
        else ingest_form s] None None"

text \<open>The list is mounted with the alert's data; \<open>ig_candidates\<close> is its own resource from then on.\<close>
definition bind_panel_tree :: "(jstring option \<Rightarrow> jstring) \<Rightarrow> ingest_screen \<Rightarrow> react" where
  "bind_panel_tree shown s =
     Panel (Txt (js ''Bind to a published playbook version'')) (Txt (js ''POST /api/v1/alerts/{alertId}/investigations'')) Nothing
       [(case (rc_data (ig_alert s), ig_candidates s) of
           (Some a, Some (t, r)) \<Rightarrow>
             CandidateVersions shown t r (ig_preselected s) (ig_startingVersionId s) (ig_startError s)
         | _ \<Rightarrow>
             Empty_State (js ''Ingest an alert first'')
               (elem ''p'' [] [Txt (js ''Compatible playbooks are found by matching the alert'' @ [39]
                  @ js ''s type, so there is nothing to list until the alert exists.'')]))]
       None (Some [])"

definition StartInvestigationScreen :: "(jstring option \<Rightarrow> jstring) \<Rightarrow> ingest_screen \<Rightarrow> react" where
  "StartInvestigationScreen shown s =
     elem ''div'' (attr ''class'' (js ''space-y-4''))
       [start_heading,
        elem ''div'' (attr ''class'' (js ''grid gap-4 lg:grid-cols-2''))
          [alert_panel_tree shown s, bind_panel_tree shown s]]"

section \<open>The controls of the page\<close>

lemma controls_inputs [simp]:
  "controls (TextInput c props) = [TextInput c props]" "controls (TextArea c props) = [TextArea c props]"
  by (simp_all add: TextInput_def TextArea_def)

lemma controls_LabelledField [simp]:
  "controls (LabelledField l h i cs c) = concat (map controls cs) @ controls h"
  by (cases h) (auto simp: LabelledField_def elem_def control_def)

lemma no_controls [simp]:
  "controls (Loading w) = []" "controls existed_note = []" "controls start_heading = []"
  "controls (Field_Row l [Txt t] c) = []" "controls (Field_Row l [mono_value u] c) = []"
  "controls (Field_Row l [Chip tone [Txt t] d] c) = []" "controls (Field_Row l [Id_Span i d] c) = []"
  "controls (JsonBlock j c m) = []" "controls (no_candidates t) = []"
  by (simp_all add: Loading_def existed_note_def mono_word_def start_heading_def Field_Row_def mono_value_def Chip_def
      Id_Span_def JsonBlock_def no_candidates_def Empty_State_def mono_small_def)

lemma controls_Panel:
  "truthy title \<Longrightarrow> controls (Panel title eyebrow actions children c b)
     = controls eyebrow @ controls title @ controls actions @ concat (map controls children)"
  by (cases eyebrow; cases actions) (auto simp: Panel_def)

definition form_controls :: "ingest_screen \<Rightarrow> react list" where
  "form_controls s =
     (let f = ig_form s
      in [form_input ''external_id'' False (attr ''placeholder'' (js ''INTERBELLUM-2026-0001'')) (af_external_id f) (Some (js ''font-mono'')),
          form_input ''alert_type'' True (attr ''placeholder'' (js ''unauthorized_plc_register_write'')) (af_alert_type f) (Some (js ''font-mono'')),
          form_input ''title'' True [] (af_title f) None,
          form_input ''description'' False [] (af_description f) None,
          form_input ''occurred_at'' True (attr ''type'' (js ''datetime-local'') @ attr ''step'' (js ''1'')) (af_occurred_at f) (Some (js ''font-mono'')),
          TextArea (Some (js ''font-mono !text-[11.5px]''))
            (attr ''id'' (js ''payload'') @ attr ''rows'' (js ''8'') @ attr ''value'' (af_payload f) @ attr ''spellcheck'' (js ''false''))])"

definition ingest_button :: "ingest_screen \<Rightarrow> react" where
  "ingest_button s =
     Button (Some Primary) None (attr ''type'' (js ''submit'') @ flag ''disabled'' (ig_ingesting s))
       [Txt (if ig_ingesting s then js ''Ingesting'' @ ellipsis else js ''Ingest alert'')]"

definition start_button :: "uuid option \<Rightarrow> candidate \<Rightarrow> react" where
  "start_button starting cd =
     Button (Some Primary) None (flag ''disabled'' (starting \<noteq> None))
       [Txt (if starting = Some (vs_id (cd_version cd)) then js ''Starting'' @ ellipsis else js ''Start investigation'')]"

definition plain_button :: "button_variant \<Rightarrow> string \<Rightarrow> react" where
  "plain_button v t = Button (Some v) None [] [Txt (js t)]"

definition noticed :: "bool \<Rightarrow> jstring option \<Rightarrow> thrown option \<Rightarrow> react list" where
  "noticed retry className err = (case err of None \<Rightarrow> [] | Some e \<Rightarrow> controls (ErrorNotice e retry className))"

lemma controls_form:
  "controls (ingest_form s) = form_controls s @ noticed False None (ig_ingestError s) @ [ingest_button s]"
  by (auto simp: ingest_form_def form_identity_def form_event_def form_payload_def form_controls_def Let_def form_input_def
      ingest_button_def noticed_def split: option.split)

lemma controls_ingested:
  "controls (IngestedAlert shown r e) =
     (if rc_loading r then []
      else if rc_error r \<noteq> None then noticed True None (rc_error r)
      else if rc_data r \<noteq> None then [plain_button Quiet ''Ingest a different alert''] else [])"
  by (auto simp: IngestedAlert_def noticed_def plain_button_def split: option.split)

lemma controls_candidates:
  "controls (CandidateVersions shown t r pre starting err) =
     (if rc_loading r then []
      else if rc_error r \<noteq> None then noticed True (Some (js ''m-3'')) (rc_error r)
      else if or_else (rc_data r) [] = [] then []
      else noticed False (Some (js ''m-3'')) err @ map (start_button starting) (or_else (rc_data r) []))"
proof -
  have item: "controls (candidate_item shown pre starting cd) = [start_button starting cd]" for cd
    by (simp add: candidate_item_def Let_def start_button_def Chip_def)
  have "concat (map controls (map (candidate_item shown pre starting) cds)) = map (start_button starting) cds" for cds
    by (induction cds) (simp_all add: item)
  then show ?thesis
    by (auto simp: CandidateVersions_def noticed_def split: option.split)
qed

definition listed_candidates :: "ingest_screen \<Rightarrow> candidate list" where
  "listed_candidates s = (case bind_panel s of Candidate_List a cs \<Rightarrow> cs | _ \<Rightarrow> [])"

definition notices :: "react set" where
  "notices = (\<Union>e b c. set (controls (ErrorNotice e b c)))"

lemma noticed_notices: "set (noticed b c err) \<subseteq> notices"
  by (auto simp: noticed_def notices_def split: option.split)

text \<open>The controls of the page, in order: those of the alert's panel, then one button for each candidate,
  and between them what the notices bring.\<close>
lemma controls_page:
  "\<exists>n1 n2. set n1 \<subseteq> notices \<and> set n2 \<subseteq> notices
     \<and> controls (StartInvestigationScreen shown s) =
         (case alert_panel s of
            Alert_Form \<Rightarrow> [plain_button Secondary ''Load PLC demo alert''] @ form_controls s @ n1 @ [ingest_button s]
          | Alert_Shown _ _ \<Rightarrow> [plain_button Quiet ''Ingest a different alert'']
          | _ \<Rightarrow> n1)
         @ n2 @ map (start_button (ig_startingVersionId s)) (listed_candidates s)"
proof -
  let ?left = "controls (alert_panel_tree shown s)" and ?right = "controls (bind_panel_tree shown s)"
  have left: "\<exists>n. set n \<subseteq> notices \<and> ?left = (case alert_panel s of
      Alert_Form \<Rightarrow> [plain_button Secondary ''Load PLC demo alert''] @ form_controls s @ n @ [ingest_button s]
    | Alert_Shown _ _ \<Rightarrow> [plain_button Quiet ''Ingest a different alert''] | _ \<Rightarrow> n)"
  proof (cases "given (ig_alertId s)")
    case False
    then have "alert_panel s = Alert_Form" by (simp add: alert_panel_def)
    moreover from False have "?left = [plain_button Secondary ''Load PLC demo alert''] @ controls (ingest_form s)"
      by (simp add: alert_panel_tree_def controls_Panel plain_button_def)
    ultimately show ?thesis using noticed_notices by (auto simp: controls_form)
  next
    case True
    then have "?left = controls (IngestedAlert shown (ig_alert s) (ig_ingestedExisting s))"
      by (simp add: alert_panel_tree_def controls_Panel shown_if_def)
    with True noticed_notices [of True None] show ?thesis
      by (auto simp: controls_ingested alert_panel_def noticed_def split: option.split)
  qed
  have right: "\<exists>n. set n \<subseteq> notices \<and> ?right = n @ map (start_button (ig_startingVersionId s)) (listed_candidates s)"
  proof (cases "\<exists>a t r. rc_data (ig_alert s) = Some a \<and> ig_candidates s = Some (t, r)")
    case False
    then have "?right = []" "listed_candidates s = []"
      by (auto simp: bind_panel_tree_def controls_Panel Empty_State_def listed_candidates_def bind_panel_def split: option.splits prod.splits)
    then show ?thesis by (intro exI [of _ "[]"]) simp
  next
    case True
    then obtain a t r where r: "rc_data (ig_alert s) = Some a" "ig_candidates s = Some (t, r)" by blast
    let ?n1 = "noticed True (Some (js ''m-3'')) (rc_error r)" and ?n2 = "noticed False (Some (js ''m-3'')) (ig_startError s)"
    from r have tree: "?right = controls (CandidateVersions shown t r (ig_preselected s) (ig_startingVersionId s) (ig_startError s))"
      by (simp add: bind_panel_tree_def controls_Panel)
    consider "rc_loading r" | "\<not> rc_loading r" "rc_error r \<noteq> None" | "\<not> rc_loading r" "rc_error r = None" by blast
    then show ?thesis
    proof cases
      case 2
      with tree r noticed_notices show ?thesis
        by (intro exI [of _ ?n1]) (auto simp: controls_candidates listed_candidates_def bind_panel_def)
    next
      case 3
      with tree r noticed_notices show ?thesis
        by (cases "or_else (rc_data r) [] = []"; intro exI [of _ "if or_else (rc_data r) [] = [] then [] else ?n2"])
          (auto simp: controls_candidates listed_candidates_def bind_panel_def or_else_def split: option.splits)
    qed (use tree r in \<open>simp_all add: controls_candidates listed_candidates_def bind_panel_def\<close>)
  qed
  from left obtain n1 where n1: "set n1 \<subseteq> notices" "?left = (case alert_panel s of
      Alert_Form \<Rightarrow> [plain_button Secondary ''Load PLC demo alert''] @ form_controls s @ n1 @ [ingest_button s]
    | Alert_Shown _ _ \<Rightarrow> [plain_button Quiet ''Ingest a different alert''] | _ \<Rightarrow> n1)" by blast
  from right obtain n2 where n2: "set n2 \<subseteq> notices" "?right = n2 @ map (start_button (ig_startingVersionId s)) (listed_candidates s)"
    by blast
  have "controls (StartInvestigationScreen shown s) = ?left @ ?right" by (simp add: StartInvestigationScreen_def)
  then show ?thesis using n1 n2 by (intro exI [of _ n1] exI [of _ n2]) simp
qed

section \<open>Property\<close>

definition enabled_control :: "react \<Rightarrow> bool" where
  "enabled_control x \<longleftrightarrow> attribute ''disabled'' x = None"

text \<open>The browser submits a form by an enabled submit button, once every control that must be filled is.\<close>
definition may_submit :: "react list \<Rightarrow> bool" where
  "may_submit cs \<longleftrightarrow>
     list_ex (\<lambda>x. attribute ''type'' x = Some (js ''submit'') \<and> enabled_control x) cs
     \<and> list_all (\<lambda>x. attribute ''required'' x \<noteq> None \<longrightarrow> attribute ''value'' x \<noteq> Some []) cs"

definition buttons_reading :: "jstring \<Rightarrow> react list \<Rightarrow> react list" where
  "buttons_reading t = filter (\<lambda>x. text_of x = t \<and> enabled_control x)"

definition start_labels :: "jstring set" where
  "start_labels = {js ''Start investigation'', js ''Starting'' @ ellipsis}"

lemma control_texts [simp]:
  "text_of (TextInput c props) = []" "text_of (TextArea c props) = []" "text_of (Button v c props [Txt t]) = t"
  by (simp_all add: TextInput_def TextArea_def Button_def)

lemma control_attributes:
  "attribute k (TextInput c props) = map_of (props @ attr ''class'' (CONTROL @ js '' '' @ or_else c [])) (js k)"
  "attribute k (TextArea c props) = map_of (props @ attr ''class'' (CONTROL @ js '' leading-snug '' @ or_else c [])) (js k)"
  by (simp_all add: TextInput_def TextArea_def)

lemma button_attribute: "k \<noteq> ''class'' \<Longrightarrow> attribute k (Button v c props ts) = map_of props (js k)"
  by (auto simp: Button_def attr_def map_add_def split: option.split)

lemma form_submit:
  "list_ex (\<lambda>x. attribute ''type'' x = Some (js ''submit'') \<and> enabled_control x) (form_controls s) = False"
  "list_all (\<lambda>x. attribute ''required'' x \<noteq> None \<longrightarrow> attribute ''value'' x \<noteq> Some []) (form_controls s)
     \<longleftrightarrow> af_alert_type (ig_form s) \<noteq> [] \<and> af_title (ig_form s) \<noteq> [] \<and> af_occurred_at (ig_form s) \<noteq> []"
  by (simp_all add: form_controls_def Let_def form_input_def control_attributes attr_def flag_def)

lemma button_facts:
  "attribute ''type'' (ingest_button s) = Some (js ''submit'')" "attribute ''required'' (ingest_button s) = None"
  "enabled_control (ingest_button s) \<longleftrightarrow> \<not> ig_ingesting s"
  "attribute ''type'' (start_button st cd) = None" "attribute ''required'' (start_button st cd) = None"
  "enabled_control (start_button st cd) \<longleftrightarrow> st = None"
  "attribute ''type'' (plain_button v t) = None" "attribute ''required'' (plain_button v t) = None"
  "enabled_control (plain_button v t)" "text_of (plain_button v t) = js t"
  by (simp_all add: ingest_button_def start_button_def plain_button_def enabled_control_def button_attribute attr_def flag_def)

lemma button_labels:
  "text_of (ingest_button s) \<notin> {js ''Load PLC demo alert'', js ''Ingest a different alert'', js ''Try again''} \<union> start_labels"
  "text_of (start_button st cd) \<in> start_labels"
  "js ''Load PLC demo alert'' \<notin> start_labels" "js ''Ingest a different alert'' \<notin> start_labels" "js ''Try again'' \<notin> start_labels"
  "[] \<notin> start_labels"
  by (auto simp: ingest_button_def start_button_def start_labels_def ellipsis_def js_simps)

lemma form_texts: "x \<in> set (form_controls s) \<Longrightarrow> text_of x = []"
  by (auto simp: form_controls_def Let_def form_input_def)

text \<open>A notice brings no control that could be taken for one of the page's own.\<close>
lemma notice_retries:
  assumes "x \<in> notices"
  shows "attribute ''type'' x = None \<and> attribute ''required'' x = None \<and> text_of x = js ''Try again''"
proof -
  have "x = retry_button" using assms by (auto simp: notices_def notice_controls split: if_splits)
  then show ?thesis by (simp add: retry_button_def button_attribute)
qed

text \<open>How each part of the page counts.\<close>
definition counts :: "react list \<Rightarrow> bool \<times> bool \<times> react list \<times> react list \<times> react list" where
  "counts cs =
     (list_ex (\<lambda>x. attribute ''type'' x = Some (js ''submit'') \<and> enabled_control x) cs,
      list_all (\<lambda>x. attribute ''required'' x \<noteq> None \<longrightarrow> attribute ''value'' x \<noteq> Some []) cs,
      buttons_reading (js ''Load PLC demo alert'') cs, buttons_reading (js ''Ingest a different alert'') cs,
      filter (\<lambda>x. text_of x \<in> start_labels) cs)"

lemma counts_append:
  "counts (xs @ ys) = (case (counts xs, counts ys) of ((a, b, c, d, e), (a', b', c', d', e')) \<Rightarrow>
     (a \<or> a', b \<and> b', c @ c', d @ d', e @ e'))"
  by (simp add: counts_def buttons_reading_def)

lemma counts_notice:
  assumes "\<And>x. x \<in> set n \<Longrightarrow> attribute ''type'' x = None \<and> attribute ''required'' x = None \<and> text_of x = js ''Try again''"
  shows "counts n = (False, True, [], [], [])"
  using assms button_labels(5) by (auto simp: counts_def buttons_reading_def list_ex_iff list_all_iff filter_empty_conv)

lemma counts_starts: "counts (map (start_button st) cds) = (False, True, [], [], map (start_button st) cds)"
proof -
  have "text_of (start_button st cd) \<noteq> js ''Load PLC demo alert''" "text_of (start_button st cd) \<noteq> js ''Ingest a different alert''" for cd
    using button_labels(2) [of st cd] button_labels(3,4) by metis+
  then show ?thesis
    using button_labels(2) by (induction cds) (simp_all add: counts_def buttons_reading_def button_facts)
qed

lemma counts_form:
  "counts (form_controls s) =
     (False, af_alert_type (ig_form s) \<noteq> [] \<and> af_title (ig_form s) \<noteq> [] \<and> af_occurred_at (ig_form s) \<noteq> [], [], [], [])"
  using form_texts [of _ s] button_labels(6) unfolding counts_def form_submit
  by (auto simp: buttons_reading_def filter_empty_conv)

lemma counts_one:
  "counts [ingest_button s] = (\<not> ig_ingesting s, True, [], [], [])"
  "counts [plain_button v ''Load PLC demo alert''] = (False, True, [plain_button v ''Load PLC demo alert''], [], [])"
  "counts [plain_button v ''Ingest a different alert''] = (False, True, [], [plain_button v ''Ingest a different alert''], [])"
  using button_labels(1) [of s] button_labels(3,4) by (auto simp: counts_def buttons_reading_def button_facts)

text \<open>C21. The ingestion page lets a person do exactly what the screen's machine takes as a step. The form can
  be submitted exactly when ingesting is a step, the worked alert loaded and another alert begun
  exactly when their buttons are there, and of the candidates' buttons, which stand in the order
  of the candidates, those are enabled whose version the machine would start.\<close>
theorem start_page_offers_steps:
  assumes "ig_opened s = None"
  shows "(let cs = controls (StartInvestigationScreen shown s)
    in (may_submit cs \<longleftrightarrow> ingest_step s (Press_Ingest now) \<noteq> None)
      \<and> (buttons_reading (js ''Load PLC demo alert'') cs \<noteq> [] \<longleftrightarrow> ingest_step s Load_Demo \<noteq> None)
      \<and> (buttons_reading (js ''Ingest a different alert'') cs \<noteq> [] \<longleftrightarrow> ingest_step s Ingest_Another \<noteq> None)
      \<and> map enabled_control (filter (\<lambda>x. text_of x \<in> start_labels) cs)
          = map (\<lambda>cd. ingest_step s (Press_Start (vs_id (cd_version cd))) \<noteq> None) (listed_candidates s))"
proof -
  let ?cs = "controls (StartInvestigationScreen shown s)"
  let ?starts = "map (start_button (ig_startingVersionId s)) (listed_candidates s)"
  obtain n1 n2 where n: "set n1 \<subseteq> notices" "set n2 \<subseteq> notices"
    and cs: "?cs = (case alert_panel s of
            Alert_Form \<Rightarrow> [plain_button Secondary ''Load PLC demo alert''] @ form_controls s @ n1 @ [ingest_button s]
          | Alert_Shown _ _ \<Rightarrow> [plain_button Quiet ''Ingest a different alert'']
          | _ \<Rightarrow> n1) @ n2 @ ?starts"
    using controls_page by blast
  have retry: "attribute ''type'' x = None \<and> attribute ''required'' x = None \<and> text_of x = js ''Try again''"
    if "x \<in> set n1 \<or> x \<in> set n2" for x
    using that n notice_retries by blast
  let ?form = "alert_panel s = Alert_Form"
  let ?filled = "af_alert_type (ig_form s) \<noteq> [] \<and> af_title (ig_form s) \<noteq> [] \<and> af_occurred_at (ig_form s) \<noteq> []"
  let ?shown = "case alert_panel s of Alert_Shown _ _ \<Rightarrow> True | _ \<Rightarrow> False"
  have "counts n1 = (False, True, [], [], [])" "counts n2 = (False, True, [], [], [])"
    using retry by (intro counts_notice; blast)+
  then have all: "counts ?cs =
      (?form \<and> \<not> ig_ingesting s, ?form \<longrightarrow> ?filled,
       if ?form then [plain_button Secondary ''Load PLC demo alert''] else [],
       if ?shown then [plain_button Quiet ''Ingest a different alert''] else [], ?starts)"
    unfolding cs by (cases "alert_panel s") (simp_all only: alert_panel.case counts_append counts_one counts_form counts_starts
        prod.case alert_panel.distinct simp_thms append_Nil append_Nil2 if_True if_False append.assoc)
  have "ingest_step s (Press_Ingest now) \<noteq> None \<longleftrightarrow> ?form \<and> \<not> ig_ingesting s \<and> ?filled"
    "ingest_step s Load_Demo \<noteq> None \<longleftrightarrow> ?form" "ingest_step s Ingest_Another \<noteq> None \<longleftrightarrow> ?shown"
    using assms by (auto simp: ingest_step_def split: alert_panel.split)
  moreover have "map enabled_control ?starts
      = map (\<lambda>cd. ingest_step s (Press_Start (vs_id (cd_version cd))) \<noteq> None) (listed_candidates s)"
  proof -
    have "offered_versions s = vs_id ` cd_version ` set (listed_candidates s)"
      by (simp add: offered_versions_def listed_candidates_def split: bind_panel.split)
    then show ?thesis using assms by (auto simp: ingest_step_def button_facts)
  qed
  ultimately show ?thesis
    using all unfolding Let_def may_submit_def counts_def by auto
qed

theorem start_page_offers_steps_witness:
  "\<exists>s. ig_opened s = None \<and> length (listed_candidates s) = 1
     \<and> map enabled_control (filter (\<lambda>x. text_of x \<in> start_labels) (controls (StartInvestigationScreen (\<lambda>t. or_else t []) s))) = [True]"
proof -
  let ?r = "\<lambda>x. (initial_resource False)\<lparr>rc_data := Some x\<rparr>"
  let ?cd = "\<lparr>cd_playbookId = js ''p'', cd_playbookName = [], cd_playbookDescription = [],
      cd_version = \<lparr>vs_id = js ''v'', vs_version = 1, vs_status = Published, vs_created_at = [], vs_published_at = None\<rparr>\<rparr>"
  let ?s = "(initial_ingest None None)\<lparr>ig_alert := ?r sample_alert, ig_candidates := Some (js ''t'', ?r [?cd])\<rparr>"
  have opened: "ig_opened ?s = None" by (simp add: initial_ingest_def)
  note steps = start_page_offers_steps [OF this, of "\<lambda>t. or_else t []", unfolded Let_def]
  have "listed_candidates ?s = [?cd]" "ingest_step ?s (Press_Start (js ''v'')) \<noteq> None"
    by (simp_all add: listed_candidates_def bind_panel_def initial_ingest_def initial_resource_def
        ingest_step_def offered_versions_def)
  with steps opened show ?thesis by (intro exI [of _ ?s]) simp
qed

end
