(* ===== verification/List_View.thy ===== *)
theory List_View
  imports "HOL-Library.Multiset" Panels Decision_View Notice_View
begin

text \<open>
  \<open>components/playbook/NodeListEditor.tsx\<close> and \<open>EdgeListEditor.tsx\<close> as the element trees they render
  inside the playbook form. The property is about the errors of a refused save: row by row, the
  screen shows exactly the errors of that row, each once.
\<close>

section \<open>Nodes\<close>

text \<open>The message of a field and whether its control is marked.\<close>
definition aria_invalid :: "jstring option \<Rightarrow> attributes" where
  "aria_invalid message = attr ''aria-invalid'' (bool_text (said message))"

definition small_button :: "string \<Rightarrow> bool \<Rightarrow> string \<Rightarrow> react" where
  "small_button className disabled t =
     Button (Some Quiet) (Some (js className)) (attr ''type'' (js ''button'') @ flag ''disabled'' disabled) [Txt (js t)]"

definition node_header :: "uuid \<Rightarrow> bool \<Rightarrow> nat \<Rightarrow> node_draft \<Rightarrow> react" where
  "node_header rootNodeId disabled index node =
     elem ''div'' (attr ''class'' (js ''mb-2.5 flex flex-wrap items-center gap-2''))
       [elem ''span'' (attr ''class'' (js ''label'')) [Txt (js ''Node ''), Txt (nat_text (index + 1))],
        shown_if (nd_id node = rootNodeId) (Chip (Some Tone_Signal) [Txt (js ''root'')] None),
        Id_Span (Some (nd_id node)) None,
        elem ''div'' (attr ''class'' (js ''ml-auto flex items-center gap-1''))
          [shown_if (nd_kind node = Decision) (small_button ''!py-0.5 !text-[12px]'' disabled ''+ Choice from here''),
           small_button ''!py-0.5 !text-[12px]'' disabled ''Remove'']]"

definition kind_field :: "bool \<Rightarrow> node_draft \<Rightarrow> react" where
  "kind_field disabled node =
     (let i = nd_id node @ js ''-kind''
      in LabelledField (js ''Kind'') Nothing (Some i)
           [Select None (attr ''id'' i @ attr ''value'' (kind_text (nd_kind node)) @ flag ''disabled'' disabled)
              (map (\<lambda>k. elem ''option'' (attr ''value'' (kind_text k)) [Txt (kind_text k)]) [Decision, Terminal])] None)"

definition title_field :: "draft_error list \<Rightarrow> bool \<Rightarrow> nat \<Rightarrow> node_draft \<Rightarrow> react" where
  "title_field errors disabled index node =
     (let i = nd_id node @ js ''-title''; message = errorFor errors ScopeNode (int index) FTitle
      in LabelledField (js ''Title'') Nothing (Some i)
           [TextInput None
              (attr ''id'' i @ attr ''value'' (nd_title node) @ flag ''disabled'' disabled
               @ attr ''placeholder'' (if nd_kind node = Decision then js ''Write came from a known engineering workstation?''
                                       else js ''Close: authorized maintenance'')
               @ aria_invalid message),
            FieldError message] None)"

definition node_description_field :: "bool \<Rightarrow> node_draft \<Rightarrow> react" where
  "node_description_field disabled node =
     (let i = nd_id node @ js ''-description''
      in LabelledField (js ''Description'') Nothing (Some i)
           [TextInput None
              (attr ''id'' i @ attr ''value'' (nd_description node) @ flag ''disabled'' disabled
               @ attr ''placeholder'' (js ''What the analyst should actually check here.''))] (Some (js ''mt-2.5'')))"

definition resolution_field :: "draft_error list \<Rightarrow> bool \<Rightarrow> nat \<Rightarrow> node_draft \<Rightarrow> react" where
  "resolution_field errors disabled index node =
     (let i = nd_id node @ js ''-resolution''; message = errorFor errors ScopeNode (int index) FTerminalResolution
      in LabelledField (js ''Terminal resolution'')
           (Txt (js ''The investigation'' @ [39] @ js ''s recorded outcome. A decision node must not have one; a terminal node must.''))
           (Some i)
           [TextInput (Some (js ''font-mono !text-[12px]''))
              (attr ''id'' i @ attr ''value'' (nd_terminal_resolution node) @ flag ''disabled'' disabled
               @ attr ''placeholder'' (js ''close_authorized_maintenance'') @ aria_invalid message),
            FieldError message] (Some (js ''mt-2.5'')))"

definition metadata_example :: jstring where
  "metadata_example = js ''{ '' @ [34] @ js ''suggested_evidence'' @ [34] @ js '': ['' @ [34] @ js ''asset_inventory_lookup'' @ [34] @ js ''] }''"

definition node_metadata_field :: "draft_error list \<Rightarrow> bool \<Rightarrow> nat \<Rightarrow> node_draft \<Rightarrow> react" where
  "node_metadata_field errors disabled index node =
     (let i = nd_id node @ js ''-metadata''; message = errorFor errors ScopeNode (int index) FMetadata
      in LabelledField (js ''Metadata (JSON object, optional)'')
           (Txt (js ''Designer hints for an agent. The engine stores it and hands it back; it never reads it.'')) (Some i)
           [TextArea (Some (js ''font-mono !text-[11.5px]''))
              (attr ''id'' i @ attr ''rows'' (js ''3'') @ attr ''value'' (nd_metadata node) @ flag ''disabled'' disabled
               @ attr ''spellcheck'' (js ''false'') @ attr ''placeholder'' metadata_example @ aria_invalid message),
            FieldError message] (Some (js ''mt-2.5'')))"

definition node_item :: "uuid \<Rightarrow> draft_error list \<Rightarrow> bool \<Rightarrow> nat \<Rightarrow> node_draft \<Rightarrow> react" where
  "node_item rootNodeId errors disabled index node =
     elem ''li'' (attr ''class'' (js ''rounded-[2px] border border-rule bg-sunken p-3''))
       [node_header rootNodeId disabled index node,
        elem ''div'' (attr ''class'' (js ''grid gap-2.5 sm:grid-cols-[150px_minmax(0,1fr)]''))
          [kind_field disabled node, title_field errors disabled index node],
        node_description_field disabled node,
        shown_if (nd_kind node = Terminal) (resolution_field errors disabled index node),
        node_metadata_field errors disabled index node]"

definition add_button :: "bool \<Rightarrow> string \<Rightarrow> react" where
  "add_button disabled t = Button None None (attr ''type'' (js ''button'') @ flag ''disabled'' disabled) [Txt (js t)]"

definition NodeListEditor :: "node_draft list \<Rightarrow> uuid \<Rightarrow> draft_error list \<Rightarrow> bool \<Rightarrow> react" where
  "NodeListEditor nodes rootNodeId errors disabled =
     elem ''div'' (attr ''class'' (js ''space-y-3''))
       [if nodes = [] then
          Empty_State (js ''No nodes yet'')
            (elem ''p'' [] [Txt (js ''Start with the first question an analyst should answer. A draft with no nodes is still a valid draft '' @ em_dash @ js '' the API only insists on a complete graph at publish time.'')])
        else elem ''ul'' (attr ''class'' (js ''space-y-3'')) (map_idx 0 (node_item rootNodeId errors disabled) nodes),
        elem ''div'' (attr ''class'' (js ''flex flex-wrap gap-2''))
          [add_button disabled ''+ Decision node'', add_button disabled ''+ Terminal node'']]"

section \<open>Edges\<close>

definition NodeOptions :: "(node_draft \<Rightarrow> bool) \<Rightarrow> uuid \<Rightarrow> node_draft list \<Rightarrow> react list" where
  "NodeOptions eligible selectedId allNodes =
     map (\<lambda>(v, label). elem ''option'' (attr ''value'' v) [Txt label]) (endpoint_options eligible selectedId allNodes)"

definition endpoint_field ::
  "string \<Rightarrow> string \<Rightarrow> draft_error_field \<Rightarrow> (node_draft \<Rightarrow> bool) \<Rightarrow> node_draft list \<Rightarrow> draft_error list \<Rightarrow> bool \<Rightarrow> nat \<Rightarrow> uuid \<Rightarrow> uuid \<Rightarrow> react"
where
  "endpoint_field label suffix field eligible nodes errors disabled index edgeId selectedId =
     (let i = edgeId @ js suffix; message = errorFor errors ScopeEdge (int index) field
      in LabelledField (js label) Nothing (Some i)
           [Select None (attr ''id'' i @ attr ''value'' selectedId @ flag ''disabled'' disabled @ aria_invalid message)
              (NodeOptions eligible selectedId nodes),
            FieldError message] None)"

definition label_field :: "draft_error list \<Rightarrow> bool \<Rightarrow> nat \<Rightarrow> edge_draft \<Rightarrow> react" where
  "label_field errors disabled index edge =
     (let i = ed_id edge @ js ''-label''; message = errorFor errors ScopeEdge (int index) FLabel
      in LabelledField (js ''Label'') Nothing (Some i)
           [TextInput None
              (attr ''id'' i @ attr ''value'' (ed_label edge) @ flag ''disabled'' disabled
               @ attr ''placeholder'' (js ''Yes'') @ aria_invalid message),
            FieldError message] None)"

definition order_field :: "bool \<Rightarrow> edge_draft \<Rightarrow> react" where
  "order_field disabled edge =
     (let i = ed_id edge @ js ''-sort''
      in LabelledField (js ''Order'') Nothing (Some i)
           [TextInput (Some (js ''font-mono''))
              (attr ''id'' i @ attr ''type'' (js ''number'') @ attr ''step'' (js ''1'') @ attr ''value'' (ed_sort_order edge)
               @ flag ''disabled'' disabled)] None)"

definition edge_description_field :: "bool \<Rightarrow> edge_draft \<Rightarrow> react" where
  "edge_description_field disabled edge =
     (let i = ed_id edge @ js ''-description''
      in LabelledField (js ''Description'') Nothing (Some i)
           [TextInput None
              (attr ''id'' i @ attr ''value'' (ed_description edge) @ flag ''disabled'' disabled
               @ attr ''placeholder'' (js ''Shown beneath the choice when an analyst picks it.''))] (Some (js ''mt-2.5'')))"

definition edge_item :: "node_draft list \<Rightarrow> draft_error list \<Rightarrow> bool \<Rightarrow> nat \<Rightarrow> edge_draft \<Rightarrow> react" where
  "edge_item nodes errors disabled index edge =
     elem ''li'' (attr ''class'' (js ''rounded-[2px] border border-rule bg-sunken p-3''))
       [elem ''div'' (attr ''class'' (js ''mb-2.5 flex items-center gap-2''))
          [elem ''span'' (attr ''class'' (js ''label'')) [Txt (js ''Choice ''), Txt (nat_text (index + 1))],
           small_button ''ml-auto !py-0.5 !text-[12px]'' disabled ''Remove''],
        elem ''div'' (attr ''class'' (js ''grid gap-2.5 lg:grid-cols-[minmax(0,1fr)_minmax(0,1fr)_minmax(0,1fr)_88px]''))
          [endpoint_field ''From node'' ''-from'' FFromNodeId (\<lambda>n. nd_kind n = Decision) nodes errors disabled index (ed_id edge) (ed_from edge),
           label_field errors disabled index edge,
           endpoint_field ''To node'' ''-to'' FToNodeId (\<lambda>_. True) nodes errors disabled index (ed_id edge) (ed_to edge),
           order_field disabled edge],
        edge_description_field disabled edge]"

definition EdgeListEditor :: "edge_draft list \<Rightarrow> node_draft list \<Rightarrow> draft_error list \<Rightarrow> bool \<Rightarrow> react" where
  "EdgeListEditor edges nodes errors disabled =
     elem ''div'' (attr ''class'' (js ''space-y-3''))
       [if edges = [] then
          Empty_State (js ''No choices yet'')
            (elem ''p'' [] [Txt (js ''An edge is one answer to a decision node'' @ [39] @ js ''s question. Every decision node needs at least one before the version can be published.'')])
        else elem ''ul'' (attr ''class'' (js ''space-y-3'')) (map_idx 0 (edge_item nodes errors disabled) edges),
        add_button (disabled \<or> nodes = []) ''+ Choice'']"

section \<open>The form around them\<close>

definition nodes_panel :: "editor \<Rightarrow> react" where
  "nodes_panel e =
     (let d = sc_draft e; decisionCount = length (filter (\<lambda>n. nd_kind n = Decision) (pd_nodes d))
      in Panel (Txt (js ''Nodes''))
           (Txt (nat_text decisionCount @ js '' decision '' @ middot @ js '' '' @ nat_text (length (pd_nodes d) - decisionCount) @ js '' terminal''))
           Nothing [NodeListEditor (pd_nodes d) (pd_root d) (sc_errors e) (locked e)] None None)"

definition edges_panel :: "editor \<Rightarrow> react" where
  "edges_panel e =
     (let d = sc_draft e
      in Panel (Txt (js ''Choices'')) (Txt (nat_text (length (pd_edges d)) @ js '' edges'')) Nothing
           [EdgeListEditor (pd_edges d) (pd_nodes d) (sc_errors e) (locked e)] None None)"

section \<open>What a row shows\<close>

text \<open>The controls of a row that may be marked, in the order they stand in.\<close>
definition node_fields :: "node_draft \<Rightarrow> draft_error_field list" where
  "node_fields node = FTitle # (if nd_kind node = Terminal then [FTerminalResolution] else []) @ [FMetadata]"

definition edge_fields :: "draft_error_field list" where
  "edge_fields = [FFromNodeId, FLabel, FToNodeId]"

definition field_alerts :: "draft_error list \<Rightarrow> draft_scope \<Rightarrow> nat \<Rightarrow> draft_error_field \<Rightarrow> jstring list" where
  "field_alerts errors scope index field = alerts_in (FieldError (errorFor errors scope (int index) field))"

definition field_mark :: "draft_error list \<Rightarrow> draft_scope \<Rightarrow> nat \<Rightarrow> draft_error_field \<Rightarrow> jstring" where
  "field_mark errors scope index field = bool_text (said (errorFor errors scope (int index) field))"

lemmas field_trees = kind_field_def title_field_def node_description_field_def resolution_field_def
  node_metadata_field_def endpoint_field_def label_field_def order_field_def edge_description_field_def
  LabelledField_def TextInput_def TextArea_def Select_def small_button_def Button_def Chip_def Id_Span_def
  Let_def attr_def attr_opt_def flag_def shown_if_def aria_invalid_def

lemma options_quiet [simp]:
  assumes "\<And>v l. \<not> p (elem ''option'' (attr ''value'' v) [Txt l])"
  shows "concat (map (elements p) (NodeOptions eligible sel ns)) = []"
  using assms by (auto simp: NodeOptions_def)

lemma message_unmarked [simp]: "elements (\<lambda>x. \<exists>y. attribute ''aria-invalid'' x = Some y) (FieldError m) = []"
  by (simp add: FieldError_def shown_if_def attr_def)

lemma header_quiet [simp]:
  "elements is_alert (node_header r dis i n) = []" "elements is_alert (small_button c dis t) = []"
  "elements (\<lambda>x. \<exists>y. attribute ''aria-invalid'' x = Some y) (node_header r dis i n) = []"
  "elements (\<lambda>x. \<exists>y. attribute ''aria-invalid'' x = Some y) (small_button c dis t) = []"
  by (simp_all add: node_header_def field_trees is_alert_def)

lemma field_elements [simp]:
  "elements is_alert (kind_field dis n) = []" "elements is_alert (node_description_field dis n) = []"
  "elements is_alert (title_field errs dis i n) = elements is_alert (FieldError (errorFor errs ScopeNode (int i) FTitle))"
  "elements is_alert (resolution_field errs dis i n) = elements is_alert (FieldError (errorFor errs ScopeNode (int i) FTerminalResolution))"
  "elements is_alert (node_metadata_field errs dis i n) = elements is_alert (FieldError (errorFor errs ScopeNode (int i) FMetadata))"
  "elements is_alert (order_field dis e) = []" "elements is_alert (edge_description_field dis e) = []"
  "elements is_alert (label_field errs dis i e) = elements is_alert (FieldError (errorFor errs ScopeEdge (int i) FLabel))"
  "elements is_alert (endpoint_field l sx f el ns errs dis i ei sel) = elements is_alert (FieldError (errorFor errs ScopeEdge (int i) f))"
  by (simp_all add: field_trees is_alert_def)

abbreviation marked_in :: "react \<Rightarrow> react list" where
  "marked_in \<equiv> elements (\<lambda>x. \<exists>y. attribute ''aria-invalid'' x = Some y)"

lemma field_marks [simp]:
  "marked_in (kind_field dis n) = []" "marked_in (node_description_field dis n) = []"
  "map (attribute ''aria-invalid'') (marked_in (title_field errs dis i n)) = [Some (field_mark errs ScopeNode i FTitle)]"
  "map (attribute ''aria-invalid'') (marked_in (resolution_field errs dis i n)) = [Some (field_mark errs ScopeNode i FTerminalResolution)]"
  "map (attribute ''aria-invalid'') (marked_in (node_metadata_field errs dis i n)) = [Some (field_mark errs ScopeNode i FMetadata)]"
  "marked_in (order_field dis e) = []" "marked_in (edge_description_field dis e) = []"
  "map (attribute ''aria-invalid'') (marked_in (label_field errs dis i e)) = [Some (field_mark errs ScopeEdge i FLabel)]"
  "map (attribute ''aria-invalid'') (marked_in (endpoint_field l sx f el ns errs dis i ei sel)) = [Some (field_mark errs ScopeEdge i f)]"
  by (simp_all add: field_trees field_mark_def)

lemma marks_as_map: "marks_in e = List.map_filter id (map (attribute ''aria-invalid'') (marked_in e))"
  by (simp add: marks_in_def List.map_filter_def filter_map comp_def)

lemma node_item_alerts:
  "alerts_in (node_item r errs dis i n) = concat (map (field_alerts errs ScopeNode i) (node_fields n))"
  by (simp add: alerts_in_def node_item_def node_fields_def field_alerts_def is_alert_def attr_def)

lemma edge_item_alerts:
  "alerts_in (edge_item ns errs dis i e) = concat (map (field_alerts errs ScopeEdge i) edge_fields)"
  by (simp add: alerts_in_def edge_item_def edge_fields_def field_alerts_def is_alert_def attr_def)

lemma node_item_marks:
  "marks_in (node_item r errs dis i n) = map (field_mark errs ScopeNode i) (node_fields n)"
  by (simp add: marks_as_map node_item_def node_fields_def attr_def List.map_filter_def)

lemma edge_item_marks:
  "marks_in (edge_item ns errs dis i e) = map (field_mark errs ScopeEdge i) edge_fields"
  by (simp add: marks_as_map edge_item_def edge_fields_def attr_def List.map_filter_def)

section \<open>Rows and their errors\<close>

definition row_errors :: "draft_scope \<Rightarrow> nat \<Rightarrow> draft_error list \<Rightarrow> draft_error list" where
  "row_errors scope i errs = filter (\<lambda>e. de_scope e = scope \<and> de_index e = int i) errs"

lemma find_filter: "List.find p (filter q xs) = List.find (\<lambda>x. q x \<and> p x) xs"
  by (induction xs) auto

lemma errorFor_row: "errorFor errs scope (int i) f = map_option de_message (List.find (\<lambda>e. de_field e = f) (row_errors scope i errs))"
  by (simp add: errorFor_def row_errors_def find_filter conj_assoc)

lemma find_mid: "p e \<Longrightarrow> \<forall>x\<in>set xs. \<not> p x \<Longrightarrow> List.find p (xs @ e # ys) = Some e"
  by (induction xs) auto

lemma find_skip: "\<not> p e \<Longrightarrow> List.find p (xs @ e # ys) = List.find p (xs @ ys)"
  by (induction xs) auto

text \<open>Fields that differ, each with at most one error: the alerts are the messages, and as many controls
  are marked.\<close>
lemma field_messages:
  assumes "distinct fs" "distinct (map de_field es)" "de_field ` set es \<subseteq> set fs" "\<forall>e\<in>set es. de_message e \<noteq> []"
  shows "mset (concat (map (\<lambda>f. alerts_in (FieldError (map_option de_message (List.find (\<lambda>e. de_field e = f) es)))) fs)) = mset (map de_message es)
    \<and> length (filter (\<lambda>f. said (map_option de_message (List.find (\<lambda>e. de_field e = f) es))) fs) = length es"
  using assms
proof (induction fs arbitrary: es)
  case Nil
  then show ?case by simp
next
  case (Cons f fs)
  show ?case
  proof (cases "\<exists>e\<in>set es. de_field e = f")
    case False
    with Cons.prems have "de_field ` set es \<subseteq> set fs" by auto
    moreover from False have "List.find (\<lambda>e. de_field e = f) es = None" by (auto simp: find_None_iff)
    ultimately show ?thesis using Cons by (simp add: alerts_FieldError said_def)
  next
    case True
    then obtain xs e ys where es: "es = xs @ e # ys" and f: "de_field e = f" by (metis split_list)
    have others: "f \<notin> de_field ` set (xs @ ys)" using Cons.prems(2) es f by auto
    have "\<forall>x\<in>set xs. de_field x \<noteq> f"
    proof
      fix x assume "x \<in> set xs"
      then have "de_field x \<in> de_field ` set (xs @ ys)" by simp
      with others show "de_field x \<noteq> f" by metis
    qed
    with f have first: "List.find (\<lambda>e. de_field e = f) es = Some e"
      unfolding es by (intro find_mid)
    have same: "List.find (\<lambda>e. de_field e = g) es = List.find (\<lambda>e. de_field e = g) (xs @ ys)" if "g \<in> set fs" for g
      unfolding es by (rule find_skip) (use f that Cons.prems(1) in auto)
    have IH: "mset (concat (map (\<lambda>f. alerts_in (FieldError (map_option de_message (List.find (\<lambda>e. de_field e = f) (xs @ ys))))) fs)) = mset (map de_message (xs @ ys))
      \<and> length (filter (\<lambda>f. said (map_option de_message (List.find (\<lambda>e. de_field e = f) (xs @ ys)))) fs) = length (xs @ ys)"
    proof (rule Cons.IH)
      show "de_field ` set (xs @ ys) \<subseteq> set fs" 
      proof
        fix g assume g: "g \<in> de_field ` set (xs @ ys)"
        then have "g \<in> de_field ` set es" by (auto simp: es)
        with Cons.prems(3) have "g \<in> set (f # fs)" by (rule subsetD)
        moreover have "g \<noteq> f" using g others by metis
        ultimately show "g \<in> set fs" by simp
      qed
    qed (use Cons.prems es in auto)
    have rest: "map (\<lambda>g. alerts_in (FieldError (map_option de_message (List.find (\<lambda>e. de_field e = g) es)))) fs
        = map (\<lambda>g. alerts_in (FieldError (map_option de_message (List.find (\<lambda>e. de_field e = g) (xs @ ys))))) fs"
      "filter (\<lambda>g. said (map_option de_message (List.find (\<lambda>e. de_field e = g) es))) fs
        = filter (\<lambda>g. said (map_option de_message (List.find (\<lambda>e. de_field e = g) (xs @ ys)))) fs"
      using same by (auto intro!: map_cong filter_cong)
    have some: "de_message e \<noteq> []" using Cons.prems(4) es by simp
    have "mset (map de_message es) = add_mset (de_message e) (mset (map de_message (xs @ ys)))" "length es = Suc (length (xs @ ys))"
      by (simp_all add: es)
    with IH some show ?thesis
      unfolding list.map filter.simps concat.simps rest first by (simp add: alerts_FieldError said_def or_else_def)
  qed
qed

lemma row_fields_distinct:
  assumes "distinct (map de_position errs)"
  shows "distinct (map de_field (row_errors scope i errs))"
proof -
  have "distinct (map de_position (row_errors scope i errs))"
    using assms unfolding row_errors_def by (rule distinct_map_filter)
  moreover have "de_position ` set (row_errors scope i errs) = (\<lambda>f. (scope, int i, f)) ` de_field ` set (row_errors scope i errs)"
    by (auto simp: row_errors_def de_position_def)
  moreover have "map de_position (row_errors scope i errs) = map (\<lambda>f. (scope, int i, f)) (map de_field (row_errors scope i errs))"
    by (auto simp: row_errors_def de_position_def)
  ultimately show ?thesis by (metis distinct_map)
qed

lemma marked_true: "length (filter (\<lambda>m. m = js ''true'') (map (field_mark errs scope i) fs))
    = length (filter (\<lambda>f. said (errorFor errs scope (int i) f)) fs)"
  by (simp add: filter_map comp_def field_mark_def bool_text_def)

lemma row_shows:
  assumes "distinct (map de_position errs)" "\<forall>e\<in>set errs. de_message e \<noteq> []"
    "\<And>e. e \<in> set errs \<Longrightarrow> de_scope e = scope \<Longrightarrow> de_index e = int i \<Longrightarrow> de_field e \<in> set fs" "distinct fs"
  shows "mset (concat (map (field_alerts errs scope i) fs)) = mset (map de_message (row_errors scope i errs))"
    "length (filter (\<lambda>m. m = js ''true'') (map (field_mark errs scope i) fs)) = length (row_errors scope i errs)"
proof -
  have "mset (concat (map (\<lambda>f. alerts_in (FieldError (errorFor errs scope (int i) f))) fs)) = mset (map de_message (row_errors scope i errs))
    \<and> length (filter (\<lambda>f. said (errorFor errs scope (int i) f)) fs) = length (row_errors scope i errs)"
    unfolding errorFor_row
    by (rule field_messages [OF assms(4) row_fields_distinct [OF assms(1)]]) (use assms(2,3) in \<open>auto simp: row_errors_def\<close>)
  then show "mset (concat (map (field_alerts errs scope i) fs)) = mset (map de_message (row_errors scope i errs))"
    "length (filter (\<lambda>m. m = js ''true'') (map (field_mark errs scope i) fs)) = length (row_errors scope i errs)"
    unfolding marked_true field_alerts_def by simp_all
qed

section \<open>Property\<close>

abbreviation items_in :: "react \<Rightarrow> react list" where
  "items_in \<equiv> elements (is_tag ''li'')"

lemma no_items [simp]:
  "items_in (FieldError m) = []" "items_in (small_button c dis t) = []" "items_in (add_button dis t) = []"
  "items_in (kind_field dis n) = []" "items_in (title_field errs dis i n) = []"
  "items_in (node_description_field dis n) = []" "items_in (resolution_field errs dis i n) = []"
  "items_in (node_metadata_field errs dis i n) = []" "items_in (label_field errs dis i e) = []"
  "items_in (endpoint_field l sx f el ns errs dis i ei sel) = []" "items_in (order_field dis e) = []"
  "items_in (edge_description_field dis e) = []" "items_in (Empty_State u' (elem ''p'' [] [Txt u])) = []"
  "items_in (node_header r dis i n) = []"
  by (simp_all add: node_header_def field_trees FieldError_def add_button_def Empty_State_def)

lemma items_one [simp]:
  "items_in (node_item r errs dis i n) = [node_item r errs dis i n]"
  "items_in (edge_item ns errs dis i e) = [edge_item ns errs dis i e]"
  by (simp_all add: node_item_def edge_item_def)

lemma list_items:
  "items_in (nodes_panel e) = map_idx 0 (node_item (pd_root (sc_draft e)) (sc_errors e) (locked e)) (pd_nodes (sc_draft e))"
  "items_in (edges_panel e) = map_idx 0 (edge_item (pd_nodes (sc_draft e)) (sc_errors e) (locked e)) (pd_edges (sc_draft e))"
proof -
  have rows: "concat (map items_in (map_idx k f xs)) = map_idx k f xs" if "\<And>i x. items_in (f i x) = [f i x]" for k f and xs :: "'a list"
    using that by (induction xs arbitrary: k) simp_all
  show "items_in (nodes_panel e) = map_idx 0 (node_item (pd_root (sc_draft e)) (sc_errors e) (locked e)) (pd_nodes (sc_draft e))"
    "items_in (edges_panel e) = map_idx 0 (edge_item (pd_nodes (sc_draft e)) (sc_errors e) (locked e)) (pd_edges (sc_draft e))"
    by (simp_all add: nodes_panel_def edges_panel_def Let_def Panel_def NodeListEditor_def EdgeListEditor_def rows)
qed

definition marks_true :: "react \<Rightarrow> nat" where
  "marks_true row = length (filter (\<lambda>m. m = js ''true'') (marks_in row))"

lemma fields_distinct: "distinct (node_fields n)" "distinct edge_fields"
  by (simp_all add: node_fields_def edge_fields_def)

text \<open>C15. After a refused save every row of the form shows exactly its own errors. In every session, the alerts
  read in the row of a node or of a choice are the messages of the errors about that row, each
  once and no others, and as many of its controls are marked as invalid as it has errors; and
  every error is about a row that is there. So the banner, which says that each problem is marked
  below, is right.\<close>
theorem rows_show_their_errors:
  assumes "session_reach foreign newId (initial_session p v) s" "fresh_source foreign newId" "e = ss_screen s"
  shows "(\<forall>i<length (pd_nodes (sc_draft e)). let row = items_in (nodes_panel e) ! i; errs = row_errors ScopeNode i (sc_errors e)
        in mset (alerts_in row) = mset (map de_message errs) \<and> marks_true row = length errs)
    \<and> (\<forall>i<length (pd_edges (sc_draft e)). let row = items_in (edges_panel e) ! i; errs = row_errors ScopeEdge i (sc_errors e)
        in mset (alerts_in row) = mset (map de_message errs) \<and> marks_true row = length errs)
    \<and> (\<forall>err\<in>set (sc_errors e). (\<exists>i<length (pd_nodes (sc_draft e)). err \<in> set (row_errors ScopeNode i (sc_errors e)))
        \<or> (\<exists>i<length (pd_edges (sc_draft e)). err \<in> set (row_errors ScopeEdge i (sc_errors e))))"
proof -
  let ?d = "sc_draft e" and ?errs = "sc_errors e"
  from session_inv [OF assms(1,2)] have inv: "editor_inv foreign newId e" by (simp add: assms(3))
  have row: "(\<exists>i<length (pd_nodes ?d). err \<in> set (row_errors ScopeNode i ?errs) \<and> de_field err \<in> set (node_fields (pd_nodes ?d ! i)))
      \<or> (\<exists>i<length (pd_edges ?d). err \<in> set (row_errors ScopeEdge i ?errs) \<and> de_field err \<in> set edge_fields)"
    if err: "err \<in> set ?errs" for err
  proof -
    from inv err have refused: "serializePlaybookDraft ?d = Inl ?errs" by (auto simp: editor_inv_def errors_current_def)
    from inv have good: "good_draft foreign newId (sc_drawn e) ?d" by (simp add: editor_inv_def)
    from assms(2) good refused err show ?thesis
      by (cases rule: good_error_row) (use err in \<open>auto simp: row_errors_def node_fields_def edge_fields_def\<close>)
  qed
  have errs: "distinct (map de_position ?errs)" "\<forall>x\<in>set ?errs. de_message x \<noteq> []"
  proof -
    from inv have "?errs = [] \<or> ?errs = draft_errors ?d"
      by (auto simp: editor_inv_def errors_current_def serialize_closed split: if_splits)
    then show "distinct (map de_position ?errs)" "\<forall>x\<in>set ?errs. de_message x \<noteq> []"
      using draft_errors_distinct [of ?d] draft_messages_nonempty [of _ ?d] by auto
  qed
  have nodes: "de_field x \<in> set (node_fields (pd_nodes ?d ! i))" if "x \<in> set ?errs" "de_scope x = ScopeNode" "de_index x = int i" for x i
    using row [OF that(1)] that(2,3) by (auto simp: row_errors_def)
  have edges: "de_field x \<in> set edge_fields" if "x \<in> set ?errs" "de_scope x = ScopeEdge" "de_index x = int i" for x i
    using row [OF that(1)] that(2,3) by (auto simp: row_errors_def)
  note shows_node = row_shows [OF errs nodes fields_distinct(1)] and shows_edge = row_shows [OF errs edges fields_distinct(2)]
  show ?thesis
  proof (intro conjI allI impI ballI)
    fix i assume i: "i < length (pd_nodes ?d)"
    then have "items_in (nodes_panel e) ! i = node_item (pd_root ?d) ?errs (locked e) i (pd_nodes ?d ! i)"
      by (simp add: list_items nth_map_idx)
    with shows_node show "let row = items_in (nodes_panel e) ! i; errs = row_errors ScopeNode i ?errs
        in mset (alerts_in row) = mset (map de_message errs) \<and> marks_true row = length errs"
      by (simp add: Let_def node_item_alerts node_item_marks marks_true_def)
  next
    fix i assume i: "i < length (pd_edges ?d)"
    then have "items_in (edges_panel e) ! i = edge_item (pd_nodes ?d) ?errs (locked e) i (pd_edges ?d ! i)"
      by (simp add: list_items nth_map_idx)
    with shows_edge show "let row = items_in (edges_panel e) ! i; errs = row_errors ScopeEdge i ?errs
        in mset (alerts_in row) = mset (map de_message errs) \<and> marks_true row = length errs"
      by (simp add: Let_def edge_item_alerts edge_item_marks marks_true_def)
  next
    fix err assume "err \<in> set ?errs"
    from row [OF this] show "(\<exists>i<length (pd_nodes ?d). err \<in> set (row_errors ScopeNode i ?errs))
        \<or> (\<exists>i<length (pd_edges ?d). err \<in> set (row_errors ScopeEdge i ?errs))" by blast
  qed
qed

theorem rows_show_their_errors_witness:
  "\<exists>s err i. session_reach {} (\<lambda>n. replicate n 65) (initial_session None None) s
     \<and> err \<in> set (sc_errors (ss_screen s)) \<and> de_message err \<in> set (alerts_in (items_in (nodes_panel (ss_screen s)) ! i))"
proof -
  let ?es = "[Edit (Add_Node Decision), Press_Save]"
  have "\<exists>s. run_session (\<lambda>n. replicate n 65) (initial_session None None) ?es = Some s
      \<and> sc_errors (ss_screen s) \<noteq> [] \<and> pd_edges (sc_draft (ss_screen s)) = []"
    by (simp add: session_run_defs Let_def save_def serializePlaybookDraft_def node_errors_def trim_js
        parseMetadata_def root_errors_def)
  then obtain s err where s: "run_session (\<lambda>n. replicate n 65) (initial_session None None) ?es = Some s"
    "pd_edges (sc_draft (ss_screen s)) = []" and err: "err \<in> set (sc_errors (ss_screen s))" by (metis last_in_set)
  have reach: "session_reach {} (\<lambda>n. replicate n 65) (initial_session None None) s"
    by (rule run_session_reach [OF reach.start s(1)]) simp
  have "fresh_source {} (\<lambda>n. replicate n 65)"
    by (auto simp: fresh_source_def inj_def dest: arg_cong [where f = length])
  note shown = rows_show_their_errors [OF reach this refl, unfolded Let_def]
  with s(2) err obtain i where "i < length (pd_nodes (sc_draft (ss_screen s)))"
    and i: "err \<in> set (row_errors ScopeNode i (sc_errors (ss_screen s)))" by auto
  with shown have "mset (alerts_in (items_in (nodes_panel (ss_screen s)) ! i)) = mset (map de_message (row_errors ScopeNode i (sc_errors (ss_screen s))))"
    by blast
  then have "de_message err \<in> set (alerts_in (items_in (nodes_panel (ss_screen s)) ! i))"
    using i by (metis (no_types, lifting) image_eqI set_map set_mset_mset)
  with reach err show ?thesis by blast
qed

section \<open>Selects\<close>

abbreviation selects_in :: "react \<Rightarrow> react list" where
  "selects_in \<equiv> elements (is_tag ''select'')"


definition kind_select :: "bool \<Rightarrow> node_draft \<Rightarrow> react" where
  "kind_select dis n = Select None (attr ''id'' (nd_id n @ js ''-kind'') @ attr ''value'' (kind_text (nd_kind n)) @ flag ''disabled'' dis)
     (map (\<lambda>k. elem ''option'' (attr ''value'' (kind_text k)) [Txt (kind_text k)]) [Decision, Terminal])"

definition end_select ::
  "string \<Rightarrow> draft_error_field \<Rightarrow> (node_draft \<Rightarrow> bool) \<Rightarrow> node_draft list \<Rightarrow> draft_error list \<Rightarrow> bool \<Rightarrow> nat \<Rightarrow> uuid \<Rightarrow> uuid \<Rightarrow> react"
where
  "end_select suffix f el ns errs dis i ei sel =
     Select None (attr ''id'' (ei @ js suffix) @ attr ''value'' sel @ flag ''disabled'' dis @ aria_invalid (errorFor errs ScopeEdge (int i) f))
       (NodeOptions el sel ns)"

lemma options_no_select [simp]: "concat (map selects_in (NodeOptions el sel ns)) = []"
  by (rule options_quiet) simp

lemma field_selects [simp]:
  "selects_in (FieldError m) = []" "selects_in (small_button c dis t) = []" "selects_in (add_button dis t) = []"
  "selects_in (title_field errs dis i n) = []" "selects_in (node_description_field dis n) = []"
  "selects_in (resolution_field errs dis i n) = []" "selects_in (node_metadata_field errs dis i n) = []"
  "selects_in (label_field errs dis i e) = []" "selects_in (order_field dis e) = []"
  "selects_in (edge_description_field dis e) = []" "selects_in (Empty_State u' (elem ''p'' [] [Txt u])) = []"
  "selects_in (node_header r dis i n) = []"
  by (simp_all add: node_header_def field_trees FieldError_def add_button_def Empty_State_def)

lemma row_selects [simp]:
  "selects_in (node_item r errs dis i n) = [kind_select dis n]"
  "selects_in (edge_item ns errs dis i e) =
     [end_select ''-from'' FFromNodeId (\<lambda>n. nd_kind n = Decision) ns errs dis i (ed_id e) (ed_from e),
      end_select ''-to'' FToNodeId (\<lambda>_. True) ns errs dis i (ed_id e) (ed_to e)]"
proof -
  have kind: "selects_in (kind_field dis n) = [kind_select dis n]"
    by (simp add: kind_field_def kind_select_def LabelledField_def Select_def Let_def shown_if_def)
  have ends: "selects_in (endpoint_field l sx f el ns errs dis i ei sel) = [end_select sx f el ns errs dis i ei sel]"
    for l sx f el ei sel
    by (simp add: endpoint_field_def end_select_def LabelledField_def Select_def Let_def shown_if_def)
  show "selects_in (node_item r errs dis i n) = [kind_select dis n]"
    by (simp add: node_item_def kind shown_if_def)
  show "selects_in (edge_item ns errs dis i e) =
     [end_select ''-from'' FFromNodeId (\<lambda>n. nd_kind n = Decision) ns errs dis i (ed_id e) (ed_from e),
      end_select ''-to'' FToNodeId (\<lambda>_. True) ns errs dis i (ed_id e) (ed_to e)]"
    by (simp add: edge_item_def ends)
qed








end
