(* ===== verification/Spec2Isabelle.thy ===== *)
theory Spec2Isabelle
  imports Conformance Operations Routes Editor_Graph Proxy Decision_View Panels Console Start_View List_View
begin

text \<open>
  The web console of Interbellum, an alert investigation engine: everything the TypeScript under
  \<open>src/frontend/src\<close> computes and decides, as executable definitions, with the properties that make
  it correct. Paths below are relative to that directory.

  \<^bold>\<open>The program.\<close> The console is a set of screens over one HTTP API. A designer writes a playbook
  (a graph of decisions and terminals) in a form; the form is serialized and saved, a saved version
  is published, a published version is bound to an alert, and the investigation that starts is
  answered one decision at a time and finally reported. Every read goes through one hook
  (\<open>lib/use-resource.ts\<close>), every call through one client (\<open>lib/api.ts\<close>) and a same-origin proxy
  (\<open>app/api/[...path]/route.ts\<close>) to the backend, whose answers are arguments of the model.

  \<^bold>\<open>Foundations.\<close>
  \<^item> \<open>Prelude\<close>: strings as lists of 16-bit code units, \<open>trim\<close>, \<open>slice\<close>, indexed iteration.
  \<^item> \<open>Numbers\<close>, \<open>Decimals\<close>: \<open>Number.parseInt\<close>, number text, decimals in lowest terms.
  \<^item> \<open>Sorting\<close>: stable sorting by a comparator; the locale \<open>comparator\<close> (laws of a comparator) and
    \<open>separating_comparator\<close> (ties are equal), interpreted where the code sorts.
  \<^item> \<open>Json\<close>, \<open>Json_Text\<close>: JSON values with the key order of JavaScript objects, \<open>JSON.stringify\<close> and a
    fuelled \<open>JSON.parse\<close>. The fuel is twice the length of the text plus one and is shown to be enough
    (\<open>parse_fuel_enough\<close>); the locale \<open>json_codec\<close> states the round trip, interpreted for the compact
    and the indented printer.
  \<^item> \<open>Uri\<close>, \<open>Search\<close>: \<open>encodeURIComponent\<close> and \<open>URLSearchParams\<close> with the readers they are inverted by.
  \<^item> \<open>Supply\<close>: the locale \<open>id_supply\<close> of fresh keys and the lists keyed by them.
  \<^item> \<open>Machine\<close>: screens as machines; reachable states, runs of events, and the locale
    \<open>machine_invariant\<close>, interpreted for the invariant of every screen.
  \<^item> \<open>Types\<close>: the contract of \<open>lib/types.ts\<close>, one record or datatype per interface or union.

  \<^bold>\<open>Components.\<close>
  \<^item> \<open>Playbook_Draft\<close>, \<open>Draft_Rules\<close>, \<open>Publish_Rules\<close> (\<open>lib/playbook-draft.ts\<close>): the form's draft, its
    serialization with every message, loading, the preview. \<open>Draft_Rules\<close> states the write-time table
    of \<open>docs/domain-model.md\<close> row by row, as a predicate on graphs and as the places where a draft breaks
    it, independent of the code, and proves that serialization succeeds exactly on the rows the form
    checks (all but the presence of ids) and otherwise shows exactly the places; it says what loading
    and saving make of any stored graph, and that they give back one whose texts are trimmed.
  \<^item> \<open>Evidence\<close> (\<open>lib/evidence.ts\<close>, \<open>components/EvidenceEditor.tsx\<close>), \<open>Api_Error\<close> (\<open>lib/api-error.ts\<close>,
    \<open>components/ErrorNotice.tsx\<close>), \<open>Format\<close> (\<open>lib/format.ts\<close>, \<open>components/StatusChips.tsx\<close>), \<open>Demo\<close>
    (\<open>lib/demo.ts\<close>).
  \<^item> \<open>Resource\<close> (\<open>lib/use-resource.ts\<close>): the hook with the world around it as a step relation; a stale
    answer never lands, a load that is answered ends.
  \<^item> \<open>Api\<close>, \<open>Proxy\<close>: each endpoint function as the call it makes; the classification of every answer; the
    proxy in both directions. An answer through the proxy is classified as the backend's own would be.
  \<^item> \<open>Decision\<close> (\<open>components/DecisionForm.tsx\<close> in \<open>InvestigationRunner.tsx\<close>): the form as a machine. One
    idempotency key never names two decisions, a key is retired once its decision has landed, a retry
    repeats its request. \<open>Runner_Screen\<close> puts it into the screen with its loads, and does the same for
    the report: once loaded, the screen implements the machine.
  \<^item> \<open>Editor\<close>, \<open>Editor_Edits\<close>, \<open>Editor_Graph\<close>, \<open>Editor_Run\<close>, \<open>Editor_View\<close>
    (\<open>app/playbooks/PlaybookEditorScreen.tsx\<close>, \<open>components/playbook/\<close>): state and handlers; the draft's
    invariant under each edit; the arrays as an implementation of an abstract graph; sessions with
    the API's answers; the page and the errors marked on it.
  \<^item> \<open>Ingest\<close> (\<open>app/investigations/new/StartInvestigationScreen.tsx\<close>) and \<open>Library\<close>
    (\<open>app/playbooks/PlaybooksScreen.tsx\<close>): the two screens that keep their selection in the address.
  \<^item> \<open>Overlay\<close>, \<open>Layout\<close>, \<open>Drawing\<close> (\<open>lib/report-path.ts\<close>, \<open>lib/graph-layout.ts\<close>, \<open>components/graph/\<close>) and
    \<open>Report\<close> (\<open>InvestigationReportScreen.tsx\<close>, \<open>InvestigationRunner.tsx\<close>, \<open>InvestigationOutcome.tsx\<close>,
    \<open>EvidenceList.tsx\<close>): what a running or finished investigation shows. \<open>recorded\<close> is how the server
    records an investigation; for whatever is recorded, the report's timeline is the route taken and
    the runner draws the overlay of the report.
  \<^item> \<open>Contract\<close>, \<open>Schemas\<close>, \<open>Conformance\<close>: the schemas of \<open>api/openapi.yaml\<close> and, written the same
    way, the interfaces of \<open>lib/types.ts\<close>; what a value of a schema is, when one schema fits another, and
    that the bodies the editor, the decision form and the ingestion screen send conform. Formats are
    checked where the code computes them; that an id is a UUID is the parameter \<open>valid_id\<close>.
  \<^item> \<open>Operations\<close>: the operations of \<open>api/openapi.yaml\<close> as a table, and what it is for a request to be
    addressed to one and accepted by it. Every call of the client is exactly one of them, every
    request of the editor is accepted, every documented answer is read as the type it is cast to.
  \<^item> \<open>Routes\<close> (the \<open>page.tsx\<close> files and \<open>layout.tsx\<close> under \<open>app/\<close>, \<open>components/ConsoleHeader.tsx\<close>): which screen an address
    opens and with what, where every link and navigation of the screens leads, and the header. The
    framework's rule that a fixed directory name wins over a bracketed one is the order of the table.
  \<^item> \<open>Console\<close>: the screens put together. One is mounted at a time, on its own part of the one source of
    ids; links, the header and the browser's history lead from one to the next; a screen that was left
    still runs the handlers that wait for an answer. Each screen is then a reachable state of its own
    machine, on ids apart from exactly those the screens before it have drawn; no idempotency key is
    used twice, and every link ends on the page and at the address it names.
  \<^item> \<open>Primitives\<close> (\<open>components/primitives.tsx\<close>), \<open>Decision_View\<close> (the markup of \<open>DecisionForm.tsx\<close> and
    \<open>EvidenceEditor.tsx\<close>), \<open>Notice_View\<close> (\<open>ErrorNotice.tsx\<close>), \<open>Start_View\<close> (the ingestion page),
    \<open>List_View\<close> (\<open>NodeListEditor.tsx\<close>, \<open>EdgeListEditor.tsx\<close>), \<open>Panels\<close> (the live preview, the provenance
    panel and the legends): element trees over the state, and that they say what the state is: which
    choice is picked, which controls are enabled, each problem at its control, each select at its value.
  \<^item> This theory: the properties that span components, from the form to what the backend is handed.

  \<^bold>\<open>Parameters.\<close> \<open>newId\<close> is the sequence of results of \<open>crypto.randomUUID\<close> (assumed injective and
  disjoint from the ids that exist elsewhere, where a property needs it); the layout engine dagre,
  \<open>localeCompare\<close>, \<open>Date\<close> and \<open>Intl.DateTimeFormat\<close>, \<open>new Date()\<close>, the outcome of \<open>fetch\<close>, and the
  answers of the backend are arguments. What is assumed of an answer is a named predicate on the event
  that carries it (\<open>honest_answer\<close>, \<open>answer_listed\<close>, \<open>well_named\<close>).

  \<^bold>\<open>Conventions.\<close> An asynchronous handler is cut at its \<open>await\<close>s: the part before is one operation, the
  continuation another, and the machine may take any other event in between. A control that is
  disabled or not on screen gives no step. Navigations are taken one after the other, in order. A
  value cast without a check in the source (\<open>as T\<close>) is assumed to have that type. Sets and maps whose
  iteration order the source never uses are sets and maps here.

  \<^bold>\<open>Not modelled.\<close> Most static prose and element structure of the remaining screens, whose values are
  modelled instead (\<open>Primitives\<close>, \<open>Decision_View\<close>, \<open>Notice_View\<close>, \<open>Start_View\<close>, \<open>List_View\<close> and \<open>Panels\<close>
  hold the trees that are modelled); the style sheet; the browser, React's scheduling and the Next.js
  router beyond the order of effects and the table of pages; the backend in Go, another language, of
  which only the answers matter here.
\<close>

section \<open>From the form to the backend\<close>

text \<open>C3. What the editor sends arrives at the backend. Whatever happens in a session that was opened at ids
  which can stand in a path as they are, as every UUID can, every request arrives below the
  backend's own base, at the address of the version and playbook of the page, with a body that reads
  back as the graph that was sent, every key of it (the metadata of a node is there as \<open>null\<close> when
  none was given), or as the new playbook. A graph that is sent keeps every rule of the write-time table
  but the presence of ids, which the form does not look at.\<close>
theorem editor_requests_reach_backend:
  assumes "session_reach foreign newId (initial_session p v) s" "q \<in> set (ss_log s)"
    "pred_option (list_all unreserved) p" "pred_option (list_all unreserved) v"
  shows "\<exists>c u. call_of (editor_call q) = Some c \<and> upstream env (editor_call q) = Some u
    \<and> hc_url u = BACKEND_URL env @ hc_url c
    \<and> (case q of
         Put_Graph w g \<Rightarrow> hc_method u = PUT \<and> v = Some w \<and> coherent_graph g
           \<and> map_option parse_json (hc_body u) = Some (Some (graph_json g))
       | Create_Playbook b \<Rightarrow> hc_method u = POST \<and> map_option parse_json (hc_body u) = Some (Some (playbook_json b))
       | Publish_Version w \<Rightarrow> hc_method u = POST \<and> v = Some w \<and> hc_body u = Some []
       | Create_Version r w \<Rightarrow> hc_method u = POST \<and> p = Some r \<and> v = Some w
           \<and> map_option parse_json (hc_body u) = Some (Some (version_json \<lparr>cv_clone_from = Some w\<rparr>)))"
proof -
  have legal: "legal_request p v q"
    using log_legal [OF assms(1)] assms(2) by (simp add: list_all_iff)
  from editor_call_some obtain c where c: "call_of (editor_call q) = Some c" by blast
  from upstream_call [OF c legal_segments [OF legal assms(3,4)], of env] obtain u
    where u: "upstream env (editor_call q) = Some u" "hc_method u = hc_method c" "hc_url u = BACKEND_URL env @ hc_url c"
      "hc_body u = (if hc_method c = GET then hc_body c else Some (or_else (hc_body c) []))"
    by blast
  note body = body_reads_back [OF c legal_call [OF legal]]
  show ?thesis
  proof (intro exI conjI)
    show "call_of (editor_call q) = Some c" "upstream env (editor_call q) = Some u" "hc_url u = BACKEND_URL env @ hc_url c"
      by (fact c u)+
    show "case q of
         Put_Graph w g \<Rightarrow> hc_method u = PUT \<and> v = Some w \<and> coherent_graph g
           \<and> map_option parse_json (hc_body u) = Some (Some (graph_json g))
       | Create_Playbook b \<Rightarrow> hc_method u = POST \<and> map_option parse_json (hc_body u) = Some (Some (playbook_json b))
       | Publish_Version w \<Rightarrow> hc_method u = POST \<and> v = Some w \<and> hc_body u = Some []
       | Create_Version r w \<Rightarrow> hc_method u = POST \<and> p = Some r \<and> v = Some w
           \<and> map_option parse_json (hc_body u) = Some (Some (version_json \<lparr>cv_clone_from = Some w\<rparr>))"
      using c u(2,4) body legal
      by (cases q) (auto simp: endpoint_defs request_call_def legal_request_def)
  qed
qed

text \<open>C26. The idempotency key of a decision form reaches the backend under the header it is read
  from, together with a body that reads back as the decision the key was issued for.\<close>
theorem decision_key_reaches_backend:
  assumes "k \<noteq> []" "list_all unreserved i" "list_all wf_evidence (sd_evidence b)"
  shows "\<exists>u. upstream env (Post_Decision i b k) = Some u \<and> hc_method u = POST
    \<and> header (js ''idempotency-key'') (hc_headers u) = Some k
    \<and> map_option parse_json (hc_body u) = Some (Some (decision_json b))"
proof -
  let ?c = "submitDecision i b k"
  have c: "call_of (Post_Decision i b k) = Some ?c" by simp
  from upstream_call [OF c, of env] assms(2) obtain u where u: "upstream env (Post_Decision i b k) = Some u"
    "hc_method u = hc_method ?c" "\<forall>n. header n (hc_headers u) = header n (hc_headers ?c)"
    "hc_body u = (if hc_method ?c = GET then hc_body ?c else Some (or_else (hc_body ?c) []))"
    by auto
  have "hc_method ?c = POST" by (simp add: endpoint_defs request_call_def)
  moreover have "hc_body ?c = Some (stringify (decision_json b))" by (simp add: endpoint_defs request_call_def)
  moreover have "parse_json (stringify (decision_json b)) = Some (decision_json b)"
    using assms(3) by (intro compact.parse_show decision_json_wf)
  moreover have "header (js ''idempotency-key'') (hc_headers ?c) = Some k"
    using assms(1) by (simp add: endpoint_defs request_call_def header_def lower_names)
  ultimately show ?thesis using u by auto
qed

theorem decision_key_reaches_backend_witness:
  "\<exists>u. upstream None (Post_Decision (js ''i'') \<lparr>sd_edge_id = js ''e'', sd_actor = \<lparr>ac_type = Human, ac_id = None\<rparr>,
       sd_rationale = None, sd_evidence = []\<rparr> (js ''k'')) = Some u
     \<and> header (js ''idempotency-key'') (hc_headers u) = Some (js ''k'')"
proof -
  have "js ''k'' \<noteq> []" "list_all unreserved (js ''i'')" by (simp_all add: js_simps unreserved_def)
  from decision_key_reaches_backend [OF this, of "\<lparr>sd_edge_id = js ''e'', sd_actor = \<lparr>ac_type = Human, ac_id = None\<rparr>,
       sd_rationale = None, sd_evidence = []\<rparr>" None] show ?thesis by auto
qed

theorem editor_requests_reach_backend_witness:
  "\<exists>s g u. session_reach {} (\<lambda>n. replicate n 65) (initial_session (Some (js ''p'')) (Some (js ''v''))) s
     \<and> Put_Graph (js ''v'') g \<in> set (ss_log s) \<and> upstream None (editor_call (Put_Graph (js ''v'') g)) = Some u
     \<and> hc_method u = PUT"
proof -
  obtain s g where s: "session_reach {} (\<lambda>n. replicate n 65) (initial_session (Some (js ''p'')) (Some (js ''v''))) s"
    "Put_Graph (js ''v'') g \<in> set (ss_log s)"
    using unseen_reach [where foreign = "{}" and newId = "\<lambda>n. replicate n 65" and p = "js ''p''" and v = "js ''v''"] by auto
  have "pred_option (list_all unreserved) (Some (js ''p''))" "pred_option (list_all unreserved) (Some (js ''v''))"
    by (simp_all add: js_simps unreserved_def)
  from editor_requests_reach_backend [OF s this, of None] s show ?thesis by auto
qed

end
